theory Spec2Isabelle
  imports Complex_Main
begin

section \<open>JavaScript numbers\<close>

text \<open>
  Every value the four primitives handle is a JavaScript number, an IEEE-754 binary64
  value. The model keeps the three kinds of special value apart from the finite ones:
  \<open>NaN\<close>, the two infinities, and \<open>Fin r\<close> for a finite number, which is represented
  by the real number \<open>r\<close> it denotes.

  Arithmetic is the machine's. Each operation on finite numbers computes the exact real
  result and rounds it to the nearest binary64 value, ties to the even significand
  (\<open>js_round\<close> below): 53 bits of precision, gradual underflow down to \<open>2^-1074\<close>, and
  overflow to an infinity.

  The two zeros \<open>+0\<close> and \<open>-0\<close> are one value \<open>Fin 0\<close>. JavaScript's \<open>===\<close>, \<open><\<close>
  and \<open><=\<close> do not tell them apart either, and the only operation whose result depends
  on the sign of a zero is a division by it (\<open>js_div\<close> below takes the zero as \<open>+0\<close>).
\<close>

datatype jsnum = NaN | NegInf | PosInf | Fin real

text \<open>The comparisons \<open>a < b\<close>, \<open>a <= b\<close>, \<open>a > b\<close> and \<open>a === b\<close>: all false when an
  operand is \<open>NaN\<close>.\<close>

fun js_lt :: "jsnum \<Rightarrow> jsnum \<Rightarrow> bool" where
  "js_lt NaN b = False"
| "js_lt a NaN = False"
| "js_lt a NegInf = False"
| "js_lt NegInf b = True"
| "js_lt PosInf b = False"
| "js_lt (Fin x) PosInf = True"
| "js_lt (Fin x) (Fin y) = (x < y)"

definition js_eq :: "jsnum \<Rightarrow> jsnum \<Rightarrow> bool" where
  "js_eq a b = (a \<noteq> NaN \<and> a = b)"

definition js_le :: "jsnum \<Rightarrow> jsnum \<Rightarrow> bool" where
  "js_le a b = (js_lt a b \<or> js_eq a b)"

definition js_gt :: "jsnum \<Rightarrow> jsnum \<Rightarrow> bool" where
  "js_gt a b = js_lt b a"

text \<open>\<open>Number.isFinite\<close>: neither \<open>NaN\<close> nor an infinity.\<close>

fun is_finite :: "jsnum \<Rightarrow> bool" where
  "is_finite (Fin x) = True"
| "is_finite a = False"

text \<open>\<open>Math.max\<close> and \<open>Math.min\<close> of two arguments: \<open>NaN\<close> when an argument is
  \<open>NaN\<close>, otherwise the larger (smaller) one.\<close>

definition js_max :: "jsnum \<Rightarrow> jsnum \<Rightarrow> jsnum" where
  "js_max a b = (if a = NaN \<or> b = NaN then NaN else if js_lt a b then b else a)"

definition js_min :: "jsnum \<Rightarrow> jsnum \<Rightarrow> jsnum" where
  "js_min a b = (if a = NaN \<or> b = NaN then NaN else if js_lt b a then b else a)"

subsection \<open>Rounding to binary64\<close>

text \<open>Rounding a real number to the nearest integer, a tie going to the even one.\<close>

definition round_even :: "real \<Rightarrow> int" where
  "round_even y =
     (let f = \<lfloor>y\<rfloor>
      in if y - of_int f < 1/2 then f
         else if 1/2 < y - of_int f then f + 1
         else if even f then f else f + 1)"

text \<open>
  The exponent of the last place of the binary64 values around \<open>x\<close>: in the binade
  \<open>2^k \<le> |x| < 2^(k+1)\<close> the values are the multiples of \<open>2^(k-52)\<close>, and below
  \<open>2^-1022\<close> (the subnormal range) they are the multiples of \<open>2^-1074\<close>.
\<close>

definition expo :: "real \<Rightarrow> int" where
  "expo x = max (\<lfloor>log 2 \<bar>x\<bar>\<rfloor> - 52) (- 1074)"

text \<open>Round to nearest, ties to even, with the exponent not yet bounded above.\<close>

definition to_double :: "real \<Rightarrow> real" where
  "to_double x = of_int (round_even (x / 2 powi expo x)) * 2 powi expo x"

text \<open>The result of an operation whose exact value is \<open>x\<close>: the rounded value, or the
  infinity of the sign of \<open>x\<close> when the rounded value is \<open>2^1024\<close> or more in magnitude.\<close>

definition js_round :: "real \<Rightarrow> jsnum" where
  "js_round x =
     (let r = to_double x
      in if 2 ^ 1024 \<le> \<bar>r\<bar> then (if 0 < x then PosInf else NegInf) else Fin r)"

text \<open>The real numbers that are binary64 values: rounding leaves them as they are, and
  they are below \<open>2^1024\<close> in magnitude.\<close>

definition is_double :: "real \<Rightarrow> bool" where
  "is_double x = (to_double x = x \<and> \<bar>x\<bar> < 2 ^ 1024)"

text \<open>\<open>js_near a x tol\<close>: the number \<open>a\<close> is finite and at most \<open>tol\<close> away from \<open>x\<close>.\<close>

fun js_near :: "jsnum \<Rightarrow> real \<Rightarrow> real \<Rightarrow> bool" where
  "js_near (Fin r) x tol = (\<bar>r - x\<bar> \<le> tol)"
| "js_near a x tol = False"

subsection \<open>Arithmetic\<close>

text \<open>The special cases are IEEE-754's: \<open>Infinity - Infinity\<close>, \<open>Infinity * 0\<close>,
  \<open>Infinity / Infinity\<close> and \<open>0 / 0\<close> are \<open>NaN\<close>, and \<open>NaN\<close> propagates through every
  operation. On finite operands the exact result is rounded. Negation is exact.\<close>

fun js_neg :: "jsnum \<Rightarrow> jsnum" where
  "js_neg NaN = NaN"
| "js_neg NegInf = PosInf"
| "js_neg PosInf = NegInf"
| "js_neg (Fin x) = Fin (- x)"

fun js_add :: "jsnum \<Rightarrow> jsnum \<Rightarrow> jsnum" where
  "js_add NaN b = NaN"
| "js_add a NaN = NaN"
| "js_add PosInf NegInf = NaN"
| "js_add NegInf PosInf = NaN"
| "js_add PosInf b = PosInf"
| "js_add NegInf b = NegInf"
| "js_add (Fin x) PosInf = PosInf"
| "js_add (Fin x) NegInf = NegInf"
| "js_add (Fin x) (Fin y) = js_round (x + y)"

definition js_sub :: "jsnum \<Rightarrow> jsnum \<Rightarrow> jsnum" where
  "js_sub a b = js_add a (js_neg b)"

text \<open>An infinity with the sign of \<open>x\<close>, for \<open>x \<noteq> 0\<close>.\<close>

definition inf_of_sign :: "real \<Rightarrow> jsnum" where
  "inf_of_sign x = (if 0 < x then PosInf else NegInf)"

fun js_mul :: "jsnum \<Rightarrow> jsnum \<Rightarrow> jsnum" where
  "js_mul NaN b = NaN"
| "js_mul a NaN = NaN"
| "js_mul PosInf PosInf = PosInf"
| "js_mul PosInf NegInf = NegInf"
| "js_mul NegInf PosInf = NegInf"
| "js_mul NegInf NegInf = PosInf"
| "js_mul PosInf (Fin y) = (if y = 0 then NaN else inf_of_sign y)"
| "js_mul NegInf (Fin y) = (if y = 0 then NaN else inf_of_sign (- y))"
| "js_mul (Fin x) PosInf = (if x = 0 then NaN else inf_of_sign x)"
| "js_mul (Fin x) NegInf = (if x = 0 then NaN else inf_of_sign (- x))"
| "js_mul (Fin x) (Fin y) = js_round (x * y)"

fun js_div :: "jsnum \<Rightarrow> jsnum \<Rightarrow> jsnum" where
  "js_div NaN b = NaN"
| "js_div a NaN = NaN"
| "js_div PosInf PosInf = NaN"
| "js_div PosInf NegInf = NaN"
| "js_div NegInf PosInf = NaN"
| "js_div NegInf NegInf = NaN"
| "js_div PosInf (Fin y) = (if y < 0 then NegInf else PosInf)"
| "js_div NegInf (Fin y) = (if y < 0 then PosInf else NegInf)"
| "js_div (Fin x) PosInf = Fin 0"
| "js_div (Fin x) NegInf = Fin 0"
| "js_div (Fin x) (Fin y) =
     (if y = 0 then (if x = 0 then NaN else inf_of_sign x) else js_round (x / y))"

text \<open>\<open>Math.log\<close> and \<open>Math.exp\<close>: the logarithm of a negative number is \<open>NaN\<close>,
  of zero \<open>-Infinity\<close>. ECMAScript leaves the accuracy of the two functions to the
  implementation; the model takes the correctly rounded value.\<close>

fun js_log :: "jsnum \<Rightarrow> jsnum" where
  "js_log NaN = NaN"
| "js_log NegInf = NaN"
| "js_log PosInf = PosInf"
| "js_log (Fin x) = (if x < 0 then NaN else if x = 0 then NegInf else js_round (ln x))"

fun js_exp :: "jsnum \<Rightarrow> jsnum" where
  "js_exp NaN = NaN"
| "js_exp NegInf = Fin 0"
| "js_exp PosInf = PosInf"
| "js_exp (Fin x) = js_round (exp x)"

section \<open>Clipper\<close>

text \<open>
  \<^verbatim>\<open>
  constructor({ min = -Infinity, max = Infinity } = {}) { this.min = min; this.max = max; }
  set(attributes) { Object.assign(this, attributes); }
  process(inputValue) { return Math.min(this.max, Math.max(this.min, inputValue)); }
  \<close>
  The fields are named \<open>cl_min\<close> and \<open>cl_max\<close> here. An options object is a record
  of optional fields: \<open>None\<close> is a key that is absent, for which the constructor takes
  the default and \<open>Object.assign\<close> leaves the field as it is.
\<close>

record Clipper =
  cl_min :: jsnum
  cl_max :: jsnum

record Clipper_options =
  cl_opt_min :: "jsnum option"
  cl_opt_max :: "jsnum option"

definition Clipper_new :: "Clipper_options \<Rightarrow> Clipper" where
  "Clipper_new opts =
     \<lparr> cl_min = (case cl_opt_min opts of None \<Rightarrow> NegInf | Some v \<Rightarrow> v),
       cl_max = (case cl_opt_max opts of None \<Rightarrow> PosInf | Some v \<Rightarrow> v) \<rparr>"

definition Clipper_set :: "Clipper_options \<Rightarrow> Clipper \<Rightarrow> Clipper" where
  "Clipper_set attributes c =
     \<lparr> cl_min = (case cl_opt_min attributes of None \<Rightarrow> cl_min c | Some v \<Rightarrow> v),
       cl_max = (case cl_opt_max attributes of None \<Rightarrow> cl_max c | Some v \<Rightarrow> v) \<rparr>"

definition Clipper_process :: "Clipper \<Rightarrow> jsnum \<Rightarrow> jsnum" where
  "Clipper_process c inputValue = js_min (cl_max c) (js_max (cl_min c) inputValue)"

section \<open>The frequency conversion\<close>

text \<open>
  \<open>hertzToNormalised(frequency, {sampleRate})\<close> is imported from the package
  \<open>@ircam/sc-utils\<close>; it is not code of this library. Every definition below that calls
  it takes it as the parameter \<open>h\<close>, a function of the frequency and the sample rate,
  and the general theorems hold for every \<open>h\<close>.
\<close>

type_synonym conversion = "jsnum \<Rightarrow> jsnum \<Rightarrow> jsnum"

definition hertzToNormalised :: conversion where
  \<comment> \<open>Modelled from the spec: the body of the external conversion is missing. The spec
      fixes only that a sample rate of 2 means the frequency is already normalised (no
      unit conversion), and the examples in the sources of Lowpass and Hysteresis agree
      (at sample rate 2, frequency 0.9 gives the coefficient 0.9). This instance,
      twice the frequency over the sample rate, is used for concrete evaluations only.\<close>
  "hertzToNormalised frequencyHertz sampleRate =
     js_div (js_mul (Fin 2) frequencyHertz) sampleRate"

text \<open>Both filters clamp the converted frequency the same way:
  \<open>Math.max(0, Math.min(1, hertzToNormalised(frequency, {sampleRate})))\<close>.\<close>

definition clamped_coefficient :: "conversion \<Rightarrow> jsnum \<Rightarrow> jsnum \<Rightarrow> jsnum" where
  "clamped_coefficient h frequency sampleRate =
     js_max (Fin 0) (js_min (Fin 1) (h frequency sampleRate))"

section \<open>Lowpass\<close>

text \<open>
  The fields of a Lowpass carry the prefix \<open>lp_\<close>. \<open>outputValueLast\<close> is
  \<open>undefined\<close> until the first \<open>process\<close> and again after \<open>reset\<close>: that is
  \<open>None\<close>.
\<close>

record Lowpass =
  lp_sampleRate :: jsnum
  lp_lowpassFrequency :: jsnum
  lp_inputScale :: jsnum
  lp_feedbackScale :: jsnum
  lp_outputValueLast :: "jsnum option"

record Lowpass_options =
  lp_opt_sampleRate :: "jsnum option"
  lp_opt_lowpassFrequency :: "jsnum option"

text \<open>
  \<^verbatim>\<open>
  init() {
    this.inputScale = Math.max(0, Math.min(1, hertzToNormalised(this.lowpassFrequency, {
      sampleRate: this.sampleRate,
    })));
    this.feedbackScale = 1 - this.inputScale;
  }
  \<close>
\<close>

definition Lowpass_init :: "conversion \<Rightarrow> Lowpass \<Rightarrow> Lowpass" where
  "Lowpass_init h s =
     (let inputScale = clamped_coefficient h (lp_lowpassFrequency s) (lp_sampleRate s)
      in s\<lparr> lp_inputScale := inputScale,
            lp_feedbackScale := js_sub (Fin 1) inputScale \<rparr>)"

text \<open>The constructor stores the two options (defaults 2 and 0.5) and calls \<open>init\<close>,
  which assigns both coefficients; the \<open>NaN\<close> written for them here is overwritten
  before the constructor returns.\<close>

definition Lowpass_new :: "conversion \<Rightarrow> Lowpass_options \<Rightarrow> Lowpass" where
  "Lowpass_new h opts =
     Lowpass_init h
       \<lparr> lp_sampleRate = (case lp_opt_sampleRate opts of None \<Rightarrow> Fin 2 | Some v \<Rightarrow> v),
         lp_lowpassFrequency =
           (case lp_opt_lowpassFrequency opts of None \<Rightarrow> Fin (1/2) | Some v \<Rightarrow> v),
         lp_inputScale = NaN,
         lp_feedbackScale = NaN,
         lp_outputValueLast = None \<rparr>"

text \<open>\<open>set(attributes) { Object.assign(this, attributes); this.init(); }\<close>\<close>

definition Lowpass_assign :: "Lowpass_options \<Rightarrow> Lowpass \<Rightarrow> Lowpass" where
  "Lowpass_assign attributes s =
     s\<lparr> lp_sampleRate :=
           (case lp_opt_sampleRate attributes of None \<Rightarrow> lp_sampleRate s | Some v \<Rightarrow> v),
         lp_lowpassFrequency :=
           (case lp_opt_lowpassFrequency attributes of
              None \<Rightarrow> lp_lowpassFrequency s | Some v \<Rightarrow> v) \<rparr>"

definition Lowpass_set :: "conversion \<Rightarrow> Lowpass_options \<Rightarrow> Lowpass \<Rightarrow> Lowpass" where
  "Lowpass_set h attributes s = Lowpass_init h (Lowpass_assign attributes s)"

text \<open>
  \<^verbatim>\<open>
  process(inputValue) {
    if (typeof this.outputValueLast === 'undefined') {
      this.outputValueLast = inputValue;
    }
    const { inputScale, feedbackScale } = this;
    const feedback = this.outputValueLast * feedbackScale;
    const outputValue = inputValue * inputScale + feedback;
    this.outputValueLast = outputValue;
    return outputValue;
  }
  \<close>
  The model returns the output together with the updated filter.
\<close>

definition Lowpass_process :: "Lowpass \<Rightarrow> jsnum \<Rightarrow> jsnum \<times> Lowpass" where
  "Lowpass_process s inputValue =
     (let outputValueLast =
            (case lp_outputValueLast s of None \<Rightarrow> inputValue | Some v \<Rightarrow> v);
          feedback = js_mul outputValueLast (lp_feedbackScale s);
          outputValue = js_add (js_mul inputValue (lp_inputScale s)) feedback
      in (outputValue, s\<lparr> lp_outputValueLast := Some outputValue \<rparr>))"

definition Lowpass_reset :: "Lowpass \<Rightarrow> Lowpass" where
  "Lowpass_reset s = s\<lparr> lp_outputValueLast := None \<rparr>"

text \<open>A Lowpass instance is what the constructor returns, after any sequence of calls of
  its three methods.\<close>

datatype Lowpass_call = LpSet Lowpass_options | LpProcess jsnum | LpReset

fun Lowpass_step :: "conversion \<Rightarrow> Lowpass \<Rightarrow> Lowpass_call \<Rightarrow> Lowpass" where
  "Lowpass_step h s (LpSet attributes) = Lowpass_set h attributes s"
| "Lowpass_step h s (LpProcess inputValue) = snd (Lowpass_process s inputValue)"
| "Lowpass_step h s LpReset = Lowpass_reset s"

definition Lowpass_instance :: "conversion \<Rightarrow> Lowpass_options \<Rightarrow> Lowpass_call list \<Rightarrow> Lowpass" where
  "Lowpass_instance h opts calls = foldl (Lowpass_step h) (Lowpass_new h opts) calls"



section \<open>Hysteresis\<close>

text \<open>
  The fields of a Hysteresis carry the prefix \<open>hy_\<close>; \<open>this.up\<close> and \<open>this.down\<close>
  are objects \<open>{inputScale, feedbackScale}\<close>.
\<close>

record coefficients =
  inputScale :: jsnum
  feedbackScale :: jsnum

record Hysteresis =
  hy_sampleRate :: jsnum
  hy_lowpassFrequencyUp :: jsnum
  hy_lowpassFrequencyDown :: jsnum
  hy_up :: coefficients
  hy_down :: coefficients
  hy_outputValueLast :: "jsnum option"

record Hysteresis_options =
  hy_opt_sampleRate :: "jsnum option"
  hy_opt_lowpassFrequencyUp :: "jsnum option"
  hy_opt_lowpassFrequencyDown :: "jsnum option"

text \<open>
  \<^verbatim>\<open>
  init() {
    let inputScale;
    let feedbackScale;
    inputScale = Math.max(0, Math.min(1,
      hertzToNormalised(this.lowpassFrequencyUp, { sampleRate: this.sampleRate })));
    feedbackScale = 1 - inputScale;
    this.up = { inputScale, feedbackScale };
    inputScale = Math.max(0, Math.min(1,
      hertzToNormalised(this.lowpassFrequencyDown, { sampleRate: this.sampleRate })));
    feedbackScale = 1 - inputScale;
    this.down = { inputScale, feedbackScale };
  }
  \<close>
\<close>

definition Hysteresis_init :: "conversion \<Rightarrow> Hysteresis \<Rightarrow> Hysteresis" where
  "Hysteresis_init h s =
     (let inputScaleUp = clamped_coefficient h (hy_lowpassFrequencyUp s) (hy_sampleRate s);
          inputScaleDown = clamped_coefficient h (hy_lowpassFrequencyDown s) (hy_sampleRate s)
      in s\<lparr> hy_up := \<lparr> inputScale = inputScaleUp,
                       feedbackScale = js_sub (Fin 1) inputScaleUp \<rparr>,
            hy_down := \<lparr> inputScale = inputScaleDown,
                         feedbackScale = js_sub (Fin 1) inputScaleDown \<rparr> \<rparr>)"

text \<open>The constructor (defaults 2, 0.5 and 0.5); \<open>init\<close> assigns \<open>up\<close> and \<open>down\<close>
  before it returns.\<close>

definition Hysteresis_new :: "conversion \<Rightarrow> Hysteresis_options \<Rightarrow> Hysteresis" where
  "Hysteresis_new h opts =
     Hysteresis_init h
       \<lparr> hy_sampleRate = (case hy_opt_sampleRate opts of None \<Rightarrow> Fin 2 | Some v \<Rightarrow> v),
         hy_lowpassFrequencyUp =
           (case hy_opt_lowpassFrequencyUp opts of None \<Rightarrow> Fin (1/2) | Some v \<Rightarrow> v),
         hy_lowpassFrequencyDown =
           (case hy_opt_lowpassFrequencyDown opts of None \<Rightarrow> Fin (1/2) | Some v \<Rightarrow> v),
         hy_up = \<lparr> inputScale = NaN, feedbackScale = NaN \<rparr>,
         hy_down = \<lparr> inputScale = NaN, feedbackScale = NaN \<rparr>,
         hy_outputValueLast = None \<rparr>"

definition Hysteresis_assign :: "Hysteresis_options \<Rightarrow> Hysteresis \<Rightarrow> Hysteresis" where
  "Hysteresis_assign attributes s =
     s\<lparr> hy_sampleRate :=
           (case hy_opt_sampleRate attributes of None \<Rightarrow> hy_sampleRate s | Some v \<Rightarrow> v),
         hy_lowpassFrequencyUp :=
           (case hy_opt_lowpassFrequencyUp attributes of
              None \<Rightarrow> hy_lowpassFrequencyUp s | Some v \<Rightarrow> v),
         hy_lowpassFrequencyDown :=
           (case hy_opt_lowpassFrequencyDown attributes of
              None \<Rightarrow> hy_lowpassFrequencyDown s | Some v \<Rightarrow> v) \<rparr>"

definition Hysteresis_set :: "conversion \<Rightarrow> Hysteresis_options \<Rightarrow> Hysteresis \<Rightarrow> Hysteresis" where
  "Hysteresis_set h attributes s = Hysteresis_init h (Hysteresis_assign attributes s)"

text \<open>
  \<^verbatim>\<open>
  process(inputValue) {
    if (typeof this.outputValueLast === 'undefined') {
      this.outputValueLast = inputValue;
    }
    const direction = (inputValue > this.outputValueLast ? 'up' : 'down');
    const { inputScale, feedbackScale } = this[direction];
    const feedback = this.outputValueLast * feedbackScale;
    const outputValue = inputValue * inputScale + feedback;
    this.outputValueLast = outputValue;
    return outputValue;
  }
  \<close>
\<close>

datatype direction = Up | Down

definition Hysteresis_last :: "Hysteresis \<Rightarrow> jsnum \<Rightarrow> jsnum" where
  \<comment> \<open>\<open>this.outputValueLast\<close> after the first statement of \<open>process\<close>\<close>
  "Hysteresis_last s inputValue =
     (case hy_outputValueLast s of None \<Rightarrow> inputValue | Some v \<Rightarrow> v)"

definition Hysteresis_direction :: "Hysteresis \<Rightarrow> jsnum \<Rightarrow> direction" where
  "Hysteresis_direction s inputValue =
     (if js_gt inputValue (Hysteresis_last s inputValue) then Up else Down)"

fun Hysteresis_pair :: "Hysteresis \<Rightarrow> direction \<Rightarrow> coefficients" where
  \<comment> \<open>\<open>this[direction]\<close>\<close>
  "Hysteresis_pair s Up = hy_up s"
| "Hysteresis_pair s Down = hy_down s"

definition Hysteresis_process :: "Hysteresis \<Rightarrow> jsnum \<Rightarrow> jsnum \<times> Hysteresis" where
  "Hysteresis_process s inputValue =
     (let outputValueLast = Hysteresis_last s inputValue;
          pair = Hysteresis_pair s (Hysteresis_direction s inputValue);
          feedback = js_mul outputValueLast (feedbackScale pair);
          outputValue = js_add (js_mul inputValue (inputScale pair)) feedback
      in (outputValue, s\<lparr> hy_outputValueLast := Some outputValue \<rparr>))"

definition Hysteresis_reset :: "Hysteresis \<Rightarrow> Hysteresis" where
  "Hysteresis_reset s = s\<lparr> hy_outputValueLast := None \<rparr>"

datatype Hysteresis_call = HySet Hysteresis_options | HyProcess jsnum | HyReset

fun Hysteresis_step :: "conversion \<Rightarrow> Hysteresis \<Rightarrow> Hysteresis_call \<Rightarrow> Hysteresis" where
  "Hysteresis_step h s (HySet attributes) = Hysteresis_set h attributes s"
| "Hysteresis_step h s (HyProcess inputValue) = snd (Hysteresis_process s inputValue)"
| "Hysteresis_step h s HyReset = Hysteresis_reset s"

definition Hysteresis_instance ::
  "conversion \<Rightarrow> Hysteresis_options \<Rightarrow> Hysteresis_call list \<Rightarrow> Hysteresis" where
  "Hysteresis_instance h opts calls = foldl (Hysteresis_step h) (Hysteresis_new h opts) calls"

section \<open>Scaler\<close>

text \<open>
  The fields of a Scaler carry the prefix \<open>sc_\<close>. \<open>type\<close> is a string in the source
  and stays one here: \<open>process\<close> compares it with \<open>'linear'\<close> and \<open>'logarithmic'\<close>
  and takes the exponential curve for every other string.
\<close>

record Scaler =
  sc_inputStart :: jsnum
  sc_inputEnd :: jsnum
  sc_outputStart :: jsnum
  sc_outputEnd :: jsnum
  sc_clip :: bool
  sc_type :: string
  sc_base :: jsnum
  sc_inputRange :: jsnum
  sc_outputRange :: jsnum
  sc_inputMin :: jsnum
  sc_inputMax :: jsnum
  sc_logBase :: jsnum

record Scaler_options =
  sc_opt_inputStart :: "jsnum option"
  sc_opt_inputEnd :: "jsnum option"
  sc_opt_outputStart :: "jsnum option"
  sc_opt_outputEnd :: "jsnum option"
  sc_opt_clip :: "bool option"
  sc_opt_type :: "string option"
  sc_opt_base :: "jsnum option"

text \<open>
  \<^verbatim>\<open>
  init() {
    if (this.type === 'lin') { this.type = 'linear'; }
    else if (this.type === 'log') { this.type = 'logarithmic'; }
    else if (this.type === 'exp') { this.type = 'exponential'; }
    this.base = Math.max(0, this.base);
    this.inputRange = this.inputEnd - this.inputStart;
    this.outputRange = this.outputEnd - this.outputStart;
    this.inputMin = Math.min(this.inputStart, this.inputEnd);
    this.inputMax = Math.max(this.inputStart, this.inputEnd);
    this.logBase = Math.log(this.base);
  }
  \<close>
\<close>

definition Scaler_init :: "Scaler \<Rightarrow> Scaler" where
  "Scaler_init s =
     (let type = (if sc_type s = ''lin'' then ''linear''
                  else if sc_type s = ''log'' then ''logarithmic''
                  else if sc_type s = ''exp'' then ''exponential''
                  else sc_type s);
          base = js_max (Fin 0) (sc_base s)
      in s\<lparr> sc_type := type,
            sc_base := base,
            sc_inputRange := js_sub (sc_inputEnd s) (sc_inputStart s),
            sc_outputRange := js_sub (sc_outputEnd s) (sc_outputStart s),
            sc_inputMin := js_min (sc_inputStart s) (sc_inputEnd s),
            sc_inputMax := js_max (sc_inputStart s) (sc_inputEnd s),
            sc_logBase := js_log base \<rparr>)"

text \<open>The constructor (defaults 0, 1, 0, 1, \<open>false\<close>, \<open>'linear'\<close>, 1); \<open>init\<close> assigns
  the five derived fields before it returns.\<close>

definition Scaler_new :: "Scaler_options \<Rightarrow> Scaler" where
  "Scaler_new opts =
     Scaler_init
       \<lparr> sc_inputStart = (case sc_opt_inputStart opts of None \<Rightarrow> Fin 0 | Some v \<Rightarrow> v),
         sc_inputEnd = (case sc_opt_inputEnd opts of None \<Rightarrow> Fin 1 | Some v \<Rightarrow> v),
         sc_outputStart = (case sc_opt_outputStart opts of None \<Rightarrow> Fin 0 | Some v \<Rightarrow> v),
         sc_outputEnd = (case sc_opt_outputEnd opts of None \<Rightarrow> Fin 1 | Some v \<Rightarrow> v),
         sc_clip = (case sc_opt_clip opts of None \<Rightarrow> False | Some v \<Rightarrow> v),
         sc_type = (case sc_opt_type opts of None \<Rightarrow> ''linear'' | Some v \<Rightarrow> v),
         sc_base = (case sc_opt_base opts of None \<Rightarrow> Fin 1 | Some v \<Rightarrow> v),
         sc_inputRange = NaN,
         sc_outputRange = NaN,
         sc_inputMin = NaN,
         sc_inputMax = NaN,
         sc_logBase = NaN \<rparr>"

definition Scaler_assign :: "Scaler_options \<Rightarrow> Scaler \<Rightarrow> Scaler" where
  "Scaler_assign attributes s =
     s\<lparr> sc_inputStart :=
           (case sc_opt_inputStart attributes of None \<Rightarrow> sc_inputStart s | Some v \<Rightarrow> v),
         sc_inputEnd :=
           (case sc_opt_inputEnd attributes of None \<Rightarrow> sc_inputEnd s | Some v \<Rightarrow> v),
         sc_outputStart :=
           (case sc_opt_outputStart attributes of None \<Rightarrow> sc_outputStart s | Some v \<Rightarrow> v),
         sc_outputEnd :=
           (case sc_opt_outputEnd attributes of None \<Rightarrow> sc_outputEnd s | Some v \<Rightarrow> v),
         sc_clip := (case sc_opt_clip attributes of None \<Rightarrow> sc_clip s | Some v \<Rightarrow> v),
         sc_type := (case sc_opt_type attributes of None \<Rightarrow> sc_type s | Some v \<Rightarrow> v),
         sc_base := (case sc_opt_base attributes of None \<Rightarrow> sc_base s | Some v \<Rightarrow> v) \<rparr>"

definition Scaler_set :: "Scaler_options \<Rightarrow> Scaler \<Rightarrow> Scaler" where
  "Scaler_set attributes s = Scaler_init (Scaler_assign attributes s)"

text \<open>
  \<^verbatim>\<open>
  process(inputValue) {
    if (this.inputRange === 0 || this.outputRange === 0) {
      return (inputValue <= this.inputMin ? this.outputStart : this.outputEnd);
    }
    const input = (this.clip
      ? Math.max(this.inputMin, Math.min(this.inputMax, inputValue))
      : inputValue);
    if (this.base === 1 || this.type === 'linear') {
      return this.outputStart + this.outputRange
        * (input - this.inputStart) / this.inputRange;
    } else if (this.type === 'logarithmic') {
      return this.outputStart + this.outputRange
        * Math.log((this.base - 1) * (input - this.inputStart) / this.inputRange + 1)
        / this.logBase;
    } else {
      return this.outputStart + this.outputRange
        * (Math.exp(this.logBase * (input - this.inputStart) / this.inputRange) - 1)
        / (this.base - 1);
    }
  }
  \<close>
  \<open>*\<close> and \<open>/\<close> associate to the left, so \<open>a * b / c\<close> is \<open>(a * b) / c\<close>.
\<close>

definition Scaler_degenerate :: "Scaler \<Rightarrow> bool" where
  \<comment> \<open>\<open>this.inputRange === 0 || this.outputRange === 0\<close>\<close>
  "Scaler_degenerate s = (js_eq (sc_inputRange s) (Fin 0) \<or> js_eq (sc_outputRange s) (Fin 0))"

definition Scaler_linear :: "Scaler \<Rightarrow> bool" where
  \<comment> \<open>\<open>this.base === 1 || this.type === 'linear'\<close>\<close>
  "Scaler_linear s = (js_eq (sc_base s) (Fin 1) \<or> sc_type s = ''linear'')"

definition Scaler_input :: "Scaler \<Rightarrow> jsnum \<Rightarrow> jsnum" where
  \<comment> \<open>the constant \<open>input\<close>\<close>
  "Scaler_input s inputValue =
     (if sc_clip s then js_max (sc_inputMin s) (js_min (sc_inputMax s) inputValue)
      else inputValue)"

definition Scaler_process :: "Scaler \<Rightarrow> jsnum \<Rightarrow> jsnum" where
  "Scaler_process s inputValue =
     (if Scaler_degenerate s
      then (if js_le inputValue (sc_inputMin s) then sc_outputStart s else sc_outputEnd s)
      else
        (let input = Scaler_input s inputValue
         in if Scaler_linear s
            then js_add (sc_outputStart s)
                   (js_div (js_mul (sc_outputRange s) (js_sub input (sc_inputStart s)))
                      (sc_inputRange s))
            else if sc_type s = ''logarithmic''
            then js_add (sc_outputStart s)
                   (js_div
                      (js_mul (sc_outputRange s)
                         (js_log
                            (js_add
                               (js_div
                                  (js_mul (js_sub (sc_base s) (Fin 1))
                                     (js_sub input (sc_inputStart s)))
                                  (sc_inputRange s))
                               (Fin 1))))
                      (sc_logBase s))
            else js_add (sc_outputStart s)
                   (js_div
                      (js_mul (sc_outputRange s)
                         (js_sub
                            (js_exp
                               (js_div
                                  (js_mul (sc_logBase s) (js_sub input (sc_inputStart s)))
                                  (sc_inputRange s)))
                            (Fin 1)))
                      (js_sub (sc_base s) (Fin 1)))))"

text \<open>The divisions \<open>process\<close> performs: \<open>Scaler_divisors s\<close> lists the right operand of
  every \<open>/\<close> on the path \<open>process\<close> takes in state \<open>s\<close>, in the order of evaluation.
  The branch for a zero range returns before any division.\<close>

definition Scaler_divisors :: "Scaler \<Rightarrow> jsnum list" where
  "Scaler_divisors s =
     (if Scaler_degenerate s then []
      else if Scaler_linear s then [sc_inputRange s]
      else if sc_type s = ''logarithmic'' then [sc_inputRange s, sc_logBase s]
      else [sc_inputRange s, js_sub (sc_base s) (Fin 1)])"

text \<open>A Scaler configured to map the interval \<open>A\<close> to the interval \<open>B\<close>, each given
  by its two end points: the constructor called with the four end points and, when
  given, \<open>clip\<close>, \<open>type\<close> and \<open>base\<close>.\<close>

definition Scaler_mapping ::
  "jsnum \<times> jsnum \<Rightarrow> jsnum \<times> jsnum \<Rightarrow> bool option \<Rightarrow> string option \<Rightarrow> jsnum option \<Rightarrow> Scaler"
  where
  "Scaler_mapping A B clip type base =
     Scaler_new
       \<lparr> sc_opt_inputStart = Some (fst A), sc_opt_inputEnd = Some (snd A),
         sc_opt_outputStart = Some (fst B), sc_opt_outputEnd = Some (snd B),
         sc_opt_clip = clip, sc_opt_type = type, sc_opt_base = base \<rparr>"

section \<open>What the derived coefficients are\<close>

text \<open>The coefficients of a filter are derived from its configuration when \<open>init\<close> has
  run on it and the configuration has not changed since.\<close>

definition Lowpass_derived :: "conversion \<Rightarrow> Lowpass \<Rightarrow> bool" where
  "Lowpass_derived h s =
     (lp_inputScale s = clamped_coefficient h (lp_lowpassFrequency s) (lp_sampleRate s)
      \<and> lp_feedbackScale s = js_sub (Fin 1) (lp_inputScale s))"

definition Hysteresis_derived :: "conversion \<Rightarrow> Hysteresis \<Rightarrow> bool" where
  "Hysteresis_derived h s =
     (inputScale (hy_up s) = clamped_coefficient h (hy_lowpassFrequencyUp s) (hy_sampleRate s)
      \<and> feedbackScale (hy_up s) = js_sub (Fin 1) (inputScale (hy_up s))
      \<and> inputScale (hy_down s) =
          clamped_coefficient h (hy_lowpassFrequencyDown s) (hy_sampleRate s)
      \<and> feedbackScale (hy_down s) = js_sub (Fin 1) (inputScale (hy_down s)))"

text \<open>A coefficient pair as the data model describes it: the input scale lies in
  \<open>[0, 1]\<close>, the feedback scale is one minus it, and the two sum to one.\<close>

definition coefficients_sum_to_one :: "jsnum \<Rightarrow> jsnum \<Rightarrow> bool" where
  "coefficients_sum_to_one a f =
     (js_le (Fin 0) a \<and> js_le a (Fin 1) \<and> f = js_sub (Fin 1) a \<and> js_add a f = Fin 1)"

section \<open>Facts about rounding\<close>

lemma round_even_cases:
  "round_even y = \<lfloor>y\<rfloor> \<or> round_even y = \<lfloor>y\<rfloor> + 1"
  by (simp add: round_even_def Let_def)

lemma round_even_error: "\<bar>of_int (round_even y) - y\<bar> \<le> 1/2"
  unfolding round_even_def Let_def by (auto; linarith)

lemma round_even_nearest:
  assumes "\<bar>y - of_int n\<bar> < 1/2" shows "round_even y = n"
proof -
  have "\<bar>of_int (round_even y) - (of_int n :: real)\<bar> < 1"
    using round_even_error [of y] assms by linarith
  then have "\<bar>round_even y - n\<bar> < 1"
    by (metis of_int_diff of_int_abs of_int_less_1_iff)
  then show ?thesis by linarith
qed

lemma round_even_of_int [simp]: "round_even (of_int n) = n"
  by (rule round_even_nearest) simp

lemma round_even_zero [simp]: "round_even 0 = 0"
  using round_even_of_int [of 0] by simp

lemma round_even_tie:
  assumes "even n" "\<bar>y - of_int n\<bar> \<le> 1/2" shows "round_even y = n"
proof (cases "\<bar>y - of_int n\<bar> < 1/2")
  case True then show ?thesis by (rule round_even_nearest)
next
  case False
  then have "y = of_int n + 1/2 \<or> y = of_int n - 1/2" using assms(2) by linarith
  then show ?thesis
  proof
    assume y: "y = of_int n + 1/2"
    then have "\<lfloor>y\<rfloor> = n" by linarith
    then show ?thesis using y assms(1) by (simp add: round_even_def Let_def)
  next
    assume y: "y = of_int n - 1/2"
    then have f: "\<lfloor>y\<rfloor> = n - 1" by linarith
    then have "odd \<lfloor>y\<rfloor>" using assms(1) by simp
    then show ?thesis using y f by (simp add: round_even_def Let_def)
  qed
qed

lemma round_even_mono:
  assumes "x \<le> y" shows "round_even x \<le> round_even y"
proof (cases "\<lfloor>x\<rfloor> = \<lfloor>y\<rfloor>")
  case True
  then show ?thesis using assms unfolding round_even_def Let_def by (auto; linarith)
next
  case False
  then have "\<lfloor>x\<rfloor> < \<lfloor>y\<rfloor>" using assms floor_mono [of x y] by linarith
  then have "\<lfloor>x\<rfloor> + 1 \<le> \<lfloor>y\<rfloor>" by simp
  moreover have "round_even x \<le> \<lfloor>x\<rfloor> + 1" using round_even_cases [of x] by linarith
  moreover have "\<lfloor>y\<rfloor> \<le> round_even y" using round_even_cases [of y] by linarith
  ultimately show ?thesis by linarith
qed

lemma round_even_le: "y \<le> of_int n \<Longrightarrow> round_even y \<le> n"
  using round_even_mono [of y "of_int n"] by simp

lemma round_even_ge: "of_int n \<le> y \<Longrightarrow> n \<le> round_even y"
  using round_even_mono [of "of_int n" y] by simp

lemma floor_minus_nonint:
  assumes "y \<noteq> of_int \<lfloor>y\<rfloor>" shows "\<lfloor>- y\<rfloor> = - \<lfloor>y\<rfloor> - 1"
proof (rule floor_unique)
  have "y < of_int \<lfloor>y\<rfloor> + 1" by linarith
  then show "of_int (- \<lfloor>y\<rfloor> - 1) \<le> - y" by simp
  have "of_int \<lfloor>y\<rfloor> < y" using assms by linarith
  then show "- y < of_int (- \<lfloor>y\<rfloor> - 1) + 1" by simp
qed

lemma round_even_minus: "round_even (- y) = - round_even y"
proof (cases "y = of_int \<lfloor>y\<rfloor>")
  case True
  then have "round_even y = \<lfloor>y\<rfloor>"
    by (metis round_even_of_int)
  moreover have "round_even (- y) = - \<lfloor>y\<rfloor>"
    using True round_even_of_int [of "- \<lfloor>y\<rfloor>"] by simp
  ultimately show ?thesis by simp
next
  case False
  have fl: "\<lfloor>- y\<rfloor> = - \<lfloor>y\<rfloor> - 1" using False by (rule floor_minus_nonint)
  define d where "d = y - of_int \<lfloor>y\<rfloor>"
  have d: "0 < d" "d < 1" using False unfolding d_def by linarith+
  have nd: "- y - of_int (- \<lfloor>y\<rfloor> - 1) = 1 - d" by (simp add: d_def)
  show ?thesis
  proof (cases "d < 1/2")
    case True
    then show ?thesis unfolding round_even_def Let_def fl nd d_def [symmetric] by simp
  next
    case False
    note nl = this
    show ?thesis
    proof (cases "1/2 < d")
      case True
      then show ?thesis unfolding round_even_def Let_def fl nd d_def [symmetric] using nl by simp
    next
      case False
      then have "d = 1/2" using nl by simp
      then show ?thesis unfolding round_even_def Let_def fl nd d_def [symmetric] by simp
    qed
  qed
qed


lemma log2_bounds:
  assumes "x \<noteq> 0"
  shows "2 powi \<lfloor>log 2 \<bar>x\<bar>\<rfloor> \<le> \<bar>x\<bar>" and "\<bar>x\<bar> < 2 powi (\<lfloor>log 2 \<bar>x\<bar>\<rfloor> + 1)"
proof -
  have pos: "0 < \<bar>x\<bar>" using assms by simp
  have "2 powr of_int \<lfloor>log 2 \<bar>x\<bar>\<rfloor> \<le> \<bar>x\<bar> \<and> \<bar>x\<bar> < 2 powr (of_int \<lfloor>log 2 \<bar>x\<bar>\<rfloor> + 1)"
    using floor_log_eq_powr_iff [OF pos, of 2 "\<lfloor>log 2 \<bar>x\<bar>\<rfloor>"] by simp
  moreover have "(2::real) powr (of_int \<lfloor>log 2 \<bar>x\<bar>\<rfloor> + 1) = 2 powi (\<lfloor>log 2 \<bar>x\<bar>\<rfloor> + 1)"
    using powr_real_of_int' [of 2 "\<lfloor>log 2 \<bar>x\<bar>\<rfloor> + 1"] by simp
  moreover have "(2::real) powr of_int \<lfloor>log 2 \<bar>x\<bar>\<rfloor> = 2 powi \<lfloor>log 2 \<bar>x\<bar>\<rfloor>"
    using powr_real_of_int' [of 2 "\<lfloor>log 2 \<bar>x\<bar>\<rfloor>"] by simp
  ultimately show "2 powi \<lfloor>log 2 \<bar>x\<bar>\<rfloor> \<le> \<bar>x\<bar>" and "\<bar>x\<bar> < 2 powi (\<lfloor>log 2 \<bar>x\<bar>\<rfloor> + 1)"
    by simp_all
qed

lemma two_powi_less_iff: "(2::real) powi a < 2 powi b \<longleftrightarrow> a < b"
proof
  assume "(2::real) powi a < 2 powi b"
  then show "a < b"
    using power_int_increasing [of b a "2::real"] by (cases "a < b") auto
next
  assume "a < b"
  then show "(2::real) powi a < 2 powi b" by (intro power_int_strict_increasing) simp_all
qed

lemma two_powi_le_iff: "(2::real) powi a \<le> 2 powi b \<longleftrightarrow> a \<le> b"
  using two_powi_less_iff [of b a] by (simp add: not_less [symmetric])

lemma log2_floor_unique:
  assumes "2 powi k \<le> \<bar>x\<bar>" and "\<bar>x\<bar> < 2 powi (k + 1)"
  shows "\<lfloor>log 2 \<bar>x\<bar>\<rfloor> = k"
proof -
  have x: "x \<noteq> 0"
  proof
    assume "x = 0"
    then have "(2::real) powi k \<le> 0" using assms(1) by simp
    moreover have "0 < (2::real) powi k" by simp
    ultimately show False by linarith
  qed
  let ?j = "\<lfloor>log 2 \<bar>x\<bar>\<rfloor>"
  have "(2::real) powi ?j < 2 powi (k + 1)"
    using log2_bounds(1) [OF x] assms(2) by linarith
  then have a: "?j < k + 1" by (simp only: two_powi_less_iff)
  have "(2::real) powi k < 2 powi (?j + 1)"
    using log2_bounds(2) [OF x] assms(1) by linarith
  then have "k < ?j + 1" by (simp only: two_powi_less_iff)
  with a show ?thesis by linarith
qed

lemma expo_ge: "- 1074 \<le> expo x"
  by (simp add: expo_def)

lemma expo_minus [simp]: "expo (- x) = expo x"
  by (simp add: expo_def)

lemma expo_upper: "\<bar>x\<bar> < 2 powi (expo x + 53)"
proof (cases "x = 0")
  case True then show ?thesis by simp
next
  case False
  have "\<lfloor>log 2 \<bar>x\<bar>\<rfloor> + 1 \<le> expo x + 53" by (simp add: expo_def)
  then have "(2::real) powi (\<lfloor>log 2 \<bar>x\<bar>\<rfloor> + 1) \<le> 2 powi (expo x + 53)"
    by (simp only: two_powi_le_iff)
  then show ?thesis using log2_bounds(2) [OF False] by linarith
qed

lemma expo_lower:
  assumes "x \<noteq> 0" and "- 1074 < expo x"
  shows "2 powi (expo x + 52) \<le> \<bar>x\<bar>"
proof -
  have "expo x = \<lfloor>log 2 \<bar>x\<bar>\<rfloor> - 52" using assms(2) by (simp add: expo_def max_def split: if_splits)
  then have "expo x + 52 = \<lfloor>log 2 \<bar>x\<bar>\<rfloor>" by simp
  then show ?thesis using log2_bounds(1) [OF assms(1)] by simp
qed

lemma expo_le:
  assumes "x \<noteq> 0" and "\<bar>x\<bar> < 2 powi (j + 53)" and "- 1074 \<le> j"
  shows "expo x \<le> j"
proof -
  have "(2::real) powi \<lfloor>log 2 \<bar>x\<bar>\<rfloor> < 2 powi (j + 53)"
    using log2_bounds(1) [OF assms(1)] assms(2) by linarith
  then have "\<lfloor>log 2 \<bar>x\<bar>\<rfloor> < j + 53" by (simp only: two_powi_less_iff)
  then show ?thesis using assms(3) by (simp add: expo_def)
qed

lemma expo_mono:
  assumes "x \<noteq> 0" and "\<bar>x\<bar> \<le> \<bar>y\<bar>"
  shows "expo x \<le> expo y"
proof -
  have "\<bar>x\<bar> < 2 powi (expo y + 53)" using expo_upper [of y] assms(2) by linarith
  then show ?thesis using assms(1) expo_ge [of y] by (intro expo_le)  
qed

lemma to_double_zero [simp]: "to_double 0 = 0"
  by (simp add: to_double_def)

lemma to_double_minus: "to_double (- x) = - to_double x"
  by (simp add: to_double_def round_even_minus)

lemma to_double_error: "\<bar>to_double x - x\<bar> \<le> 2 powi expo x / 2"
proof -
  let ?p = "(2::real) powi expo x"
  have p: "0 < ?p" by simp
  have "to_double x - x = (of_int (round_even (x / ?p)) - x / ?p) * ?p"
    using p by (simp add: to_double_def field_simps)
  then have "\<bar>to_double x - x\<bar> = \<bar>of_int (round_even (x / ?p)) - x / ?p\<bar> * ?p"
    using p by (simp add: abs_mult)
  also have "\<dots> \<le> (1/2) * ?p"
    using round_even_error [of "x / ?p"] p by (intro mult_right_mono) simp_all
  finally show ?thesis by simp
qed

lemma to_double_rel_error: "\<bar>to_double x - x\<bar> \<le> \<bar>x\<bar> / 2 ^ 53 + 2 powi (- 1075)"
proof (cases "x = 0")
  case True then show ?thesis by simp
next
  case False
  show ?thesis
  proof (cases "expo x = - 1074")
    case True
    have "(2::real) powi (- 1074) / 2 = 2 powi (- 1075)"
      using power_int_diff [of "2::real" "- 1074" 1] by simp
    then have "\<bar>to_double x - x\<bar> \<le> 2 powi (- 1075)"
      using to_double_error [of x] True by simp
    then show ?thesis by (smt (verit) divide_nonneg_pos abs_ge_zero zero_less_power)
  next
    case False
    then have "- 1074 < expo x" using expo_ge [of x] by linarith
    then have lo: "2 powi (expo x + 52) \<le> \<bar>x\<bar>" using \<open>x \<noteq> 0\<close> by (intro expo_lower)
    have "(2::real) powi (expo x + 52) = 2 powi expo x * 2 ^ 52"
      using power_int_add [of "2::real" "expo x" 52] by simp
    then have "(2::real) powi expo x / 2 \<le> \<bar>x\<bar> / 2 ^ 53"
      using lo by (simp add: field_simps)
    moreover have "0 \<le> (2::real) powi (- 1075)" by simp
    ultimately show ?thesis using to_double_error [of x] by linarith
  qed
qed

lemma to_double_dyadic:
  assumes "\<bar>m\<bar> < 2 ^ 53" and "- 1074 \<le> e"
  shows "to_double (of_int m * 2 powi e) = of_int m * 2 powi e"
proof (cases "m = 0")
  case True then show ?thesis by simp
next
  case False
  let ?x = "of_int m * (2::real) powi e"
  have x: "?x \<noteq> 0" using False by simp
  have "\<bar>?x\<bar> = of_int \<bar>m\<bar> * 2 powi e" by (simp add: abs_mult)
  also have "\<dots> < 2 ^ 53 * 2 powi e"
  proof (intro mult_strict_right_mono)
    have "(of_int \<bar>m\<bar> :: real) < of_int (2 ^ 53)" using assms(1) by (simp only: of_int_less_iff)
    then show "(of_int \<bar>m\<bar> :: real) < 2 ^ 53" by simp
  qed simp
  also have "\<dots> = 2 powi (e + 53)"
    using power_int_add [of "2::real" e 53] by simp
  finally have le: "expo ?x \<le> e" using x assms(2) by (intro expo_le)
  define ex where "ex = expo ?x"
  obtain d where d: "e = ex + int d"
    using le unfolding ex_def [symmetric] by (metis zle_iff_zadd)
  have pw: "(2::real) powi e = 2 powi ex * 2 ^ d"
    unfolding d using power_int_add [of "2::real" ex "int d"] by simp
  have "?x / 2 powi ex = of_int (m * 2 ^ d)"
    unfolding pw by simp
  then have "round_even (?x / 2 powi ex) = m * 2 ^ d"
    by (simp only: round_even_of_int)
  then have "to_double ?x = of_int (m * 2 ^ d) * 2 powi ex"
    by (simp add: to_double_def ex_def)
  also have "\<dots> = ?x"
    unfolding pw by simp
  finally show ?thesis .
qed

lemma to_double_nonneg: 
  assumes "0 \<le> x" shows "0 \<le> to_double x"
proof -
  have "0 \<le> x / 2 powi expo x" using assms by simp
  then have "0 \<le> round_even (x / 2 powi expo x)"
    using round_even_ge [of 0] by simp
  then show ?thesis by (simp add: to_double_def)
qed

lemma to_double_mono_pos:
  assumes "0 < x" and "x \<le> y"
  shows "to_double x \<le> to_double y"
proof -
  have le: "expo x \<le> expo y" using assms by (intro expo_mono) simp_all
  show ?thesis
  proof (cases "expo x = expo y")
    case True
    have "x / 2 powi expo y \<le> y / 2 powi expo y"
      using assms(2) by (simp add: divide_right_mono)
    then have "round_even (x / 2 powi expo y) \<le> round_even (y / 2 powi expo y)"
      by (rule round_even_mono)
    then show ?thesis unfolding to_double_def True by (simp add: mult_right_mono)
  next
    case False
    then have lt: "expo x < expo y" using le by simp
    then have "- 1074 < expo y" using expo_ge [of x] by linarith
    moreover have "y \<noteq> 0" using assms by simp
    ultimately have ylo: "2 powi (expo y + 52) \<le> y"
      using expo_lower [of y] assms by simp
    have xhi: "x \<le> 2 powi (expo y + 52)"
    proof -
      have "expo x + 53 \<le> expo y + 52" using lt by simp
      then have "(2::real) powi (expo x + 53) \<le> 2 powi (expo y + 52)"
        by (simp only: two_powi_le_iff)
      then show ?thesis using expo_upper [of x] assms(1) by simp
    qed
    let ?b = "(2::real) powi (expo y + 52)"
    obtain d where d: "expo y + 52 = expo x + int d"
      using lt by (metis zle_iff_zadd add.commute add_increasing2 less_imp_le zero_le_numeral)
    have bx: "?b = of_int (2 ^ d) * 2 powi expo x"
      unfolding d using power_int_add [of "2::real" "expo x" "int d"] by simp
    have "x / 2 powi expo x \<le> of_int (2 ^ d)"
      using xhi unfolding bx by (simp add: field_simps)
    then have "round_even (x / 2 powi expo x) \<le> 2 ^ d"
      by (rule round_even_le)
    then have "of_int (round_even (x / 2 powi expo x)) \<le> (of_int (2 ^ d) :: real)"
      by (simp only: of_int_le_iff)
    then have a: "to_double x \<le> ?b"
      unfolding to_double_def bx by (intro mult_right_mono) simp_all
    have by': "?b = of_int (2 ^ 52) * 2 powi expo y"
      using power_int_add [of "2::real" "expo y" 52] by simp
    have "of_int (2 ^ 52) \<le> y / 2 powi expo y"
      using ylo unfolding by' by (simp add: field_simps)
    then have "2 ^ 52 \<le> round_even (y / 2 powi expo y)"
      by (rule round_even_ge)
    then have "(of_int (2 ^ 52) :: real) \<le> of_int (round_even (y / 2 powi expo y))"
      by (simp only: of_int_le_iff)
    then have b: "?b \<le> to_double y"
      unfolding to_double_def by' by (intro mult_right_mono) simp_all
    from a b show ?thesis by linarith
  qed
qed

lemma to_double_mono:
  assumes "x \<le> y" shows "to_double x \<le> to_double y"
proof -
  consider "0 < x" | "x \<le> 0" "0 \<le> y" | "y < 0" by linarith
  then show ?thesis
  proof cases
    case 1 then show ?thesis using assms by (intro to_double_mono_pos)
  next
    case 2
    have "to_double x \<le> 0" using to_double_nonneg [of "- x"] 2(1) by (simp add: to_double_minus)
    then show ?thesis using to_double_nonneg [OF 2(2)] by linarith
  next
    case 3
    have "to_double (- y) \<le> to_double (- x)" using assms 3 by (intro to_double_mono_pos) simp_all
    then show ?thesis by (simp add: to_double_minus)
  qed
qed

lemma expo_eqI:
  assumes "2 powi k \<le> \<bar>x\<bar>" and "\<bar>x\<bar> < 2 powi (k + 1)" and "- 1022 \<le> k"
  shows "expo x = k - 52"
  using log2_floor_unique [OF assms(1,2)] assms(3) by (simp add: expo_def)

lemma to_double_abs_le: "\<bar>to_double x\<bar> \<le> \<bar>x\<bar> + \<bar>x\<bar> / 2 ^ 53 + 2 powi (- 1075)"
  using to_double_rel_error [of x] by linarith

lemma tiny_le_one: "(2::real) powi (- 1075) \<le> 1"
  using power_int_increasing [of "- 1075" 0 "2::real"] by simp

lemma js_round_finite:
  assumes "\<bar>x\<bar> \<le> 3 * 2 ^ 1022"
  shows "js_round x = Fin (to_double x)"
proof -
  define M :: real where "M = 2 ^ 1022"
  have M: "8 \<le> M" unfolding M_def using power_increasing [of 2 1022 "2::real"] by simp
  have x: "\<bar>x\<bar> \<le> 3 * M" using assms by (simp add: M_def)
  have "\<bar>x\<bar> / 2 ^ 53 \<le> \<bar>x\<bar> / 4"
    by (intro divide_left_mono) simp_all
  then have "\<bar>to_double x\<bar> \<le> \<bar>x\<bar> + \<bar>x\<bar> / 4 + 1"
    using to_double_abs_le [of x] tiny_le_one by linarith
  also have "\<dots> < 4 * M" using x M by linarith
  also have "4 * M = 2 ^ 1024" by (simp add: M_def)
  finally show ?thesis by (simp add: js_round_def Let_def)
qed

lemma js_round_dyadic:
  assumes "\<bar>m\<bar> < 2 ^ 53" and "- 1074 \<le> e" and "e \<le> 969"
  shows "js_round (of_int m * 2 powi e) = Fin (of_int m * 2 powi e)"
proof -
  have "\<bar>of_int m * (2::real) powi e\<bar> = of_int \<bar>m\<bar> * 2 powi e" by (simp add: abs_mult)
  also have "\<dots> \<le> 2 ^ 53 * 2 powi e"
  proof (intro mult_right_mono)
    have "\<bar>m\<bar> \<le> 2 ^ 53" using assms(1) by simp
    then have "(of_int \<bar>m\<bar> :: real) \<le> of_int (2 ^ 53)" by (simp only: of_int_le_iff)
    then show "(of_int \<bar>m\<bar> :: real) \<le> 2 ^ 53" by simp
  qed simp
  also have "\<dots> \<le> 2 ^ 53 * 2 powi 969"
  proof (intro mult_left_mono)
    show "(2::real) powi e \<le> 2 powi 969" using assms(3) by (simp only: two_powi_le_iff)
  qed simp
  also have "\<dots> = 2 ^ 1022" by simp
  finally have "\<bar>of_int m * (2::real) powi e\<bar> \<le> 3 * 2 ^ 1022" by simp
  then show ?thesis using to_double_dyadic [OF assms(1,2)] by (simp add: js_round_finite)
qed

lemma to_double_one [simp]: "to_double 1 = 1"
  using to_double_dyadic [of 1 0] by simp

lemma round_even_bound: "\<bar>round_even (x / 2 powi expo x)\<bar> \<le> 2 ^ 53"
proof -
  have "\<bar>x / 2 powi expo x\<bar> < 2 ^ 53"
  proof -
    have "(2::real) powi (expo x + 53) = 2 powi expo x * 2 ^ 53"
      using power_int_add [of "2::real" "expo x" 53] by simp
    then have "\<bar>x\<bar> < 2 powi expo x * 2 ^ 53" using expo_upper [of x] by simp
    then show ?thesis by (simp add: field_simps)
  qed
  then have "x / 2 powi expo x < 2 ^ 53" "- (2 ^ 53) < x / 2 powi expo x"
    by (simp_all only: abs_less_iff) simp
  then have a: "x / 2 powi expo x \<le> of_int (2 ^ 53)"
    and b: "of_int (- (2 ^ 53)) \<le> x / 2 powi expo x"
    by simp_all
  have "round_even (x / 2 powi expo x) \<le> 2 ^ 53"
    using a by (rule round_even_le)
  moreover have "- (2 ^ 53) \<le> round_even (x / 2 powi expo x)"
    using b by (rule round_even_ge)
  ultimately show ?thesis by linarith
qed

lemma to_double_idem [simp]: "to_double (to_double x) = to_double x"
proof -
  define n where "n = round_even (x / 2 powi expo x)"
  define e where "e = expo x"
  have td: "to_double x = of_int n * 2 powi e" by (simp add: to_double_def n_def e_def)
  have n: "\<bar>n\<bar> \<le> 2 ^ 53" unfolding n_def by (rule round_even_bound)
  have e: "- 1074 \<le> e" unfolding e_def by (rule expo_ge)
  show ?thesis
  proof (cases "\<bar>n\<bar> < 2 ^ 53")
    case True
    then show ?thesis unfolding td using e by (rule to_double_dyadic)
  next
    case False
    then have "\<bar>n\<bar> = 2 ^ 53" using n by linarith
    then have "n = 2 ^ 53 \<or> n = - (2 ^ 53)" by linarith
    then have "of_int n * (2::real) powi e = of_int (n div 2) * 2 powi (e + 1)"
      using power_int_add [of "2::real" e 1] by auto
    moreover have "\<bar>n div 2\<bar> < 2 ^ 53" using \<open>n = 2 ^ 53 \<or> n = - (2 ^ 53)\<close> by auto
    moreover have "- 1074 \<le> e + 1" using e by simp
    ultimately show ?thesis unfolding td using to_double_dyadic [of "n div 2" "e + 1"] by simp
  qed
qed

lemma to_double_unit:
  assumes "0 \<le> x" and "x \<le> 1"
  shows "0 \<le> to_double x" and "to_double x \<le> 1"
  using to_double_mono [OF assms(1)] to_double_mono [OF assms(2)] by simp_all

lemma to_double_unit_error:
  assumes "0 \<le> x" and "x \<le> 1"
  shows "\<bar>to_double x - x\<bar> \<le> 1 / 2 ^ 54"
proof -
  consider "x = 0" | "x = 1" | "0 < x" "x < 1" using assms by linarith
  then show ?thesis
  proof cases
    case 3
    have "expo x \<le> - 53" using 3 by (intro expo_le) simp_all
    then have "(2::real) powi expo x \<le> 2 powi (- 53)" by (simp only: two_powi_le_iff)
    then have "(2::real) powi expo x / 2 \<le> 1 / 2 ^ 54" by (simp add: power_int_minus field_simps)
    then show ?thesis using to_double_error [of x] by linarith
  qed simp_all
qed

lemma to_double_above_one:
  assumes "1 \<le> w" and "w \<le> 1 + 1 / 2 ^ 53"
  shows "to_double w = 1"
proof -
  have "expo w = 0 - 52" using assms by (intro expo_eqI) simp_all
  then have e: "expo w = - 52" by simp
  have q: "w / 2 powi (- 52) = w * 2 ^ 52" by (simp add: power_int_minus field_simps)
  have "\<bar>w * 2 ^ 52 - of_int (2 ^ 52)\<bar> \<le> 1/2" using assms by (simp add: field_simps)
  then have "round_even (w * 2 ^ 52) = 2 ^ 52" by (intro round_even_tie) simp_all
  then show ?thesis by (simp add: to_double_def e q power_int_minus)
qed

lemma to_double_below_one:
  assumes "1 - 1 / 2 ^ 54 \<le> w" and "w < 1"
  shows "to_double w = 1"
proof -
  have "expo w = - 1 - 52" using assms by (intro expo_eqI) (simp_all add: power_int_minus)
  then have e: "expo w = - 53" by simp
  have q: "w / 2 powi (- 53) = w * 2 ^ 53" by (simp add: power_int_minus field_simps)
  have "\<bar>w * 2 ^ 53 - of_int (2 ^ 53)\<bar> \<le> 1/2" using assms by (simp add: field_simps)
  then have "round_even (w * 2 ^ 53) = 2 ^ 53" by (intro round_even_tie) simp_all
  then show ?thesis by (simp add: to_double_def e q power_int_minus)
qed

lemma to_double_near_one:
  assumes "\<bar>w - 1\<bar> \<le> 1 / 2 ^ 54"
  shows "to_double w = 1"
proof (cases "1 \<le> w")
  case True
  have "(1::real) / 2 ^ 54 \<le> 1 / 2 ^ 53" by simp
  then show ?thesis using True assms by (intro to_double_above_one) linarith+
next
  case False
  then show ?thesis using assms by (intro to_double_below_one) linarith+
qed

lemma to_double_sum_to_one:
  assumes "0 \<le> a" and "a \<le> 1"
  shows "to_double (a + to_double (1 - a)) = 1"
proof -
  have "\<bar>to_double (1 - a) - (1 - a)\<bar> \<le> 1 / 2 ^ 54"
    using assms by (intro to_double_unit_error) simp_all
  then show ?thesis by (intro to_double_near_one) linarith
qed

text \<open>The error of one rounding, against a bound on the magnitude, and the sign of the
  rounded value.\<close>

lemma to_double_bounded_error:
  assumes "\<bar>z\<bar> \<le> M" and "1 / 2 ^ 1022 \<le> M"
  shows "\<bar>to_double z - z\<bar> \<le> M / 2 ^ 53"
proof (cases "z = 0")
  case True
  have "0 \<le> M" using assms(1) by linarith
  then show ?thesis using True by simp
next
  case False
  show ?thesis
  proof (cases "expo z = - 1074")
    case True
    have "(2::real) powi (- 1074) / 2 = 1 / 2 ^ 1022 / 2 ^ 53"
      by (simp add: power_int_minus field_simps)
    then have "\<bar>to_double z - z\<bar> \<le> 1 / 2 ^ 1022 / 2 ^ 53"
      using to_double_error [of z] True by simp
    also have "\<dots> \<le> M / 2 ^ 53" using assms(2) by (intro divide_right_mono) simp_all
    finally show ?thesis .
  next
    case False
    then have "- 1074 < expo z" using expo_ge [of z] by linarith
    then have lo: "2 powi (expo z + 52) \<le> \<bar>z\<bar>" using \<open>z \<noteq> 0\<close> by (intro expo_lower)
    have "(2::real) powi (expo z + 52) = 2 powi expo z * 2 ^ 52"
      using power_int_add [of "2::real" "expo z" 52] by simp
    then have "(2::real) powi expo z / 2 \<le> \<bar>z\<bar> / 2 ^ 53"
      using lo by (simp add: field_simps)
    also have "\<dots> \<le> M / 2 ^ 53" using assms(1) by (intro divide_right_mono) simp_all
    finally show ?thesis using to_double_error [of z] by linarith
  qed
qed

lemma to_double_sign: "0 \<le> to_double w * w"
proof (cases "0 \<le> w")
  case True
  then show ?thesis using to_double_nonneg [of w] by simp
next
  case False
  then have "0 \<le> to_double (- w)" by (intro to_double_nonneg) simp
  then have "to_double w \<le> 0" by (simp add: to_double_minus)
  then show ?thesis using False by (simp add: mult_nonpos_nonpos)
qed

section \<open>Facts about the number model\<close>

lemma js_lt_irrefl [simp]: "\<not> js_lt a a"
  by (cases a) simp_all

lemma js_le_Fin [simp]: "js_le (Fin x) (Fin y) = (x \<le> y)"
  by (auto simp: js_le_def js_eq_def)

lemma js_le_NaN [simp]: "\<not> js_le NaN b" "\<not> js_le a NaN"
  by (cases a; simp add: js_le_def js_eq_def)+

lemma js_min_Fin: "js_min (Fin x) (Fin y) = Fin (min x y)"
  by (auto simp: js_min_def)

lemma js_max_Fin: "js_max (Fin x) (Fin y) = Fin (max x y)"
  by (auto simp: js_max_def)

lemma js_sub_Fin: "js_sub (Fin x) (Fin y) = js_round (x - y)"
  by (simp add: js_sub_def)

lemma js_add_NaN: "js_add a NaN = NaN" "js_add NaN a = NaN"
  by (cases a; simp)+

lemma js_max_zero_eq_one: "js_eq (js_max (Fin 0) b) (Fin 1) \<longleftrightarrow> b = Fin 1"
  by (cases b) (auto simp: js_max_def js_eq_def)

lemma clamped_coefficient_cases:
  "clamped_coefficient h f r = NaN \<and> h f r = NaN
   \<or> (\<exists>a. clamped_coefficient h f r = Fin a \<and> 0 \<le> a \<and> a \<le> 1 \<and> h f r \<noteq> NaN)"
  by (cases "h f r") (auto simp: clamped_coefficient_def js_max_def js_min_def)

text \<open>Values that round to themselves: small integers and a few fractions.\<close>

lemma js_round_zero [simp]: "js_round 0 = Fin 0"
  by (simp add: js_round_def)

lemma js_round_one [simp]: "js_round 1 = Fin 1"
  using js_round_dyadic [of 1 0] by simp

lemma js_round_numeral:
  "numeral k < (2::int) ^ 53 \<Longrightarrow> js_round (numeral k) = Fin (numeral k)"
  using js_round_dyadic [of "numeral k" 0] by simp

lemma js_round_neg_numeral:
  "numeral k < (2::int) ^ 53 \<Longrightarrow> js_round (- numeral k) = Fin (- numeral k)"
  using js_round_dyadic [of "- numeral k" 0] by simp

lemma js_round_fractions:
  "js_round (1/2) = Fin (1/2)"
  "js_round (1/4) = Fin (1/4)"
  "js_round (3/4) = Fin (3/4)"
  "js_round (3/2) = Fin (3/2)"
  "js_round (1/8) = Fin (1/8)"
  "js_round (3/8) = Fin (3/8)"
  "js_round (5/8) = Fin (5/8)"
  "js_round (5/4) = Fin (5/4)"
  using js_round_dyadic [of 1 "- 1"] js_round_dyadic [of 1 "- 2"] js_round_dyadic [of 3 "- 2"]
    js_round_dyadic [of 3 "- 1"] js_round_dyadic [of 1 "- 3"] js_round_dyadic [of 3 "- 3"]
    js_round_dyadic [of 5 "- 3"] js_round_dyadic [of 5 "- 2"]
  by (simp_all add: power_int_minus)

lemmas js_round_values = js_round_numeral js_round_neg_numeral js_round_fractions

text \<open>The feedback coefficient \<open>1 - a\<close> is rounded, and still the two coefficients add
  up to exactly 1: the rounding error of \<open>1 - a\<close> is at most half a unit in the last
  place of 1, which the rounding of the sum takes back.\<close>

lemma js_one_minus:
  assumes "0 \<le> a" and "a \<le> 1"
  shows "js_sub (Fin 1) (Fin a) = Fin (to_double (1 - a))"
    and "js_add (Fin a) (Fin (to_double (1 - a))) = Fin 1"
proof -
  show "js_sub (Fin 1) (Fin a) = Fin (to_double (1 - a))"
    using assms by (simp add: js_sub_Fin js_round_finite)
  have "\<bar>a + to_double (1 - a)\<bar> \<le> 2"
    using assms to_double_unit [of "1 - a"] by simp
  then have "js_round (a + to_double (1 - a)) = Fin (to_double (a + to_double (1 - a)))"
    by (intro js_round_finite) simp
  then show "js_add (Fin a) (Fin (to_double (1 - a))) = Fin 1"
    using to_double_sum_to_one [OF assms] by simp
qed

lemma coefficients_of_clamped:
  "h f r \<noteq> NaN \<Longrightarrow>
     coefficients_sum_to_one (clamped_coefficient h f r)
       (js_sub (Fin 1) (clamped_coefficient h f r))"
proof -
  assume "h f r \<noteq> NaN"
  then obtain a where a: "clamped_coefficient h f r = Fin a" "0 \<le> a" "a \<le> 1"
    using clamped_coefficient_cases [of h f r] by auto
  show ?thesis
    unfolding coefficients_sum_to_one_def a(1) js_one_minus(1) [OF a(2,3)]
      js_one_minus(2) [OF a(2,3)]
    using a(2,3) by simp
qed

section \<open>The coefficients of every instance are derived\<close>

lemma Lowpass_init_fields [simp]:
  "lp_sampleRate (Lowpass_init h s) = lp_sampleRate s"
  "lp_lowpassFrequency (Lowpass_init h s) = lp_lowpassFrequency s"
  "lp_outputValueLast (Lowpass_init h s) = lp_outputValueLast s"
  "lp_inputScale (Lowpass_init h s) =
     clamped_coefficient h (lp_lowpassFrequency s) (lp_sampleRate s)"
  "lp_feedbackScale (Lowpass_init h s) =
     js_sub (Fin 1) (clamped_coefficient h (lp_lowpassFrequency s) (lp_sampleRate s))"
  by (simp_all add: Lowpass_init_def Let_def)

lemma Hysteresis_init_fields [simp]:
  "hy_sampleRate (Hysteresis_init h s) = hy_sampleRate s"
  "hy_lowpassFrequencyUp (Hysteresis_init h s) = hy_lowpassFrequencyUp s"
  "hy_lowpassFrequencyDown (Hysteresis_init h s) = hy_lowpassFrequencyDown s"
  "hy_outputValueLast (Hysteresis_init h s) = hy_outputValueLast s"
  "inputScale (hy_up (Hysteresis_init h s)) =
     clamped_coefficient h (hy_lowpassFrequencyUp s) (hy_sampleRate s)"
  "feedbackScale (hy_up (Hysteresis_init h s)) =
     js_sub (Fin 1) (clamped_coefficient h (hy_lowpassFrequencyUp s) (hy_sampleRate s))"
  "inputScale (hy_down (Hysteresis_init h s)) =
     clamped_coefficient h (hy_lowpassFrequencyDown s) (hy_sampleRate s)"
  "feedbackScale (hy_down (Hysteresis_init h s)) =
     js_sub (Fin 1) (clamped_coefficient h (hy_lowpassFrequencyDown s) (hy_sampleRate s))"
  by (simp_all add: Hysteresis_init_def Let_def)

lemma Lowpass_derived_init: "Lowpass_derived h (Lowpass_init h s)"
  by (simp add: Lowpass_derived_def)

lemma Lowpass_derived_step: "Lowpass_derived h s \<Longrightarrow> Lowpass_derived h (Lowpass_step h s c)"
  by (cases c)
     (simp_all add: Lowpass_derived_init Lowpass_set_def Lowpass_process_def Let_def
        Lowpass_reset_def Lowpass_derived_def)

lemma Lowpass_derived_instance: "Lowpass_derived h (Lowpass_instance h opts calls)"
  unfolding Lowpass_instance_def
  by (induction calls rule: rev_induct)
     (simp_all add: Lowpass_new_def Lowpass_derived_init Lowpass_derived_step)

lemma Hysteresis_derived_init: "Hysteresis_derived h (Hysteresis_init h s)"
  by (simp add: Hysteresis_derived_def)

lemma Hysteresis_derived_step:
  "Hysteresis_derived h s \<Longrightarrow> Hysteresis_derived h (Hysteresis_step h s c)"
  by (cases c)
     (simp_all add: Hysteresis_derived_init Hysteresis_set_def Hysteresis_process_def Let_def
        Hysteresis_reset_def Hysteresis_derived_def)

lemma Hysteresis_derived_instance: "Hysteresis_derived h (Hysteresis_instance h opts calls)"
  unfolding Hysteresis_instance_def
  by (induction calls rule: rev_induct)
     (simp_all add: Hysteresis_new_def Hysteresis_derived_init Hysteresis_derived_step)

section \<open>Rounding a given number\<close>

text \<open>To round \<open>x\<close> by hand: find its binade, divide by the unit in the last place, and
  name the integer \<open>n\<close> next to the quotient (the even one when the quotient is half way
  between two).\<close>

lemma to_double_evalI:
  assumes "2 powi k \<le> \<bar>x\<bar>" and "\<bar>x\<bar> < 2 powi (k + 1)" and "- 1022 \<le> k"
    and "\<bar>x / 2 powi (k - 52) - of_int n\<bar> < 1/2
         \<or> even n \<and> \<bar>x / 2 powi (k - 52) - of_int n\<bar> \<le> 1/2"
  shows "to_double x = of_int n * 2 powi (k - 52)"
proof -
  have e: "expo x = k - 52" using assms(1-3) by (rule expo_eqI)
  have "round_even (x / 2 powi (k - 52)) = n"
    using assms(4) round_even_nearest round_even_tie by blast
  then show ?thesis by (simp add: to_double_def e)
qed

lemma to_double_eval_subnormalI:
  assumes "x \<noteq> 0" and "\<bar>x\<bar> < 2 powi (- 1022)"
    and "\<bar>x / 2 powi (- 1074) - of_int n\<bar> < 1/2
         \<or> even n \<and> \<bar>x / 2 powi (- 1074) - of_int n\<bar> \<le> 1/2"
  shows "to_double x = of_int n * 2 powi (- 1074)"
proof -
  have "(2::real) powi (- 1022) \<le> 2 powi (- 1074 + 53)" by (simp only: two_powi_le_iff)
  then have "\<bar>x\<bar> < 2 powi (- 1074 + 53)" using assms(2) by linarith
  then have "expo x \<le> - 1074" using assms(1) by (intro expo_le) simp_all
  then have e: "expo x = - 1074" using expo_ge [of x] by linarith
  have "round_even (x / 2 powi (- 1074)) = n"
    using assms(3) round_even_nearest round_even_tie by blast
  then show ?thesis by (simp add: to_double_def e)
qed

lemma js_round_double: "is_double x \<Longrightarrow> js_round x = Fin x"
  by (simp add: is_double_def js_round_def Let_def)

lemma is_double_dyadic:
  assumes "\<bar>m\<bar> < 2 ^ 53" and "- 1074 \<le> e" and "e \<le> 969"
  shows "is_double (of_int m * 2 powi e)"
proof -
  have "js_round (of_int m * 2 powi e) = Fin (of_int m * 2 powi e)"
    using assms by (rule js_round_dyadic)
  then have "\<bar>of_int m * (2::real) powi e\<bar> < 2 ^ 1024"
    by (simp add: js_round_def Let_def split: if_splits)
  then show ?thesis using to_double_dyadic [OF assms(1,2)] by (simp add: is_double_def)
qed

lemma js_round_evalI: "to_double x = r \<Longrightarrow> \<bar>x\<bar> \<le> 3 * 2 ^ 1022 \<Longrightarrow> js_round x = Fin r"
  by (simp add: js_round_finite)

lemma is_double_numeral: "numeral k < (2::int) ^ 53 \<Longrightarrow> is_double (numeral k)"
  using is_double_dyadic [of "numeral k" 0] by simp

section \<open>Clipper: the clamp\<close>

text \<open>
  C6. For every Clipper and every input \<open>x\<close>, \<open>process(x)\<close> is
  \<open>min(max, max(min, x))\<close>. When \<open>min \<le> max\<close> and \<open>x\<close> is finite the result lies in
  \<open>[min, max]\<close>, and when \<open>min \<le> x \<le> max\<close> the result is \<open>x\<close>. The comparisons are
  JavaScript's, so a bound that is \<open>NaN\<close> satisfies neither hypothesis.
\<close>

theorem Clipper_process_clamp:
  "Clipper_process c x = js_min (cl_max c) (js_max (cl_min c) x)
   \<and> (js_le (cl_min c) (cl_max c) \<and> is_finite x \<longrightarrow>
        js_le (cl_min c) (Clipper_process c x) \<and> js_le (Clipper_process c x) (cl_max c))
   \<and> (js_le (cl_min c) x \<and> js_le x (cl_max c) \<longrightarrow> Clipper_process c x = x)"
  by (cases "cl_min c"; cases "cl_max c"; cases x)
     (auto simp: Clipper_process_def js_min_def js_max_def js_le_def js_eq_def)

text \<open>The clipper to \<open>[0, 1]\<close> of the source's first example: 2 is clipped to 1 and
  0.5 passes.\<close>

theorem Clipper_process_clamp_witness:
  "js_le (Fin 0) (Fin 1) \<and> is_finite (Fin 2)
   \<and> Clipper_process
        (Clipper_new \<lparr> cl_opt_min = Some (Fin 0), cl_opt_max = Some (Fin 1) \<rparr>) (Fin 2) = Fin 1
   \<and> Clipper_process
        (Clipper_new \<lparr> cl_opt_min = Some (Fin 0), cl_opt_max = Some (Fin 1) \<rparr>) (Fin (1/2))
       = Fin (1/2)"
  using
    Clipper_process_clamp
      [of "Clipper_new \<lparr> cl_opt_min = Some (Fin 0), cl_opt_max = Some (Fin 1) \<rparr>" "Fin 2"]
    Clipper_process_clamp
      [of "Clipper_new \<lparr> cl_opt_min = Some (Fin 0), cl_opt_max = Some (Fin 1) \<rparr>" "Fin (1/2)"]
  by (simp add: Clipper_new_def js_min_def js_max_def)

text \<open>
  C9, as stated, fails at one input. With \<open>min = 1\<close> and \<open>max = 0\<close>, \<open>process(NaN)\<close>
  is \<open>NaN\<close> and not \<open>max\<close>: \<open>Math.max(1, NaN)\<close> is \<open>NaN\<close>, and so is
  \<open>Math.min(0, NaN)\<close>.
\<close>

theorem Clipper_inverted_NaN:
  "js_gt (cl_min (Clipper_new \<lparr> cl_opt_min = Some (Fin 1), cl_opt_max = Some (Fin 0) \<rparr>))
         (cl_max (Clipper_new \<lparr> cl_opt_min = Some (Fin 1), cl_opt_max = Some (Fin 0) \<rparr>))
   \<and> Clipper_process
        (Clipper_new \<lparr> cl_opt_min = Some (Fin 1), cl_opt_max = Some (Fin 0) \<rparr>) NaN = NaN
   \<and> Clipper_process
        (Clipper_new \<lparr> cl_opt_min = Some (Fin 1), cl_opt_max = Some (Fin 0) \<rparr>) NaN
       \<noteq> cl_max (Clipper_new \<lparr> cl_opt_min = Some (Fin 1), cl_opt_max = Some (Fin 0) \<rparr>)"
  by (simp add: Clipper_new_def Clipper_process_def js_min_def js_max_def js_gt_def)

text \<open>
  C9, amended. For every Clipper with \<open>min > max\<close> and every input \<open>x\<close> other than
  \<open>NaN\<close>, the infinities included, \<open>process(x)\<close> returns \<open>max\<close>.
\<close>

theorem Clipper_inverted:
  "js_gt (cl_min c) (cl_max c) \<Longrightarrow> x \<noteq> NaN \<Longrightarrow> Clipper_process c x = cl_max c"
  by (cases "cl_min c"; cases "cl_max c"; cases x)
     (auto simp: Clipper_process_def js_min_def js_max_def js_gt_def)

theorem Clipper_inverted_witness:
  "js_gt (Fin 1) (Fin 0) \<and> PosInf \<noteq> NaN
   \<and> Clipper_process
        (Clipper_new \<lparr> cl_opt_min = Some (Fin 1), cl_opt_max = Some (Fin 0) \<rparr>) PosInf = Fin 0"
  using Clipper_inverted
      [of "Clipper_new \<lparr> cl_opt_min = Some (Fin 1), cl_opt_max = Some (Fin 0) \<rparr>" PosInf]
  by (simp add: Clipper_new_def js_gt_def)

section \<open>Hysteresis: the direction\<close>

text \<open>
  C2. For a Hysteresis in the running state, where \<open>outputValueLast\<close> holds the
  previous output \<open>prev\<close>, and every input \<open>x\<close>: the direction is \<open>up\<close> exactly when
  \<open>x > prev\<close>, and \<open>down\<close> otherwise, in particular when \<open>x \<le> prev\<close>; the pair
  used is \<open>this.up\<close> or \<open>this.down\<close> accordingly; the output is
  \<open>x * inputScale + prev * feedbackScale\<close> with the coefficients of that pair, the
  feedback being computed from \<open>prev\<close> at the call; and the output becomes the new
  \<open>outputValueLast\<close>.
\<close>

theorem Hysteresis_direction_running:
  "hy_outputValueLast s = Some prev \<Longrightarrow>
     (Hysteresis_direction s x = Up \<longleftrightarrow> js_gt x prev)
     \<and> (Hysteresis_direction s x = Down \<longleftrightarrow> \<not> js_gt x prev)
     \<and> (js_le x prev \<longrightarrow> Hysteresis_direction s x = Down)
     \<and> Hysteresis_pair s (Hysteresis_direction s x)
         = (if js_gt x prev then hy_up s else hy_down s)
     \<and> fst (Hysteresis_process s x) =
         js_add (js_mul x (inputScale (Hysteresis_pair s (Hysteresis_direction s x))))
                (js_mul prev (feedbackScale (Hysteresis_pair s (Hysteresis_direction s x))))
     \<and> hy_outputValueLast (snd (Hysteresis_process s x)) = Some (fst (Hysteresis_process s x))"
  by (cases x; cases prev)
     (auto simp: Hysteresis_direction_def Hysteresis_last_def Hysteresis_process_def Let_def
        js_gt_def js_le_def js_eq_def)

text \<open>The source's example, with the coefficients 0.75 up and 0.25 down: after \<open>process(0)\<close> the
  input 1 goes up and gives 0.75; an input equal to the last output goes down.\<close>

theorem Hysteresis_direction_running_witness:
  "hy_outputValueLast
     (Hysteresis_instance hertzToNormalised
        \<lparr> hy_opt_sampleRate = Some (Fin 2), hy_opt_lowpassFrequencyUp = Some (Fin (3/4)),
          hy_opt_lowpassFrequencyDown = Some (Fin (1/4)) \<rparr> [HyProcess (Fin 0)]) = Some (Fin 0)
   \<and> fst (Hysteresis_process
        (Hysteresis_instance hertzToNormalised
           \<lparr> hy_opt_sampleRate = Some (Fin 2), hy_opt_lowpassFrequencyUp = Some (Fin (3/4)),
             hy_opt_lowpassFrequencyDown = Some (Fin (1/4)) \<rparr> [HyProcess (Fin 0)]) (Fin 1))
       = Fin (3/4)
   \<and> Hysteresis_direction
        (Hysteresis_instance hertzToNormalised
           \<lparr> hy_opt_sampleRate = Some (Fin 2), hy_opt_lowpassFrequencyUp = Some (Fin (3/4)),
             hy_opt_lowpassFrequencyDown = Some (Fin (1/4)) \<rparr> [HyProcess (Fin 0)]) (Fin 1) = Up
   \<and> Hysteresis_direction
        (Hysteresis_instance hertzToNormalised
           \<lparr> hy_opt_sampleRate = Some (Fin 2), hy_opt_lowpassFrequencyUp = Some (Fin (3/4)),
             hy_opt_lowpassFrequencyDown = Some (Fin (1/4)) \<rparr> [HyProcess (Fin 0)]) (Fin 0) = Down"
proof -
  let ?s = "Hysteresis_instance hertzToNormalised
        \<lparr> hy_opt_sampleRate = Some (Fin 2), hy_opt_lowpassFrequencyUp = Some (Fin (3/4)),
          hy_opt_lowpassFrequencyDown = Some (Fin (1/4)) \<rparr> [HyProcess (Fin 0)]"
  have last: "hy_outputValueLast ?s = Some (Fin 0)"
    by (simp add: Hysteresis_instance_def Hysteresis_new_def Hysteresis_process_def
        Hysteresis_last_def Hysteresis_direction_def js_gt_def Let_def Hysteresis_init_def
        hertzToNormalised_def clamped_coefficient_def js_max_def js_min_def js_sub_def
        js_round_values)
  have up: "hy_up ?s = \<lparr> inputScale = Fin (3/4), feedbackScale = Fin (1/4) \<rparr>"
    by (simp add: Hysteresis_instance_def Hysteresis_new_def Hysteresis_process_def
        Let_def Hysteresis_init_def
        hertzToNormalised_def clamped_coefficient_def js_max_def js_min_def js_sub_def
        js_round_values)
  show ?thesis
    using last up Hysteresis_direction_running [OF last, of "Fin 1"]
      Hysteresis_direction_running [OF last, of "Fin 0"]
    by (simp add: js_gt_def js_round_values)
qed

section \<open>Scaler: a range of width zero\<close>

text \<open>
  C3. For every Scaler whose \<open>inputRange\<close> is 0 or whose \<open>outputRange\<close> is 0, and every
  input, \<open>process\<close> returns \<open>outputStart\<close> when the input is \<open>\<le> inputMin\<close> and
  \<open>outputEnd\<close> otherwise. At \<open>-Infinity\<close> that is \<open>outputStart\<close> (unless \<open>inputMin\<close>
  is \<open>NaN\<close>, which no comparison satisfies), at \<open>+Infinity\<close> it is \<open>outputEnd\<close>
  (unless \<open>inputMin\<close> is \<open>+Infinity\<close> itself). No division is performed on this path.
\<close>

theorem Scaler_degenerate_step:
  "Scaler_degenerate s \<Longrightarrow>
     Scaler_process s x = (if js_le x (sc_inputMin s) then sc_outputStart s else sc_outputEnd s)
     \<and> Scaler_process s NegInf
         = (if sc_inputMin s = NaN then sc_outputEnd s else sc_outputStart s)
     \<and> Scaler_process s PosInf
         = (if sc_inputMin s = PosInf then sc_outputStart s else sc_outputEnd s)
     \<and> Scaler_divisors s = []"
  by (cases "sc_inputMin s")
     (auto simp: Scaler_process_def Scaler_divisors_def js_le_def js_eq_def)

text \<open>A Scaler from the point 3 to the interval \<open>[10, 20]\<close>.\<close>

theorem Scaler_degenerate_step_witness:
  "Scaler_degenerate
     (Scaler_new \<lparr> sc_opt_inputStart = Some (Fin 3), sc_opt_inputEnd = Some (Fin 3),
        sc_opt_outputStart = Some (Fin 10), sc_opt_outputEnd = Some (Fin 20),
        sc_opt_clip = None, sc_opt_type = None, sc_opt_base = None \<rparr>)
   \<and> Scaler_process
       (Scaler_new \<lparr> sc_opt_inputStart = Some (Fin 3), sc_opt_inputEnd = Some (Fin 3),
          sc_opt_outputStart = Some (Fin 10), sc_opt_outputEnd = Some (Fin 20),
          sc_opt_clip = None, sc_opt_type = None, sc_opt_base = None \<rparr>) (Fin 3) = Fin 10
   \<and> Scaler_process
       (Scaler_new \<lparr> sc_opt_inputStart = Some (Fin 3), sc_opt_inputEnd = Some (Fin 3),
          sc_opt_outputStart = Some (Fin 10), sc_opt_outputEnd = Some (Fin 20),
          sc_opt_clip = None, sc_opt_type = None, sc_opt_base = None \<rparr>) PosInf = Fin 20
   \<and> Scaler_process
       (Scaler_new \<lparr> sc_opt_inputStart = Some (Fin 3), sc_opt_inputEnd = Some (Fin 3),
          sc_opt_outputStart = Some (Fin 10), sc_opt_outputEnd = Some (Fin 20),
          sc_opt_clip = None, sc_opt_type = None, sc_opt_base = None \<rparr>) NegInf = Fin 10"
proof -
  let ?s = "Scaler_new \<lparr> sc_opt_inputStart = Some (Fin 3), sc_opt_inputEnd = Some (Fin 3),
        sc_opt_outputStart = Some (Fin 10), sc_opt_outputEnd = Some (Fin 20),
        sc_opt_clip = None, sc_opt_type = None, sc_opt_base = None \<rparr>"
  have d: "Scaler_degenerate ?s"
    by (simp add: Scaler_degenerate_def Scaler_new_def Scaler_init_def Let_def js_sub_def
        js_eq_def js_round_values)
  show ?thesis
    using d Scaler_degenerate_step [OF d, of "Fin 3"]
    by (simp add: Scaler_new_def Scaler_init_def Let_def js_min_def)
qed

text \<open>
  C10. For every Scaler whose \<open>inputRange\<close> is 0 or whose \<open>outputRange\<close> is 0,
  \<open>process(NaN)\<close> returns \<open>outputEnd\<close>: the comparison \<open>NaN <= inputMin\<close> is false.
\<close>

theorem Scaler_degenerate_NaN:
  "Scaler_degenerate s \<Longrightarrow> Scaler_process s NaN = sc_outputEnd s"
  by (simp add: Scaler_process_def)

theorem Scaler_degenerate_NaN_witness:
  "Scaler_degenerate
     (Scaler_new \<lparr> sc_opt_inputStart = None, sc_opt_inputEnd = None,
        sc_opt_outputStart = Some (Fin 7), sc_opt_outputEnd = Some (Fin 7),
        sc_opt_clip = None, sc_opt_type = None, sc_opt_base = None \<rparr>)
   \<and> Scaler_process
       (Scaler_new \<lparr> sc_opt_inputStart = None, sc_opt_inputEnd = None,
          sc_opt_outputStart = Some (Fin 7), sc_opt_outputEnd = Some (Fin 7),
          sc_opt_clip = None, sc_opt_type = None, sc_opt_base = None \<rparr>) NaN = Fin 7"
proof -
  let ?s = "Scaler_new \<lparr> sc_opt_inputStart = None, sc_opt_inputEnd = None,
        sc_opt_outputStart = Some (Fin 7), sc_opt_outputEnd = Some (Fin 7),
        sc_opt_clip = None, sc_opt_type = None, sc_opt_base = None \<rparr>"
  have d: "Scaler_degenerate ?s"
    by (simp add: Scaler_degenerate_def Scaler_new_def Scaler_init_def Let_def js_sub_def
        js_eq_def js_round_values)
  show ?thesis
    using d Scaler_degenerate_NaN [OF d]
    by (simp add: Scaler_new_def Scaler_init_def Let_def)
qed

section \<open>Filters: what \<open>set\<close> changes\<close>

text \<open>
  C8. For every Lowpass and every Hysteresis, in any state, \<open>set\<close> called with any
  subset of the documented options (\<open>sampleRate\<close> and the lowpass frequencies) leaves
  \<open>outputValueLast\<close> as it was, unset or not; it stores the options given, keeps the
  others, and recomputes the coefficients from the resulting configuration.
\<close>

theorem set_keeps_outputValueLast:
  "lp_outputValueLast (Lowpass_set h attributes s) = lp_outputValueLast s
   \<and> Lowpass_derived h (Lowpass_set h attributes s)
   \<and> lp_sampleRate (Lowpass_set h attributes s)
       = (case lp_opt_sampleRate attributes of None \<Rightarrow> lp_sampleRate s | Some v \<Rightarrow> v)
   \<and> lp_lowpassFrequency (Lowpass_set h attributes s)
       = (case lp_opt_lowpassFrequency attributes of
            None \<Rightarrow> lp_lowpassFrequency s | Some v \<Rightarrow> v)
   \<and> hy_outputValueLast (Hysteresis_set h hattributes t) = hy_outputValueLast t
   \<and> Hysteresis_derived h (Hysteresis_set h hattributes t)
   \<and> hy_sampleRate (Hysteresis_set h hattributes t)
       = (case hy_opt_sampleRate hattributes of None \<Rightarrow> hy_sampleRate t | Some v \<Rightarrow> v)
   \<and> hy_lowpassFrequencyUp (Hysteresis_set h hattributes t)
       = (case hy_opt_lowpassFrequencyUp hattributes of
            None \<Rightarrow> hy_lowpassFrequencyUp t | Some v \<Rightarrow> v)
   \<and> hy_lowpassFrequencyDown (Hysteresis_set h hattributes t)
       = (case hy_opt_lowpassFrequencyDown hattributes of
            None \<Rightarrow> hy_lowpassFrequencyDown t | Some v \<Rightarrow> v)"
  by (simp add: Lowpass_set_def Lowpass_assign_def Lowpass_derived_init
      Hysteresis_set_def Hysteresis_assign_def Hysteresis_derived_init)

section \<open>Filters: the range of the coefficients\<close>

text \<open>
  C7, as stated, fails when the conversion returns \<open>NaN\<close>, as it does for a frequency
  that is \<open>NaN\<close>: \<open>Math.min(1, NaN)\<close> and \<open>Math.max(0, NaN)\<close> are \<open>NaN\<close>, so
  \<open>inputScale\<close> is \<open>NaN\<close>, which is not in \<open>[0, 1]\<close>, and the two coefficients sum
  to \<open>NaN\<close>.
\<close>

theorem coefficients_NaN:
  "lp_inputScale (Lowpass_new hertzToNormalised
       \<lparr> lp_opt_sampleRate = None, lp_opt_lowpassFrequency = Some NaN \<rparr>) = NaN
   \<and> \<not> js_le (Fin 0) (lp_inputScale (Lowpass_new hertzToNormalised
       \<lparr> lp_opt_sampleRate = None, lp_opt_lowpassFrequency = Some NaN \<rparr>))
   \<and> js_add
       (lp_inputScale (Lowpass_new hertzToNormalised
          \<lparr> lp_opt_sampleRate = None, lp_opt_lowpassFrequency = Some NaN \<rparr>))
       (lp_feedbackScale (Lowpass_new hertzToNormalised
          \<lparr> lp_opt_sampleRate = None, lp_opt_lowpassFrequency = Some NaN \<rparr>)) = NaN"
  by (simp add: Lowpass_new_def hertzToNormalised_def clamped_coefficient_def js_max_def
      js_min_def js_sub_def)

text \<open>
  C7, amended. After every constructor call and every \<open>set\<close> call on a Lowpass or a
  Hysteresis, each coefficient pair for which the conversion returned a value other than
  \<open>NaN\<close> (a finite number or an infinity) has \<open>inputScale\<close> in \<open>[0, 1]\<close> and
  \<open>feedbackScale = 1 - inputScale\<close>, and the two sum to 1.
\<close>

theorem coefficients_after_init:
  "((s = Lowpass_new h opts \<or> s = Lowpass_set h attributes s0)
      \<and> h (lp_lowpassFrequency s) (lp_sampleRate s) \<noteq> NaN
    \<longrightarrow> coefficients_sum_to_one (lp_inputScale s) (lp_feedbackScale s))
   \<and> ((t = Hysteresis_new h hopts \<or> t = Hysteresis_set h hattributes t0)
      \<and> h (hy_lowpassFrequencyUp t) (hy_sampleRate t) \<noteq> NaN
    \<longrightarrow> coefficients_sum_to_one (inputScale (hy_up t)) (feedbackScale (hy_up t)))
   \<and> ((t = Hysteresis_new h hopts \<or> t = Hysteresis_set h hattributes t0)
      \<and> h (hy_lowpassFrequencyDown t) (hy_sampleRate t) \<noteq> NaN
    \<longrightarrow> coefficients_sum_to_one (inputScale (hy_down t)) (feedbackScale (hy_down t)))"
  by (auto simp: Lowpass_new_def Lowpass_set_def Hysteresis_new_def Hysteresis_set_def
      coefficients_of_clamped)

text \<open>A Lowpass at 44100 Hz with an infinite cutoff, for which the conversion returns
  \<open>Infinity\<close>, has the coefficients 1 and 0; a Hysteresis with the normalised
  frequencies 0.75 and -3 has the pairs (0.75, 0.25) and (0, 1).\<close>

theorem coefficients_after_init_witness:
  "coefficients_sum_to_one (Fin 1) (Fin 0)
   \<and> lp_inputScale (Lowpass_new hertzToNormalised
        \<lparr> lp_opt_sampleRate = Some (Fin 44100), lp_opt_lowpassFrequency = Some PosInf \<rparr>)
       = Fin 1
   \<and> lp_feedbackScale (Lowpass_new hertzToNormalised
        \<lparr> lp_opt_sampleRate = Some (Fin 44100), lp_opt_lowpassFrequency = Some PosInf \<rparr>)
       = Fin 0
   \<and> coefficients_sum_to_one (Fin (3/4)) (Fin (1/4))
   \<and> hy_up (Hysteresis_new hertzToNormalised
        \<lparr> hy_opt_sampleRate = None, hy_opt_lowpassFrequencyUp = Some (Fin (3/4)),
          hy_opt_lowpassFrequencyDown = Some (Fin (- 3)) \<rparr>)
       = \<lparr> inputScale = Fin (3/4), feedbackScale = Fin (1/4) \<rparr>
   \<and> hy_down (Hysteresis_new hertzToNormalised
        \<lparr> hy_opt_sampleRate = None, hy_opt_lowpassFrequencyUp = Some (Fin (3/4)),
          hy_opt_lowpassFrequencyDown = Some (Fin (- 3)) \<rparr>)
       = \<lparr> inputScale = Fin 0, feedbackScale = Fin 1 \<rparr>"
  using coefficients_after_init
    [of "Lowpass_new hertzToNormalised
           \<lparr> lp_opt_sampleRate = Some (Fin 44100), lp_opt_lowpassFrequency = Some PosInf \<rparr>"
        hertzToNormalised
        "\<lparr> lp_opt_sampleRate = Some (Fin 44100), lp_opt_lowpassFrequency = Some PosInf \<rparr>"
        _ _
        "Hysteresis_new hertzToNormalised
           \<lparr> hy_opt_sampleRate = None, hy_opt_lowpassFrequencyUp = Some (Fin (3/4)),
             hy_opt_lowpassFrequencyDown = Some (Fin (- 3)) \<rparr>"
        "\<lparr> hy_opt_sampleRate = None, hy_opt_lowpassFrequencyUp = Some (Fin (3/4)),
           hy_opt_lowpassFrequencyDown = Some (Fin (- 3)) \<rparr>"]
  by (simp add: Lowpass_new_def Hysteresis_new_def Hysteresis_init_def Let_def
      hertzToNormalised_def clamped_coefficient_def inf_of_sign_def js_max_def js_min_def
      js_sub_def coefficients_sum_to_one_def js_round_values)

section \<open>The first call of a filter\<close>

text \<open>Whatever the conversion is, a Lowpass one of whose coefficients is 0 answers a
  first infinite input with \<open>NaN\<close>: the product of the infinity and the 0 is \<open>NaN\<close>.\<close>

lemma first_process_frozen:
  "lp_outputValueLast s = None \<Longrightarrow> lp_inputScale s = Fin 0 \<or> lp_feedbackScale s = Fin 0 \<Longrightarrow>
   fst (Lowpass_process s PosInf) = NaN \<and> fst (Lowpass_process s NegInf) = NaN"
  by (auto simp: Lowpass_process_def Let_def js_add_NaN)

text \<open>
  The first call computes \<open>v * a + v * f\<close> with the last output seeded to \<open>v\<close>, where
  \<open>f\<close> is the rounded \<open>1 - a\<close>. Three roundings separate the result from \<open>v\<close>: of the
  two products and of the sum; a fourth is in \<open>f\<close>.
\<close>

lemma abs_mult_unit:
  fixes x a :: real
  assumes "0 \<le> a" and "a \<le> 1"
  shows "\<bar>x * a\<bar> \<le> \<bar>x\<bar>"
proof -
  have "\<bar>x * a\<bar> = \<bar>x\<bar> * a" using assms(1) by (simp add: abs_mult)
  also have "\<dots> \<le> \<bar>x\<bar> * 1" using assms(2) by (intro mult_left_mono) simp_all
  finally show ?thesis by simp
qed

lemma first_mix_error:
  fixes x a :: real
  assumes "0 \<le> a" and "a \<le> 1"
  defines "S \<equiv> to_double (x * a) + to_double (x * to_double (1 - a))"
  shows "\<bar>S - x\<bar> \<le> 5/2 * (\<bar>x\<bar> / 2 ^ 53) + 2 * 2 powi (- 1075)"
    and "\<bar>to_double S - x\<bar> \<le> \<bar>x\<bar> / 2 ^ 50 + 2 powi (- 1073)"
proof -
  define f where "f = to_double (1 - a)"
  define U where "U = \<bar>x\<bar> / 2 ^ 53"
  define t :: real where "t = 2 powi (- 1075)"
  have f: "0 \<le> f" "f \<le> 1" and fe: "\<bar>f - (1 - a)\<bar> \<le> 1 / 2 ^ 54"
    unfolding f_def using assms(1,2) to_double_unit [of "1 - a"] to_double_unit_error [of "1 - a"]
    by simp_all
  have U: "0 \<le> U" by (simp add: U_def)
  have t: "0 \<le> t" "t \<le> 1" unfolding t_def using tiny_le_one by simp_all
  define P1 where "P1 = to_double (x * a)"
  define P2 where "P2 = to_double (x * f)"
  have S_eq: "S = P1 + P2" by (simp add: S_def P1_def P2_def f_def)
  have xa: "\<bar>x * a\<bar> \<le> \<bar>x\<bar>" using assms(1,2) by (rule abs_mult_unit)
  have xf: "\<bar>x * f\<bar> \<le> \<bar>x\<bar>" using f by (rule abs_mult_unit)
  have e1: "\<bar>P1 - x * a\<bar> \<le> U + t"
  proof -
    have "\<bar>x * a\<bar> / 2 ^ 53 \<le> U" unfolding U_def using xa by (simp add: divide_right_mono)
    then show ?thesis unfolding P1_def t_def using to_double_rel_error [of "x * a"] by linarith
  qed
  have e2: "\<bar>P2 - x * f\<bar> \<le> U + t"
  proof -
    have "\<bar>x * f\<bar> / 2 ^ 53 \<le> U" unfolding U_def using xf by (simp add: divide_right_mono)
    then show ?thesis unfolding P2_def t_def using to_double_rel_error [of "x * f"] by linarith
  qed
  have e3: "\<bar>x * a + x * f - x\<bar> \<le> U / 2"
  proof -
    have "x * a + x * f - x = x * (f - (1 - a))" by (simp add: algebra_simps)
    then have "\<bar>x * a + x * f - x\<bar> = \<bar>x\<bar> * \<bar>f - (1 - a)\<bar>" by (simp add: abs_mult)
    also have "\<dots> \<le> \<bar>x\<bar> * (1 / 2 ^ 54)" using fe by (intro mult_left_mono) simp_all
    also have "\<dots> = U / 2" by (simp add: U_def)
    finally show ?thesis .
  qed
  have S: "\<bar>P1 + P2 - x\<bar> \<le> 5/2 * U + 2 * t"
    using e1 e2 e3 by linarith
  then show "\<bar>S - x\<bar> \<le> 5/2 * (\<bar>x\<bar> / 2 ^ 53) + 2 * 2 powi (- 1075)"
    unfolding S_eq U_def t_def .
  have Sabs: "\<bar>P1 + P2\<bar> \<le> \<bar>x\<bar> + 5/2 * U + 2 * t" using S by linarith
  have e4: "\<bar>to_double (P1 + P2) - (P1 + P2)\<bar> \<le> 2 * U + 2 * t"
  proof -
    have "\<bar>P1 + P2\<bar> / 2 ^ 53 \<le> (\<bar>x\<bar> + 5/2 * U + 2 * t) / 2 ^ 53"
      using Sabs by (simp add: divide_right_mono)
    also have "\<dots> = U + (5/2 * U + 2 * t) / 2 ^ 53" by (simp add: U_def field_simps)
    also have "\<dots> \<le> U + (5/2 * U + 2 * t) / 4"
      using U t by (intro add_left_mono divide_left_mono) simp_all
    also have "\<dots> \<le> 2 * U + t" using U t by simp
    finally show ?thesis
      using to_double_rel_error [of "P1 + P2"] unfolding t_def by linarith
  qed
  have "\<bar>to_double (P1 + P2) - x\<bar> \<le> 8 * U + 4 * t"
    using S e4 U t by linarith
  moreover have "8 * U = \<bar>x\<bar> / 2 ^ 50" by (simp add: U_def)
  moreover have "4 * t = 2 powi (- 1073)"
    unfolding t_def using power_int_add [of "2::real" "- 1075" 2] by simp
  ultimately show "\<bar>to_double S - x\<bar> \<le> \<bar>x\<bar> / 2 ^ 50 + 2 powi (- 1073)"
    unfolding S_eq by simp
qed

lemma first_mix_near:
  assumes "0 \<le> a" and "a \<le> 1" and "\<bar>x\<bar> \<le> 2 ^ 1023"
  shows "js_near (js_add (js_mul (Fin x) (Fin a)) (js_mul (Fin x) (Fin (to_double (1 - a)))))
           x (\<bar>x\<bar> / 2 ^ 50 + 2 powi (- 1073))"
proof -
  define f where "f = to_double (1 - a)"
  define P1 where "P1 = to_double (x * a)"
  define P2 where "P2 = to_double (x * f)"
  note err = first_mix_error [OF assms(1,2), of x, folded f_def, folded P1_def P2_def]
  have f: "0 \<le> f" "f \<le> 1"
    unfolding f_def using assms(1,2) to_double_unit [of "1 - a"] by simp_all
  have big: "(2::real) ^ 1023 \<le> 3 * 2 ^ 1022" by simp
  have xa: "\<bar>x * a\<bar> \<le> \<bar>x\<bar>" using assms(1,2) by (rule abs_mult_unit)
  have xf: "\<bar>x * f\<bar> \<le> \<bar>x\<bar>" using f by (rule abs_mult_unit)
  have m1: "js_mul (Fin x) (Fin a) = Fin P1"
    unfolding P1_def using xa assms(3) big by (simp add: js_round_finite)
  have m2: "js_mul (Fin x) (Fin f) = Fin P2"
    unfolding P2_def using xf assms(3) big by (simp add: js_round_finite)
  have "\<bar>P1 + P2\<bar> \<le> 3 * 2 ^ 1022"
  proof -
    have "\<bar>x\<bar> / 2 ^ 53 \<le> \<bar>x\<bar> / 8" by (intro divide_left_mono) simp_all
    then have "\<bar>P1 + P2\<bar> \<le> \<bar>x\<bar> + 5/16 * \<bar>x\<bar> + 2"
      using err(1) tiny_le_one by linarith
    also have "\<dots> \<le> 2 ^ 1023 + 5/16 * 2 ^ 1023 + 2" using assms(3) by linarith
    also have "\<dots> \<le> 3 * 2 ^ 1022" by simp
    finally show ?thesis .
  qed
  then have sum: "js_add (Fin P1) (Fin P2) = Fin (to_double (P1 + P2))"
    by (simp add: js_round_finite)
  show ?thesis
    unfolding f_def [symmetric] m1 m2 sum using err(2) by simp
qed

text \<open>Beyond \<open>2^1023\<close> the sum can only be finite and near the input, or overflow to the
  infinity of the input's sign.\<close>

lemma to_double_abs_bound:
  assumes "\<bar>z\<bar> \<le> \<bar>x\<bar>" and "to_double x = x"
  shows "\<bar>to_double z\<bar> \<le> \<bar>x\<bar>"
proof -
  have ax: "to_double \<bar>x\<bar> = \<bar>x\<bar>"
    using assms(2) by (cases "0 \<le> x") (simp_all add: abs_if to_double_minus)
  have "to_double z \<le> to_double \<bar>x\<bar>" using assms(1) by (intro to_double_mono) linarith
  moreover have "to_double (- \<bar>x\<bar>) \<le> to_double z" using assms(1) by (intro to_double_mono) linarith
  ultimately show ?thesis using ax by (simp add: to_double_minus)
qed

lemma first_mix_any:
  assumes "0 \<le> a" and "a \<le> 1" and "is_double x"
  shows "js_near (js_add (js_mul (Fin x) (Fin a)) (js_mul (Fin x) (Fin (to_double (1 - a)))))
           x (\<bar>x\<bar> / 2 ^ 50 + 2 powi (- 1073))
    \<or> js_add (js_mul (Fin x) (Fin a)) (js_mul (Fin x) (Fin (to_double (1 - a))))
        = (if 0 < x then PosInf else NegInf)"
proof -
  define f where "f = to_double (1 - a)"
  define P1 where "P1 = to_double (x * a)"
  define P2 where "P2 = to_double (x * f)"
  define R where "R = to_double (P1 + P2)"
  note err = first_mix_error [OF assms(1,2), of x, folded f_def, folded P1_def P2_def, folded R_def]
  have f: "0 \<le> f" "f \<le> 1"
    unfolding f_def using assms(1,2) to_double_unit [of "1 - a"] by simp_all
  have xd: "to_double x = x" "\<bar>x\<bar> < 2 ^ 1024" using assms(3) by (simp_all add: is_double_def)
  have xa: "\<bar>x * a\<bar> \<le> \<bar>x\<bar>" using assms(1,2) by (rule abs_mult_unit)
  have xf: "\<bar>x * f\<bar> \<le> \<bar>x\<bar>" using f by (rule abs_mult_unit)
  have b1: "\<bar>P1\<bar> \<le> \<bar>x\<bar>" unfolding P1_def using xa xd(1) by (rule to_double_abs_bound)
  have b2: "\<bar>P2\<bar> \<le> \<bar>x\<bar>" unfolding P2_def using xf xd(1) by (rule to_double_abs_bound)
  have m1: "js_mul (Fin x) (Fin a) = Fin P1"
    using b1 xd(2) by (simp add: js_round_def Let_def P1_def [symmetric])
  have m2: "js_mul (Fin x) (Fin f) = Fin P2"
    using b2 xd(2) by (simp add: js_round_def Let_def P2_def [symmetric])
  have sum: "js_add (Fin P1) (Fin P2)
      = (if 2 ^ 1024 \<le> \<bar>R\<bar> then (if 0 < P1 + P2 then PosInf else NegInf) else Fin R)"
    by (simp add: js_round_def Let_def R_def [symmetric])
  show ?thesis
  proof (cases "2 ^ 1024 \<le> \<bar>R\<bar>")
    case False
    then show ?thesis unfolding f_def [symmetric] m1 m2 sum using err(2) by simp
  next
    case True
    have small: "\<bar>x\<bar> / 2 ^ 50 \<le> \<bar>x\<bar> / 2" by (intro divide_left_mono) simp_all
    have tiny: "(2::real) powi (- 1073) \<le> 1"
      using power_int_increasing [of "- 1073" 0 "2::real"] by simp
    have one: "(1::real) \<le> 2 ^ 1024 / 2" by simp
    have sg: "0 \<le> R * (P1 + P2)" unfolding R_def by (rule to_double_sign)
    have "(0 < P1 + P2) = (0 < x)"
    proof (cases "0 < x")
      case True
      then have "0 < R" using \<open>2 ^ 1024 \<le> \<bar>R\<bar>\<close> err(2) small tiny one xd(2) by linarith
      then have "0 \<le> P1 + P2" using sg by (simp add: zero_le_mult_iff)
      moreover have "P1 + P2 \<noteq> 0" using \<open>0 < R\<close> unfolding R_def by auto
      ultimately show ?thesis using True by simp
    next
      case False
      then have "R < 0" using \<open>2 ^ 1024 \<le> \<bar>R\<bar>\<close> err(2) small tiny one xd(2) by linarith
      then have "P1 + P2 \<le> 0" using sg by (simp add: zero_le_mult_iff)
      then show ?thesis using False by simp
    qed
    then show ?thesis unfolding f_def [symmetric] m1 m2 sum using True by simp
  qed
qed

text \<open>With a coefficient of 0 or 1 nothing is rounded: one product is the input, the
  other is 0.\<close>

lemma first_mix_exact:
  assumes "is_double x" and "a = 0 \<or> a = 1"
  shows "js_add (js_mul (Fin x) (Fin a)) (js_mul (Fin x) (Fin (to_double (1 - a)))) = Fin x"
  using assms by (auto simp: js_round_double)

lemma first_mix_infinite:
  assumes "0 < a" and "0 \<le> f" and "f \<noteq> 0"
  shows "js_add (js_mul PosInf (Fin a)) (js_mul PosInf (Fin f)) = PosInf"
    and "js_add (js_mul NegInf (Fin a)) (js_mul NegInf (Fin f)) = NegInf"
  using assms by (simp_all add: inf_of_sign_def)

text \<open>What a first call returns, for any state whose coefficients are derived.\<close>

lemma first_mix:
  assumes "0 \<le> a" and "a \<le> 1"
  shows "js_add (js_mul NaN (Fin a)) (js_mul NaN (Fin (to_double (1 - a)))) = NaN"
    and "0 < a \<Longrightarrow> to_double (1 - a) \<noteq> 0 \<Longrightarrow>
           js_add (js_mul PosInf (Fin a)) (js_mul PosInf (Fin (to_double (1 - a)))) = PosInf
           \<and> js_add (js_mul NegInf (Fin a)) (js_mul NegInf (Fin (to_double (1 - a)))) = NegInf"
    and "is_double x \<Longrightarrow> a = 0 \<or> a = 1 \<Longrightarrow>
           js_add (js_mul (Fin x) (Fin a)) (js_mul (Fin x) (Fin (to_double (1 - a)))) = Fin x"
    and "\<bar>x\<bar> \<le> 2 ^ 1023 \<Longrightarrow>
           js_near (js_add (js_mul (Fin x) (Fin a)) (js_mul (Fin x) (Fin (to_double (1 - a)))))
             x (\<bar>x\<bar> / 2 ^ 50 + 2 powi (- 1073))"
    and "is_double x \<Longrightarrow>
           js_near (js_add (js_mul (Fin x) (Fin a)) (js_mul (Fin x) (Fin (to_double (1 - a)))))
             x (\<bar>x\<bar> / 2 ^ 50 + 2 powi (- 1073))
           \<or> js_add (js_mul (Fin x) (Fin a)) (js_mul (Fin x) (Fin (to_double (1 - a))))
               = (if 0 < x then PosInf else NegInf)"
    and "a = 0 \<or> to_double (1 - a) = 0 \<Longrightarrow>
           js_add (js_mul PosInf (Fin a)) (js_mul PosInf (Fin (to_double (1 - a)))) = NaN
           \<and> js_add (js_mul NegInf (Fin a)) (js_mul NegInf (Fin (to_double (1 - a)))) = NaN"
proof -
  have f: "0 \<le> to_double (1 - a)" using assms to_double_unit [of "1 - a"] by simp
  show "is_double x \<Longrightarrow>
           js_near (js_add (js_mul (Fin x) (Fin a)) (js_mul (Fin x) (Fin (to_double (1 - a)))))
             x (\<bar>x\<bar> / 2 ^ 50 + 2 powi (- 1073))
           \<or> js_add (js_mul (Fin x) (Fin a)) (js_mul (Fin x) (Fin (to_double (1 - a))))
               = (if 0 < x then PosInf else NegInf)"
    using assms by (rule first_mix_any)
  show "a = 0 \<or> to_double (1 - a) = 0 \<Longrightarrow>
           js_add (js_mul PosInf (Fin a)) (js_mul PosInf (Fin (to_double (1 - a)))) = NaN
           \<and> js_add (js_mul NegInf (Fin a)) (js_mul NegInf (Fin (to_double (1 - a)))) = NaN"
    by (auto simp: js_add_NaN)
  show "js_add (js_mul NaN (Fin a)) (js_mul NaN (Fin (to_double (1 - a)))) = NaN" by simp
  show "0 < a \<Longrightarrow> to_double (1 - a) \<noteq> 0 \<Longrightarrow>
           js_add (js_mul PosInf (Fin a)) (js_mul PosInf (Fin (to_double (1 - a)))) = PosInf
           \<and> js_add (js_mul NegInf (Fin a)) (js_mul NegInf (Fin (to_double (1 - a)))) = NegInf"
    using f first_mix_infinite [of a "to_double (1 - a)"] by simp
  show "is_double x \<Longrightarrow> a = 0 \<or> a = 1 \<Longrightarrow>
           js_add (js_mul (Fin x) (Fin a)) (js_mul (Fin x) (Fin (to_double (1 - a)))) = Fin x"
    by (rule first_mix_exact)
  show "\<bar>x\<bar> \<le> 2 ^ 1023 \<Longrightarrow>
           js_near (js_add (js_mul (Fin x) (Fin a)) (js_mul (Fin x) (Fin (to_double (1 - a)))))
             x (\<bar>x\<bar> / 2 ^ 50 + 2 powi (- 1073))"
    using assms by (rule first_mix_near)
qed

lemma Lowpass_first_call:
  "lp_outputValueLast s = None \<Longrightarrow>
   fst (Lowpass_process s v) = js_add (js_mul v (lp_inputScale s)) (js_mul v (lp_feedbackScale s))"
  by (simp add: Lowpass_process_def Let_def)

lemma Hysteresis_first_call:
  "hy_outputValueLast s = None \<Longrightarrow>
   fst (Hysteresis_process s v) =
     js_add (js_mul v (inputScale (hy_down s))) (js_mul v (feedbackScale (hy_down s)))"
  by (simp add: Hysteresis_process_def Hysteresis_last_def Hysteresis_direction_def js_gt_def
      Let_def)

lemma Lowpass_instance_coefficients:
  assumes "lp_inputScale (Lowpass_instance h opts calls) = Fin a"
  shows "0 \<le> a" and "a \<le> 1"
    and "lp_feedbackScale (Lowpass_instance h opts calls) = Fin (to_double (1 - a))"
proof -
  let ?s = "Lowpass_instance h opts calls"
  have d: "lp_inputScale ?s = clamped_coefficient h (lp_lowpassFrequency ?s) (lp_sampleRate ?s)"
    "lp_feedbackScale ?s = js_sub (Fin 1) (lp_inputScale ?s)"
    using Lowpass_derived_instance [of h opts calls] by (simp_all add: Lowpass_derived_def)
  show a: "0 \<le> a" "a \<le> 1"
    using clamped_coefficient_cases [of h "lp_lowpassFrequency ?s" "lp_sampleRate ?s"] d(1) assms
    by auto
  show "lp_feedbackScale ?s = Fin (to_double (1 - a))"
    unfolding d(2) assms using a by (rule js_one_minus(1))
qed

lemma Hysteresis_instance_coefficients:
  assumes "inputScale (hy_down (Hysteresis_instance h opts calls)) = Fin a"
  shows "0 \<le> a" and "a \<le> 1"
    and "feedbackScale (hy_down (Hysteresis_instance h opts calls)) = Fin (to_double (1 - a))"
proof -
  let ?s = "Hysteresis_instance h opts calls"
  have d: "inputScale (hy_down ?s)
             = clamped_coefficient h (hy_lowpassFrequencyDown ?s) (hy_sampleRate ?s)"
    "feedbackScale (hy_down ?s) = js_sub (Fin 1) (inputScale (hy_down ?s))"
    using Hysteresis_derived_instance [of h opts calls] by (simp_all add: Hysteresis_derived_def)
  show a: "0 \<le> a" "a \<le> 1"
    using clamped_coefficient_cases [of h "hy_lowpassFrequencyDown ?s" "hy_sampleRate ?s"]
      d(1) assms
    by auto
  show "feedbackScale (hy_down ?s) = Fin (to_double (1 - a))"
    unfolding d(2) assms using a by (rule js_one_minus(1))
qed

text \<open>
  C1, as stated, fails at infinite and at finite inputs.

  A Lowpass constructed with \<open>lowpassFrequency: 0\<close> has \<open>inputScale = 0\<close> and
  \<open>feedbackScale = 1\<close>; its first \<open>process(Infinity)\<close> returns
  \<open>Infinity * 0 + Infinity * 1\<close>, which is \<open>NaN\<close>. A Hysteresis with
  \<open>lowpassFrequencyDown: 0\<close> does the same, the first call taking the \<open>down\<close> pair.

  A Lowpass constructed with \<open>lowpassFrequency: 0.625\<close> has the coefficients 0.625 and
  0.375. For the input \<open>v = 1 - 2^-53\<close>, the largest number below 1, the two products
  round to \<open>0.625 - 2^-53\<close> and \<open>0.375 - 2^-54\<close>, and their sum \<open>1 - 1.5 * 2^-53\<close>
  rounds to \<open>1 - 2^-52\<close>, which is not \<open>v\<close>.

  A Lowpass constructed with the defaults has both coefficients 0.5. For the smallest
  positive number \<open>2^-1074\<close> each product is \<open>2^-1075\<close> and rounds to 0, so the first
  call returns 0.
\<close>

theorem first_process_differs:
  "fst (Lowpass_process
          (Lowpass_new hertzToNormalised
             \<lparr> lp_opt_sampleRate = None, lp_opt_lowpassFrequency = Some (Fin 0) \<rparr>) PosInf) = NaN
   \<and> fst (Hysteresis_process
          (Hysteresis_new hertzToNormalised
             \<lparr> hy_opt_sampleRate = None, hy_opt_lowpassFrequencyUp = None,
               hy_opt_lowpassFrequencyDown = Some (Fin 0) \<rparr>) PosInf) = NaN
   \<and> is_double (1 - 1 / 2 ^ 53)
   \<and> fst (Lowpass_process
          (Lowpass_new hertzToNormalised
             \<lparr> lp_opt_sampleRate = None, lp_opt_lowpassFrequency = Some (Fin (5/8)) \<rparr>)
          (Fin (1 - 1 / 2 ^ 53))) = Fin (1 - 1 / 2 ^ 52)
   \<and> is_double (1 / 2 ^ 1074)
   \<and> fst (Lowpass_process
          (Lowpass_new hertzToNormalised
             \<lparr> lp_opt_sampleRate = None, lp_opt_lowpassFrequency = None \<rparr>)
          (Fin (1 / 2 ^ 1074))) = Fin 0"
proof (intro conjI)
  show "fst (Lowpass_process
          (Lowpass_new hertzToNormalised
             \<lparr> lp_opt_sampleRate = None, lp_opt_lowpassFrequency = Some (Fin 0) \<rparr>) PosInf) = NaN"
    by (simp add: Lowpass_new_def Lowpass_process_def hertzToNormalised_def
        clamped_coefficient_def js_max_def js_min_def js_sub_def)
  show "fst (Hysteresis_process
          (Hysteresis_new hertzToNormalised
             \<lparr> hy_opt_sampleRate = None, hy_opt_lowpassFrequencyUp = None,
               hy_opt_lowpassFrequencyDown = Some (Fin 0) \<rparr>) PosInf) = NaN"
    by (simp add: Hysteresis_new_def Hysteresis_process_def Hysteresis_last_def
        Hysteresis_direction_def js_gt_def hertzToNormalised_def clamped_coefficient_def
        js_max_def js_min_def js_sub_def js_round_values)
  show "is_double (1 - 1 / 2 ^ 53)"
    using is_double_dyadic [of "2 ^ 53 - 1" "- 53"] by (simp add: power_int_minus field_simps)
  show "is_double (1 / 2 ^ 1074)"
    using is_double_dyadic [of 1 "- 1074"] by (simp add: power_int_minus field_simps)
next
  have p1: "to_double ((1 - 1 / 2 ^ 53) * (5/8)) = 5/8 - 1 / 2 ^ 53"
    using to_double_evalI [of "- 1" "(1 - 1 / 2 ^ 53) * (5/8)" "5 * 2 ^ 50 - 1"]
    by (simp add: power_int_minus field_simps)
  have p2: "to_double ((1 - 1 / 2 ^ 53) * (3/8)) = 3/8 - 1 / 2 ^ 54"
    using to_double_evalI [of "- 2" "(1 - 1 / 2 ^ 53) * (3/8)" "3 * 2 ^ 51 - 1"]
    by (simp add: power_int_minus field_simps)
  have p3: "to_double (5/8 - 1 / 2 ^ 53 + (3/8 - 1 / 2 ^ 54)) = 1 - 1 / 2 ^ 52"
    using to_double_evalI [of "- 1" "5/8 - 1 / 2 ^ 53 + (3/8 - 1 / 2 ^ 54)" "2 ^ 53 - 2"]
    by (simp add: power_int_minus field_simps)
  show "fst (Lowpass_process
          (Lowpass_new hertzToNormalised
             \<lparr> lp_opt_sampleRate = None, lp_opt_lowpassFrequency = Some (Fin (5/8)) \<rparr>)
          (Fin (1 - 1 / 2 ^ 53))) = Fin (1 - 1 / 2 ^ 52)"
    using js_round_evalI [OF p1] js_round_evalI [OF p2] js_round_evalI [OF p3]
    by (simp add: Lowpass_new_def Lowpass_process_def Let_def hertzToNormalised_def
        clamped_coefficient_def js_max_Fin js_min_Fin js_sub_Fin js_round_values)
next
  have q: "to_double (1 / 2 ^ 1074 * (1/2)) = 0"
    using to_double_eval_subnormalI [of "1 / 2 ^ 1074 * (1/2)" 0]
    by (simp add: power_int_minus field_simps)
  show "fst (Lowpass_process
          (Lowpass_new hertzToNormalised
             \<lparr> lp_opt_sampleRate = None, lp_opt_lowpassFrequency = None \<rparr>)
          (Fin (1 / 2 ^ 1074))) = Fin 0"
    using js_round_evalI [OF q]
    by (simp add: Lowpass_new_def Lowpass_process_def Let_def hertzToNormalised_def
        clamped_coefficient_def js_max_Fin js_min_Fin js_sub_Fin js_round_values)
qed

text \<open>
  C1, amended. Take any Lowpass or Hysteresis instance whose \<open>outputValueLast\<close> is unset
  (as it is immediately after construction and immediately after \<open>reset\<close>) and whose
  coefficient is a number \<open>a\<close>, not \<open>NaN\<close>; for a Hysteresis the coefficient is that of
  the \<open>down\<close> pair, which the first call selects. Then the first \<open>process(v)\<close> returns
  \<^item> \<open>NaN\<close> for \<open>v = NaN\<close>;
  \<^item> \<open>v\<close> for \<open>v\<close> infinite, when neither coefficient is 0, and \<open>NaN\<close> for \<open>v\<close>
    infinite when a coefficient is 0;
  \<^item> \<open>v\<close> for every finite \<open>v\<close>, when \<open>a\<close> is 0 or 1;
  \<^item> for every finite \<open>v\<close> up to \<open>2^1023\<close> in magnitude, a finite number that differs
    from \<open>v\<close> by at most \<open>2^-50 * |v| + 2^-1073\<close>;
  \<^item> for every finite \<open>v\<close> whatever its magnitude, either such a number or, the sum
    having overflowed, the infinity of the sign of \<open>v\<close>.
\<close>

theorem first_process_near_input:
  fixes h :: conversion and opts calls hopts hcalls
  defines "s \<equiv> Lowpass_instance h opts calls"
    and "t \<equiv> Hysteresis_instance h hopts hcalls"
  shows
  "(lp_outputValueLast s = None \<and> lp_inputScale s = Fin a
    \<longrightarrow> fst (Lowpass_process s NaN) = NaN
      \<and> (0 < a \<and> lp_feedbackScale s \<noteq> Fin 0
           \<longrightarrow> fst (Lowpass_process s PosInf) = PosInf
             \<and> fst (Lowpass_process s NegInf) = NegInf)
      \<and> (a = 0 \<or> lp_feedbackScale s = Fin 0
           \<longrightarrow> fst (Lowpass_process s PosInf) = NaN
             \<and> fst (Lowpass_process s NegInf) = NaN)
      \<and> (is_double x \<and> (a = 0 \<or> a = 1) \<longrightarrow> fst (Lowpass_process s (Fin x)) = Fin x)
      \<and> (\<bar>x\<bar> \<le> 2 ^ 1023
           \<longrightarrow> js_near (fst (Lowpass_process s (Fin x))) x (\<bar>x\<bar> / 2 ^ 50 + 2 powi (- 1073)))
      \<and> (is_double x
           \<longrightarrow> js_near (fst (Lowpass_process s (Fin x))) x (\<bar>x\<bar> / 2 ^ 50 + 2 powi (- 1073))
             \<or> fst (Lowpass_process s (Fin x)) = (if 0 < x then PosInf else NegInf)))
   \<and> (hy_outputValueLast t = None \<and> inputScale (hy_down t) = Fin a
    \<longrightarrow> fst (Hysteresis_process t NaN) = NaN
      \<and> (0 < a \<and> feedbackScale (hy_down t) \<noteq> Fin 0
           \<longrightarrow> fst (Hysteresis_process t PosInf) = PosInf
             \<and> fst (Hysteresis_process t NegInf) = NegInf)
      \<and> (a = 0 \<or> feedbackScale (hy_down t) = Fin 0
           \<longrightarrow> fst (Hysteresis_process t PosInf) = NaN
             \<and> fst (Hysteresis_process t NegInf) = NaN)
      \<and> (is_double x \<and> (a = 0 \<or> a = 1) \<longrightarrow> fst (Hysteresis_process t (Fin x)) = Fin x)
      \<and> (\<bar>x\<bar> \<le> 2 ^ 1023
           \<longrightarrow> js_near (fst (Hysteresis_process t (Fin x))) x
                 (\<bar>x\<bar> / 2 ^ 50 + 2 powi (- 1073)))
      \<and> (is_double x
           \<longrightarrow> js_near (fst (Hysteresis_process t (Fin x))) x
                 (\<bar>x\<bar> / 2 ^ 50 + 2 powi (- 1073))
             \<or> fst (Hysteresis_process t (Fin x)) = (if 0 < x then PosInf else NegInf)))"
proof (intro conjI impI)
  assume A: "lp_outputValueLast s = None \<and> lp_inputScale s = Fin a"
  then have first: "fst (Lowpass_process s v)
      = js_add (js_mul v (Fin a)) (js_mul v (Fin (to_double (1 - a))))" for v
    using Lowpass_first_call [of s v] Lowpass_instance_coefficients(3) [of h opts calls a]
    by (simp add: s_def)
  have a: "0 \<le> a" "a \<le> 1"
    using A Lowpass_instance_coefficients(1,2) [of h opts calls a] by (simp_all add: s_def)
  have fb: "lp_feedbackScale s = Fin (to_double (1 - a))"
    using A Lowpass_instance_coefficients(3) [of h opts calls a] by (simp add: s_def)
  show "fst (Lowpass_process s NaN) = NaN"
    unfolding first by simp
  show "fst (Lowpass_process s (Fin x)) = Fin x" if "is_double x \<and> (a = 0 \<or> a = 1)"
    unfolding first using that first_mix(3) [OF a] by blast
  show "js_near (fst (Lowpass_process s (Fin x))) x (\<bar>x\<bar> / 2 ^ 50 + 2 powi (- 1073))"
    if "\<bar>x\<bar> \<le> 2 ^ 1023"
    unfolding first using that by (rule first_mix(4) [OF a])
  show "js_near (fst (Lowpass_process s (Fin x))) x (\<bar>x\<bar> / 2 ^ 50 + 2 powi (- 1073))
      \<or> fst (Lowpass_process s (Fin x)) = (if 0 < x then PosInf else NegInf)"
    if "is_double x"
    unfolding first using that by (rule first_mix(5) [OF a])
  show "fst (Lowpass_process s PosInf) = NaN" "fst (Lowpass_process s NegInf) = NaN"
    if "a = 0 \<or> lp_feedbackScale s = Fin 0"
    unfolding first using that fb first_mix(6) [OF a] by auto
  assume "0 < a \<and> lp_feedbackScale s \<noteq> Fin 0"
  then have "0 < a" "to_double (1 - a) \<noteq> 0" using fb by simp_all
  then show "fst (Lowpass_process s PosInf) = PosInf" "fst (Lowpass_process s NegInf) = NegInf"
    unfolding first using first_mix(2) [OF a] by blast+
next
  assume A: "hy_outputValueLast t = None \<and> inputScale (hy_down t) = Fin a"
  then have first: "fst (Hysteresis_process t v)
      = js_add (js_mul v (Fin a)) (js_mul v (Fin (to_double (1 - a))))" for v
    using Hysteresis_first_call [of t v] Hysteresis_instance_coefficients(3) [of h hopts hcalls a]
    by (simp add: t_def)
  have a: "0 \<le> a" "a \<le> 1"
    using A Hysteresis_instance_coefficients(1,2) [of h hopts hcalls a] by (simp_all add: t_def)
  have fb: "feedbackScale (hy_down t) = Fin (to_double (1 - a))"
    using A Hysteresis_instance_coefficients(3) [of h hopts hcalls a] by (simp add: t_def)
  show "fst (Hysteresis_process t NaN) = NaN"
    unfolding first by simp
  show "fst (Hysteresis_process t (Fin x)) = Fin x" if "is_double x \<and> (a = 0 \<or> a = 1)"
    unfolding first using that first_mix(3) [OF a] by blast
  show "js_near (fst (Hysteresis_process t (Fin x))) x (\<bar>x\<bar> / 2 ^ 50 + 2 powi (- 1073))"
    if "\<bar>x\<bar> \<le> 2 ^ 1023"
    unfolding first using that by (rule first_mix(4) [OF a])
  show "js_near (fst (Hysteresis_process t (Fin x))) x (\<bar>x\<bar> / 2 ^ 50 + 2 powi (- 1073))
      \<or> fst (Hysteresis_process t (Fin x)) = (if 0 < x then PosInf else NegInf)"
    if "is_double x"
    unfolding first using that by (rule first_mix(5) [OF a])
  show "fst (Hysteresis_process t PosInf) = NaN" "fst (Hysteresis_process t NegInf) = NaN"
    if "a = 0 \<or> feedbackScale (hy_down t) = Fin 0"
    unfolding first using that fb first_mix(6) [OF a] by auto
  assume "0 < a \<and> feedbackScale (hy_down t) \<noteq> Fin 0"
  then have "0 < a" "to_double (1 - a) \<noteq> 0" using fb by simp_all
  then show "fst (Hysteresis_process t PosInf) = PosInf"
    "fst (Hysteresis_process t NegInf) = NegInf"
    unfolding first using first_mix(2) [OF a] by blast+
qed

text \<open>A Lowpass with the default coefficient 0.5 that has processed a value and was reset:
  an infinity comes back as it is, and 3 comes back within the tolerance. A Lowpass with
  \<open>lowpassFrequency: 1\<close> has the coefficients 1 and 0: it returns 3 for 3 and \<open>NaN\<close>
  for \<open>-Infinity\<close>. The same for a
  Hysteresis whose \<open>down\<close> coefficient is 0.25, or 1.\<close>

theorem first_process_near_input_witness:
  "fst (Lowpass_process
          (Lowpass_instance hertzToNormalised
             \<lparr> lp_opt_sampleRate = None, lp_opt_lowpassFrequency = None \<rparr>
             [LpProcess (Fin 3), LpReset]) PosInf) = PosInf
   \<and> js_near
        (fst (Lowpass_process
          (Lowpass_instance hertzToNormalised
             \<lparr> lp_opt_sampleRate = None, lp_opt_lowpassFrequency = None \<rparr>
             [LpProcess (Fin 3), LpReset]) (Fin 3)))
        3 (3 / 2 ^ 50 + 2 powi (- 1073))
   \<and> fst (Lowpass_process
          (Lowpass_instance hertzToNormalised
             \<lparr> lp_opt_sampleRate = None, lp_opt_lowpassFrequency = Some (Fin 1) \<rparr> [])
          (Fin 3)) = Fin 3
   \<and> fst (Lowpass_process
          (Lowpass_instance hertzToNormalised
             \<lparr> lp_opt_sampleRate = None, lp_opt_lowpassFrequency = Some (Fin 1) \<rparr> [])
          NegInf) = NaN
   \<and> fst (Hysteresis_process
          (Hysteresis_instance hertzToNormalised
             \<lparr> hy_opt_sampleRate = None, hy_opt_lowpassFrequencyUp = None,
               hy_opt_lowpassFrequencyDown = Some (Fin (1/4)) \<rparr> []) NegInf) = NegInf
   \<and> js_near
        (fst (Hysteresis_process
          (Hysteresis_instance hertzToNormalised
             \<lparr> hy_opt_sampleRate = None, hy_opt_lowpassFrequencyUp = None,
               hy_opt_lowpassFrequencyDown = Some (Fin (1/4)) \<rparr> []) (Fin 3)))
        3 (3 / 2 ^ 50 + 2 powi (- 1073))
   \<and> fst (Hysteresis_process
          (Hysteresis_instance hertzToNormalised
             \<lparr> hy_opt_sampleRate = None, hy_opt_lowpassFrequencyUp = None,
               hy_opt_lowpassFrequencyDown = Some (Fin 1) \<rparr> []) (Fin 3)) = Fin 3"
proof -
  let ?L1 = "Lowpass_instance hertzToNormalised
             \<lparr> lp_opt_sampleRate = None, lp_opt_lowpassFrequency = None \<rparr>
             [LpProcess (Fin 3), LpReset]"
  let ?L2 = "Lowpass_instance hertzToNormalised
             \<lparr> lp_opt_sampleRate = None, lp_opt_lowpassFrequency = Some (Fin 1) \<rparr> []"
  let ?H1 = "Hysteresis_instance hertzToNormalised
             \<lparr> hy_opt_sampleRate = None, hy_opt_lowpassFrequencyUp = None,
               hy_opt_lowpassFrequencyDown = Some (Fin (1/4)) \<rparr> []"
  let ?H2 = "Hysteresis_instance hertzToNormalised
             \<lparr> hy_opt_sampleRate = None, hy_opt_lowpassFrequencyUp = None,
               hy_opt_lowpassFrequencyDown = Some (Fin 1) \<rparr> []"
  have L1: "lp_outputValueLast ?L1 = None" "lp_inputScale ?L1 = Fin (1/2)"
    "lp_feedbackScale ?L1 = Fin (1/2)"
    by (simp_all add: Lowpass_instance_def Lowpass_new_def Lowpass_process_def Lowpass_reset_def
        Lowpass_init_def Let_def hertzToNormalised_def clamped_coefficient_def
        js_max_Fin js_min_Fin js_sub_Fin js_round_values)
  have L2: "lp_outputValueLast ?L2 = None" "lp_inputScale ?L2 = Fin 1"
    "lp_feedbackScale ?L2 = Fin 0"
    by (simp_all add: Lowpass_instance_def Lowpass_new_def Lowpass_init_def Let_def
        hertzToNormalised_def clamped_coefficient_def js_max_Fin js_min_Fin js_sub_Fin
        js_round_values)
  have H1: "hy_outputValueLast ?H1 = None" "inputScale (hy_down ?H1) = Fin (1/4)"
    "feedbackScale (hy_down ?H1) = Fin (3/4)"
    by (simp_all add: Hysteresis_instance_def Hysteresis_new_def Hysteresis_init_def Let_def
        hertzToNormalised_def clamped_coefficient_def js_max_Fin js_min_Fin js_sub_Fin
        js_round_values)
  have H2: "hy_outputValueLast ?H2 = None" "inputScale (hy_down ?H2) = Fin 1"
    by (simp_all add: Hysteresis_instance_def Hysteresis_new_def Hysteresis_init_def Let_def
        hertzToNormalised_def clamped_coefficient_def js_max_Fin js_min_Fin js_round_values)
  have three: "is_double 3" by (simp add: is_double_numeral)
  show ?thesis
    using L1 L2 H1 H2 three
      first_process_near_input [where h = hertzToNormalised
        and opts = "\<lparr> lp_opt_sampleRate = None, lp_opt_lowpassFrequency = None \<rparr>"
        and calls = "[LpProcess (Fin 3), LpReset]" and a = "1/2" and x = 3
        and hopts = "\<lparr> hy_opt_sampleRate = None, hy_opt_lowpassFrequencyUp = None,
               hy_opt_lowpassFrequencyDown = Some (Fin 1) \<rparr>" and hcalls = "[]"]
      first_process_near_input [where h = hertzToNormalised
        and opts = "\<lparr> lp_opt_sampleRate = None, lp_opt_lowpassFrequency = Some (Fin 1) \<rparr>"
        and calls = "[]" and a = 1 and x = 3
        and hopts = "\<lparr> hy_opt_sampleRate = None, hy_opt_lowpassFrequencyUp = None,
               hy_opt_lowpassFrequencyDown = Some (Fin 1) \<rparr>" and hcalls = "[]"]
      first_process_near_input [where h = hertzToNormalised
        and opts = "\<lparr> lp_opt_sampleRate = None, lp_opt_lowpassFrequency = None \<rparr>"
        and calls = "[]" and a = "1/4" and x = 3
        and hopts = "\<lparr> hy_opt_sampleRate = None, hy_opt_lowpassFrequencyUp = None,
               hy_opt_lowpassFrequencyDown = Some (Fin (1/4)) \<rparr>" and hcalls = "[]"]
    by simp
qed

section \<open>Lowpass: the response to a step\<close>













section \<open>Scaler: there and back\<close>

text \<open>Rounding is monotone: a result between two binary64 values rounds to a value
  between them.\<close>

lemma js_round_between:
  assumes "lo \<le> z" and "z \<le> hi"
    and "to_double lo = lo" and "to_double hi = hi"
    and "\<bar>lo\<bar> \<le> 2 ^ 1022" and "\<bar>hi\<bar> \<le> 2 ^ 1022"
  shows "\<exists>r. js_round z = Fin r \<and> lo \<le> r \<and> r \<le> hi"
proof -
  have "\<bar>z\<bar> \<le> 2 ^ 1022" using assms(1,2,5,6) by linarith
  then have "js_round z = Fin (to_double z)" by (intro js_round_finite) simp
  moreover have "lo \<le> to_double z" using to_double_mono [OF assms(1)] assms(3) by simp
  moreover have "to_double z \<le> hi" using to_double_mono [OF assms(2)] assms(4) by simp
  ultimately show ?thesis by blast
qed

lemma to_double_fraction:
  "\<bar>m\<bar> < 2 ^ 53 \<Longrightarrow> n \<le> 1074 \<Longrightarrow> to_double (of_int m / 2 ^ n) = of_int m / 2 ^ n"
  using to_double_dyadic [of m "- int n"] by (simp add: power_int_minus field_simps)

text \<open>Coarse bounds on the logarithm and the exponential, enough to follow the
  exponential formula with base 4 through its roundings.\<close>

lemma ln4_le: "ln (4::real) \<le> 3/2"
proof -
  have "(2::real) \<le> 1 + 3/4 + (3/4)\<^sup>2 / 2" by (simp add: power2_eq_square)
  also have "\<dots> \<le> exp (3/4)" by (rule exp_lower_Taylor_quadratic) simp
  finally have "ln (2::real) \<le> ln (exp (3/4))" by (subst ln_le_cancel_iff) simp_all
  then have "ln (2::real) \<le> 3/4" by simp
  moreover have "ln (4::real) = 2 * ln 2" using ln_realpow [of 2 2] by simp
  ultimately show ?thesis by simp
qed

lemma exp_le_quadratic:
  fixes x :: real
  assumes "0 \<le> x" and "x \<le> 1"
  shows "exp x \<le> 1 + x + x\<^sup>2"
  using assms by (rule exp_bound)


lemma to_double_bounds:
  "to_double (1/2) = 1/2"
  "to_double (3/2) = 3/2" "to_double (3/4) = 3/4" "to_double (37/16) = 37/16"
  "to_double (21/16) = 21/16" "to_double (63/16) = 63/16" "to_double (63/32) = 63/32"
  "to_double (21/32) = 21/32" "to_double (2137/1024) = 2137/1024"
  "to_double (1113/1024) = 1113/1024" "to_double (371/1024) = 371/1024"
  using to_double_fraction [of 1 1]
    to_double_fraction [of 3 1] to_double_fraction [of 3 2] to_double_fraction [of 37 4]
    to_double_fraction [of 21 4] to_double_fraction [of 63 4] to_double_fraction [of 63 5]
    to_double_fraction [of 21 5] to_double_fraction [of 2137 10]
    to_double_fraction [of 1113 10] to_double_fraction [of 371 10]
  by simp_all

lemma js_round_in:
  assumes "lo \<le> z" and "z \<le> hi"
    and "to_double lo = lo" and "to_double hi = hi" and "0 \<le> lo" and "hi \<le> 4"
  shows "\<exists>r. js_round z = Fin r \<and> lo \<le> r \<and> r \<le> hi"
proof -
  have "\<bar>lo\<bar> \<le> 2 ^ 1022" "\<bar>hi\<bar> \<le> 2 ^ 1022" using assms(1,2,5,6) by simp_all
  from js_round_between [OF assms(1-4) this] show ?thesis .
qed

text \<open>The exponential formula from \<open>[0, 1]\<close> to \<open>[0, 3]\<close> and from \<open>[0, 3]\<close> to
  \<open>[0, 1]\<close>, with \<open>L\<close> the rounded logarithm of the base: an upper bound after each
  operation.\<close>

lemma exp_curve_there:
  assumes L: "0 \<le> L" "L \<le> 3/2" and x: "0 \<le> x" "x \<le> 1/2"
  shows "\<exists>y. js_add (Fin 0) (js_div (js_mul (Fin 3)
            (js_sub (js_exp (js_div (js_mul (Fin L) (js_sub (Fin x) (Fin 0))) (Fin 1))) (Fin 1))) (Fin 3)) = Fin y
        \<and> 0 \<le> y \<and> y \<le> 21/16"
proof -
  note b = to_double_bounds
  have "\<exists>r. js_round x = Fin r \<and> 0 \<le> r \<and> r \<le> 1/2"
    using x by (intro js_round_in) (simp_all add: b)
  then obtain d where d: "js_round x = Fin d" "0 \<le> d" "d \<le> 1/2" by blast
  have "L * d \<le> 3/2 * (1/2)" using L d by (intro mult_mono) simp_all
  then have "\<exists>r. js_round (L * d) = Fin r \<and> 0 \<le> r \<and> r \<le> 3/4"
    using L d by (intro js_round_in) (simp_all add: b)
  then obtain m where m: "js_round (L * d) = Fin m" "0 \<le> m" "m \<le> 3/4" by blast
  have "\<exists>r. js_round m = Fin r \<and> 0 \<le> r \<and> r \<le> 3/4"
    using m by (intro js_round_in) (simp_all add: b)
  then obtain q where q: "js_round m = Fin q" "0 \<le> q" "q \<le> 3/4" by blast
  have "exp q \<le> 1 + q + q\<^sup>2" using q by (intro exp_le_quadratic) simp_all
  moreover have "q\<^sup>2 \<le> (3/4)\<^sup>2" using q by (intro power_mono) simp_all
  ultimately have "exp q \<le> 37/16" using q(3) by (simp add: power2_eq_square)
  moreover have "1 \<le> exp q" using q by simp
  ultimately have "\<exists>r. js_round (exp q) = Fin r \<and> 1 \<le> r \<and> r \<le> 37/16"
    by (intro js_round_in) (simp_all add: b)
  then obtain E where E: "js_round (exp q) = Fin E" "1 \<le> E" "E \<le> 37/16" by blast
  have "\<exists>r. js_round (E - 1) = Fin r \<and> 0 \<le> r \<and> r \<le> 21/16"
    using E by (intro js_round_in) (simp_all add: b)
  then obtain D where D: "js_round (E - 1) = Fin D" "0 \<le> D" "D \<le> 21/16" by blast
  have "\<exists>r. js_round (3 * D) = Fin r \<and> 0 \<le> r \<and> r \<le> 63/16"
    using D by (intro js_round_in) (simp_all add: b)
  then obtain M where M: "js_round (3 * D) = Fin M" "0 \<le> M" "M \<le> 63/16" by blast
  have "\<exists>r. js_round (M / 3) = Fin r \<and> 0 \<le> r \<and> r \<le> 21/16"
    using M by (intro js_round_in) (simp_all add: b)
  then obtain Q where Q: "js_round (M / 3) = Fin Q" "0 \<le> Q" "Q \<le> 21/16" by blast
  have "\<exists>r. js_round Q = Fin r \<and> 0 \<le> r \<and> r \<le> 21/16"
    using Q by (intro js_round_in) (simp_all add: b)
  then obtain y where y: "js_round Q = Fin y" "0 \<le> y" "y \<le> 21/16" by blast
  show ?thesis
    using y(2,3) by (simp add: js_sub_Fin d(1) m(1) q(1) E(1) D(1) M(1) Q(1) y(1))
qed

lemma exp_curve_back:
  assumes L: "0 \<le> L" "L \<le> 3/2" and x: "0 \<le> x" "x \<le> 21/16"
  shows "\<exists>y. js_add (Fin 0) (js_div (js_mul (Fin 1)
            (js_sub (js_exp (js_div (js_mul (Fin L) (js_sub (Fin x) (Fin 0))) (Fin 3))) (Fin 1))) (Fin 3)) = Fin y
        \<and> 0 \<le> y \<and> y \<le> 371/1024"
proof -
  note b = to_double_bounds
  have "\<exists>r. js_round x = Fin r \<and> 0 \<le> r \<and> r \<le> 21/16"
    using x by (intro js_round_in) (simp_all add: b)
  then obtain d where d: "js_round x = Fin d" "0 \<le> d" "d \<le> 21/16" by blast
  have "L * d \<le> 3/2 * (21/16)" using L d by (intro mult_mono) simp_all
  then have "\<exists>r. js_round (L * d) = Fin r \<and> 0 \<le> r \<and> r \<le> 63/32"
    using L d by (intro js_round_in) (simp_all add: b)
  then obtain m where m: "js_round (L * d) = Fin m" "0 \<le> m" "m \<le> 63/32" by blast
  have "\<exists>r. js_round (m / 3) = Fin r \<and> 0 \<le> r \<and> r \<le> 21/32"
    using m by (intro js_round_in) (simp_all add: b)
  then obtain q where q: "js_round (m / 3) = Fin q" "0 \<le> q" "q \<le> 21/32" by blast
  have "exp q \<le> 1 + q + q\<^sup>2" using q by (intro exp_le_quadratic) simp_all
  moreover have "q\<^sup>2 \<le> (21/32)\<^sup>2" using q by (intro power_mono) simp_all
  ultimately have "exp q \<le> 2137/1024" using q(3) by (simp add: power2_eq_square)
  moreover have "1 \<le> exp q" using q by simp
  ultimately have "\<exists>r. js_round (exp q) = Fin r \<and> 1 \<le> r \<and> r \<le> 2137/1024"
    by (intro js_round_in) (simp_all add: b)
  then obtain E where E: "js_round (exp q) = Fin E" "1 \<le> E" "E \<le> 2137/1024" by blast
  have "\<exists>r. js_round (E - 1) = Fin r \<and> 0 \<le> r \<and> r \<le> 1113/1024"
    using E by (intro js_round_in) (simp_all add: b)
  then obtain D where D: "js_round (E - 1) = Fin D" "0 \<le> D" "D \<le> 1113/1024" by blast
  have "\<exists>r. js_round D = Fin r \<and> 0 \<le> r \<and> r \<le> 1113/1024"
    using D by (intro js_round_in) (simp_all add: b)
  then obtain M where M: "js_round D = Fin M" "0 \<le> M" "M \<le> 1113/1024" by blast
  have "\<exists>r. js_round (M / 3) = Fin r \<and> 0 \<le> r \<and> r \<le> 371/1024"
    using M by (intro js_round_in) (simp_all add: b)
  then obtain Q where Q: "js_round (M / 3) = Fin Q" "0 \<le> Q" "Q \<le> 371/1024" by blast
  have "\<exists>r. js_round Q = Fin r \<and> 0 \<le> r \<and> r \<le> 371/1024"
    using Q by (intro js_round_in) (simp_all add: b)
  then obtain y where y: "js_round Q = Fin y" "0 \<le> y" "y \<le> 371/1024" by blast
  show ?thesis
    using y(2,3) by (simp add: js_sub_Fin d(1) m(1) q(1) E(1) D(1) M(1) Q(1) y(1))
qed

lemma exponential_round_trip_low:
  "js_le (Scaler_process (Scaler_mapping (Fin 0, Fin 3) (Fin 0, Fin 1) None (Some ''exponential'') (Some (Fin 4)))
     (Scaler_process (Scaler_mapping (Fin 0, Fin 1) (Fin 0, Fin 3) None (Some ''exponential'') (Some (Fin 4)))
        (Fin (1/2)))) (Fin (3/8))"
proof -
  have "\<exists>r. js_round (ln 4) = Fin r \<and> 0 \<le> r \<and> r \<le> 3/2"
    using ln4_le by (intro js_round_in) (simp_all add: to_double_bounds)
  then obtain L where L: "js_round (ln 4) = Fin L" "0 \<le> L" "L \<le> 3/2" by blast
  from exp_curve_there [OF L(2,3), of "1/2"] obtain y where
    y: "js_add (Fin 0) (js_div (js_mul (Fin 3)
            (js_sub (js_exp (js_div (js_mul (Fin L) (js_sub (Fin (1/2)) (Fin 0))) (Fin 1))) (Fin 1))) (Fin 3)) = Fin y"
      "0 \<le> y" "y \<le> 21/16" by auto
  from exp_curve_back [OF L(2,3) y(2,3)] obtain z where
    z: "js_add (Fin 0) (js_div (js_mul (Fin 1)
            (js_sub (js_exp (js_div (js_mul (Fin L) (js_sub (Fin y) (Fin 0))) (Fin 3))) (Fin 1))) (Fin 3)) = Fin z"
      "0 \<le> z" "z \<le> 371/1024" by auto
  have there: "Scaler_process (Scaler_mapping (Fin 0, Fin 1) (Fin 0, Fin 3) None (Some ''exponential'') (Some (Fin 4)))
        (Fin (1/2)) = Fin y"
    unfolding y(1) [symmetric]
    by (simp add: Scaler_process_def Scaler_degenerate_def Scaler_linear_def Scaler_input_def
      Scaler_mapping_def Scaler_new_def Scaler_init_def Let_def
      js_eq_def js_sub_Fin js_min_Fin js_max_Fin js_round_values L(1))
  have bwd: "Scaler_process (Scaler_mapping (Fin 0, Fin 3) (Fin 0, Fin 1) None (Some ''exponential'') (Some (Fin 4)))
        (Fin y) = Fin z"
    unfolding z(1) [symmetric]
    by (simp add: Scaler_process_def Scaler_degenerate_def Scaler_linear_def Scaler_input_def
      Scaler_mapping_def Scaler_new_def Scaler_init_def Let_def
      js_eq_def js_sub_Fin js_min_Fin js_max_Fin js_round_values L(1))
  show ?thesis using z(3) by (simp add: there bwd)
qed


lemmas Scaler_defs =
  Scaler_process_def Scaler_degenerate_def Scaler_linear_def Scaler_input_def
  Scaler_mapping_def Scaler_new_def Scaler_init_def Let_def


text \<open>The linear formula \<open>t0 + \<tau> * (u - s0) / \<sigma>\<close> rounds four times: the difference,
  the product, the quotient and the sum. With the ranges \<open>\<sigma>\<close>, \<open>\<tau>\<close> and the bound \<open>Dm\<close>
  on \<open>|u - s0|\<close> in a band where nothing overflows or underflows, the result is within
  \<open>2^-53 * (|t0| + 15 * |\<tau>| * Dm / |\<sigma>|)\<close> of the exact value.\<close>

lemma abs_sum4:
  fixes a b c d :: real
  shows "\<bar>a\<bar> \<le> x \<Longrightarrow> \<bar>b\<bar> \<le> y \<Longrightarrow> \<bar>c\<bar> \<le> z \<Longrightarrow> \<bar>d\<bar> \<le> w
    \<Longrightarrow> \<bar>a + b + c + d\<bar> \<le> x + y + z + w"
  by linarith

lemma linear_step_error:
  fixes s0 t0 \<sigma> \<tau> u Dm :: real
  assumes u: "\<bar>u - s0\<bar> \<le> Dm"
    and Dm: "1 / 2 ^ 202 \<le> Dm" "Dm \<le> 2 ^ 203"
    and S: "1 / 2 ^ 202 \<le> \<bar>\<sigma>\<bar>" "\<bar>\<sigma>\<bar> \<le> 2 ^ 202"
    and T: "1 / 2 ^ 202 \<le> \<bar>\<tau>\<bar>" "\<bar>\<tau>\<bar> \<le> 2 ^ 202"
    and t0: "\<bar>t0\<bar> \<le> 2 ^ 200"
  shows "\<exists>v. js_add (Fin t0) (js_div (js_mul (Fin \<tau>) (js_sub (Fin u) (Fin s0))) (Fin \<sigma>)) = Fin v
       \<and> \<bar>v - (t0 + \<tau> * (u - s0) / \<sigma>)\<bar> \<le> (\<bar>t0\<bar> + 15 * (\<bar>\<tau>\<bar> * Dm / \<bar>\<sigma>\<bar>)) / 2 ^ 53"
proof -
  define P where "P = \<bar>\<tau>\<bar> * Dm"
  define W where "W = P / \<bar>\<sigma>\<bar>"
  define d where "d = to_double (u - s0)"
  define p where "p = to_double (\<tau> * d)"
  define q where "q = to_double (p / \<sigma>)"
  define v where "v = to_double (t0 + q)"
  have Spos: "0 < \<bar>\<sigma>\<bar>" using S(1) by (smt (verit) divide_pos_pos zero_less_power)
  have s0: "\<sigma> \<noteq> 0" using Spos by simp
  have Dpos: "0 < Dm" using Dm(1) by (smt (verit) divide_pos_pos zero_less_power)
  have Tpos: "0 < \<bar>\<tau>\<bar>" using T(1) by (smt (verit) divide_pos_pos zero_less_power)
  have P_lo: "1 / 2 ^ 202 * (1 / 2 ^ 202) \<le> P" unfolding P_def
    using T(1) Dm(1) by (intro mult_mono) simp_all
  have P_hi: "P \<le> 2 ^ 202 * 2 ^ 203" unfolding P_def
    using T(2) Dm(2) Dpos by (intro mult_mono) simp_all
  have Ppos: "0 < P" unfolding P_def using Tpos Dpos by simp
  have W_lo: "1 / 2 ^ 202 * (1 / 2 ^ 202) / 2 ^ 202 \<le> W" unfolding W_def
    using P_lo S(2) Spos by (intro frac_le) simp_all
  have W_hi: "W \<le> 2 ^ 202 * 2 ^ 203 / (1 / 2 ^ 202)" unfolding W_def
    using P_hi S(1) Ppos by (intro frac_le) simp_all
  have Wpos: "0 < W" unfolding W_def using Ppos Spos by simp
  have e1: "\<bar>d - (u - s0)\<bar> \<le> Dm / 2 ^ 53" unfolding d_def
    using u Dm(1) by (intro to_double_bounded_error) simp_all
  have "Dm / 2 ^ 53 \<le> Dm" using Dpos by (simp add: field_simps)
  then have d_le: "\<bar>d\<bar> \<le> 2 * Dm" using e1 u by linarith
  have "\<bar>\<tau> * d\<bar> = \<bar>\<tau>\<bar> * \<bar>d\<bar>" by (simp add: abs_mult)
  also have "\<dots> \<le> \<bar>\<tau>\<bar> * (2 * Dm)" using d_le by (intro mult_left_mono) simp_all
  finally have td: "\<bar>\<tau> * d\<bar> \<le> 2 * P" by (simp add: P_def)
  have e2: "\<bar>p - \<tau> * d\<bar> \<le> 2 * P / 2 ^ 53" unfolding p_def
    using td P_lo by (intro to_double_bounded_error) simp_all
  have "2 * P / 2 ^ 53 \<le> 2 * P" using Ppos by (simp add: field_simps)
  then have p_le: "\<bar>p\<bar> \<le> 4 * P" using e2 td by linarith
  have "\<bar>p / \<sigma>\<bar> = \<bar>p\<bar> / \<bar>\<sigma>\<bar>" by simp
  also have "\<dots> \<le> 4 * P / \<bar>\<sigma>\<bar>" using p_le Spos by (intro divide_right_mono) simp_all
  finally have ps: "\<bar>p / \<sigma>\<bar> \<le> 4 * W" by (simp add: W_def)
  have e3: "\<bar>q - p / \<sigma>\<bar> \<le> 4 * W / 2 ^ 53" unfolding q_def
    using ps W_lo by (intro to_double_bounded_error) simp_all
  have "4 * W / 2 ^ 53 \<le> 4 * W" using Wpos by (simp add: field_simps)
  then have q_le: "\<bar>q\<bar> \<le> 8 * W" using e3 ps by linarith
  have tq: "\<bar>t0 + q\<bar> \<le> \<bar>t0\<bar> + 8 * W" using q_le by linarith
  have e4: "\<bar>v - (t0 + q)\<bar> \<le> (\<bar>t0\<bar> + 8 * W) / 2 ^ 53" unfolding v_def
    using tq W_lo by (intro to_double_bounded_error) simp_all
  have j1: "js_sub (Fin u) (Fin s0) = Fin d" unfolding d_def js_sub_Fin
    using u Dm(2) by (intro js_round_finite) simp
  have j2: "js_mul (Fin \<tau>) (Fin d) = Fin p" unfolding p_def js_mul.simps
    using td P_hi by (intro js_round_finite) simp
  have j3: "js_div (Fin p) (Fin \<sigma>) = Fin q" unfolding q_def
    using ps W_hi s0 by (simp add: js_round_finite)
  have j4: "js_add (Fin t0) (Fin q) = Fin v" unfolding v_def js_add.simps
    using tq W_hi t0 by (intro js_round_finite) simp
  have "\<bar>(p - \<tau> * d) / \<sigma>\<bar> = \<bar>p - \<tau> * d\<bar> / \<bar>\<sigma>\<bar>" by simp
  also have "\<dots> \<le> 2 * P / 2 ^ 53 / \<bar>\<sigma>\<bar>" using e2 Spos by (intro divide_right_mono) simp_all
  finally have f2: "\<bar>(p - \<tau> * d) / \<sigma>\<bar> \<le> 2 * W / 2 ^ 53" by (simp add: W_def)
  have "\<bar>\<tau> * (d - (u - s0)) / \<sigma>\<bar> = \<bar>\<tau>\<bar> * \<bar>d - (u - s0)\<bar> / \<bar>\<sigma>\<bar>" by (simp add: abs_mult)
  also have "\<dots> \<le> \<bar>\<tau>\<bar> * (Dm / 2 ^ 53) / \<bar>\<sigma>\<bar>"
    using e1 Spos by (intro divide_right_mono mult_left_mono) simp_all
  finally have f1: "\<bar>\<tau> * (d - (u - s0)) / \<sigma>\<bar> \<le> W / 2 ^ 53"
    by (simp add: W_def P_def)
  have split: "v - (t0 + \<tau> * (u - s0) / \<sigma>)
      = (v - (t0 + q)) + (q - p / \<sigma>) + (p - \<tau> * d) / \<sigma> + \<tau> * (d - (u - s0)) / \<sigma>"
    using s0 by (simp add: field_simps)
  have "\<bar>v - (t0 + \<tau> * (u - s0) / \<sigma>)\<bar>
      \<le> (\<bar>t0\<bar> + 8 * W) / 2 ^ 53 + 4 * W / 2 ^ 53 + 2 * W / 2 ^ 53 + W / 2 ^ 53"
    unfolding split by (rule abs_sum4 [OF e4 e3 f2 f1])
  also have "\<dots> = (\<bar>t0\<bar> + 15 * W) / 2 ^ 53" by (simp add: field_simps)
  finally have "\<bar>v - (t0 + \<tau> * (u - s0) / \<sigma>)\<bar> \<le> (\<bar>t0\<bar> + 15 * W) / 2 ^ 53" .
  moreover have "js_add (Fin t0) (js_div (js_mul (Fin \<tau>) (js_sub (Fin u) (Fin s0))) (Fin \<sigma>)) = Fin v"
    by (simp only: j1 j2 j3 j4)
  ultimately show ?thesis unfolding W_def P_def by blast
qed


text \<open>The width of an interval as \<open>init\<close> stores it: rounded, of the same order and
  never 0.\<close>

lemma range_round:
  assumes "1 / 2 ^ 200 \<le> \<bar>w\<bar>" and "\<bar>w\<bar> \<le> 2 ^ 201"
  shows "js_round w = Fin (to_double w)"
    and "\<bar>to_double w - w\<bar> \<le> \<bar>w\<bar> / 2 ^ 53"
    and "1 / 2 ^ 202 \<le> \<bar>to_double w\<bar>" and "\<bar>to_double w\<bar> \<le> 2 ^ 202"
proof -
  show "js_round w = Fin (to_double w)" using assms(2) by (intro js_round_finite) simp
  have "(1::real) / 2 ^ 1022 \<le> 1 / 2 ^ 200" by (simp add: field_simps)
  then show e: "\<bar>to_double w - w\<bar> \<le> \<bar>w\<bar> / 2 ^ 53"
    using assms(1) by (intro to_double_bounded_error) simp_all
  have h: "\<bar>w\<bar> / 2 ^ 53 \<le> \<bar>w\<bar> / 2" by (simp add: field_simps)
  have lo: "\<bar>w\<bar> / 2 \<le> \<bar>to_double w\<bar>" using e h by linarith
  have "(1::real) / 2 ^ 202 \<le> 1 / 2 ^ 200 / 2" by simp
  also have "\<dots> \<le> \<bar>w\<bar> / 2" using assms(1) by (intro divide_right_mono) simp_all
  also have "\<dots> \<le> \<bar>to_double w\<bar>" by (rule lo)
  finally show "1 / 2 ^ 202 \<le> \<bar>to_double w\<bar>" .
  have "\<bar>to_double w\<bar> \<le> 2 * \<bar>w\<bar>" using e h by linarith
  also have "\<dots> \<le> 2 * 2 ^ 201" using assms(2) by (intro mult_left_mono) simp_all
  finally show "\<bar>to_double w\<bar> \<le> 2 ^ 202" by simp
qed

text \<open>Clipping moves a value no further from a point that is (nearly) inside the
  interval.\<close>

lemma clamp_near:
  fixes y Y lo hi d :: real
  assumes "lo - d \<le> Y" and "Y \<le> hi + d" and "lo \<le> hi" and "0 \<le> d"
  shows "\<bar>max lo (min hi y) - Y\<bar> \<le> \<bar>y - Y\<bar> + d"
  using assms by linarith

text \<open>What \<open>process\<close> computes for a Scaler that takes the linear formula and has
  ranges other than 0.\<close>

lemma Scaler_mapping_linear_process:
  assumes "Scaler_linear (Scaler_mapping (Fin s0, Fin s1) (Fin t0, Fin t1) clip type base)"
    and "js_round (s1 - s0) = Fin \<sigma>" and "\<sigma> \<noteq> 0"
    and "js_round (t1 - t0) = Fin \<tau>" and "\<tau> \<noteq> 0"
  shows "Scaler_process (Scaler_mapping (Fin s0, Fin s1) (Fin t0, Fin t1) clip type base) (Fin u)
    = js_add (Fin t0) (js_div (js_mul (Fin \<tau>)
        (js_sub (Fin (if clip = Some True then max (min s0 s1) (min (max s0 s1) u) else u)) (Fin s0)))
        (Fin \<sigma>))"
  using assms
  by (cases clip)
     (auto simp add: Scaler_defs js_eq_def js_sub_Fin js_min_Fin js_max_Fin)

lemma Scaler_mapping_linear_swap:
  "Scaler_linear (Scaler_mapping B A clip2 type base) = Scaler_linear (Scaler_mapping A B clip1 type base)"
  by (simp add: Scaler_defs)


lemma range_round_ratio:
  assumes "1 / 2 ^ 200 \<le> \<bar>w\<bar>" and "\<bar>w\<bar> \<le> 2 ^ 201"
  shows "\<bar>w\<bar> * (1 - 1 / 2 ^ 53) \<le> \<bar>to_double w\<bar>"
    and "\<bar>to_double w\<bar> \<le> \<bar>w\<bar> * (1 + 1 / 2 ^ 53)"
    and "8 / 9 * \<bar>w\<bar> \<le> \<bar>to_double w\<bar>"
    and "\<bar>to_double w\<bar> \<le> 9 / 8 * \<bar>w\<bar>"
proof -
  note e = range_round(2) [OF assms]
  have m: "\<bar>w\<bar> * (1 - 1 / 2 ^ 53) = \<bar>w\<bar> - \<bar>w\<bar> / 2 ^ 53"
    "\<bar>w\<bar> * (1 + 1 / 2 ^ 53) = \<bar>w\<bar> + \<bar>w\<bar> / 2 ^ 53"
    by (simp_all add: algebra_simps)
  show "\<bar>w\<bar> * (1 - 1 / 2 ^ 53) \<le> \<bar>to_double w\<bar>" unfolding m using e by linarith
  show "\<bar>to_double w\<bar> \<le> \<bar>w\<bar> * (1 + 1 / 2 ^ 53)" unfolding m using e by linarith
  have h: "\<bar>w\<bar> / 2 ^ 53 \<le> \<bar>w\<bar> / 9" by (simp add: field_simps)
  show "8 / 9 * \<bar>w\<bar> \<le> \<bar>to_double w\<bar>" using e h by linarith
  show "\<bar>to_double w\<bar> \<le> 9 / 8 * \<bar>w\<bar>" using e h by linarith
qed


text \<open>The way there. \<open>Y\<close> is the exact image of \<open>x\<close> under the linear map with the
  rounded ranges; the first Scaler returns a number close to it, and \<open>Y\<close> lies in B up
  to a rounding of its width.\<close>

lemma linear_there:
  fixes a0 a1 b0 b1 x :: real
  assumes A: "1 / 2 ^ 200 \<le> \<bar>a1 - a0\<bar>" "\<bar>a1 - a0\<bar> \<le> 2 ^ 201"
    and B: "1 / 2 ^ 200 \<le> \<bar>b1 - b0\<bar>" "\<bar>b1 - b0\<bar> \<le> 2 ^ 201" "\<bar>b0\<bar> \<le> 2 ^ 200"
    and x: "min a0 a1 \<le> x" "x \<le> max a0 a1"
  defines "Y \<equiv> b0 + to_double (b1 - b0) * (x - a0) / to_double (a1 - a0)"
  shows "\<exists>y. js_add (Fin b0) (js_div (js_mul (Fin (to_double (b1 - b0))) (js_sub (Fin x) (Fin a0)))
              (Fin (to_double (a1 - a0)))) = Fin y
          \<and> \<bar>y - Y\<bar> \<le> (\<bar>b0\<bar> + 20 * \<bar>b1 - b0\<bar>) / 2 ^ 53"
    and "min b0 b1 - 4 * \<bar>b1 - b0\<bar> / 2 ^ 53 \<le> Y"
    and "Y \<le> max b0 b1 + 4 * \<bar>b1 - b0\<bar> / 2 ^ 53"
    and "\<bar>Y - b0\<bar> \<le> \<bar>b1 - b0\<bar> + 4 * \<bar>b1 - b0\<bar> / 2 ^ 53"
proof -
  define al where "al = a1 - a0"
  define be where "be = b1 - b0"
  define RA where "RA = to_double al"
  define RB where "RB = to_double be"
  note ra = range_round [OF A, folded al_def, folded RA_def]
    and rb = range_round [OF B(1,2), folded be_def, folded RB_def]
    and qa = range_round_ratio [OF A, folded al_def, folded RA_def]
    and qb = range_round_ratio [OF B(1,2), folded be_def, folded RB_def]
  have al_pos: "0 < \<bar>al\<bar>" using A(1) unfolding al_def
    by (smt (verit) divide_pos_pos zero_less_power)
  have be_pos: "0 < \<bar>be\<bar>" using B(1) unfolding be_def
    by (smt (verit) divide_pos_pos zero_less_power)
  have RA_pos: "0 < \<bar>RA\<bar>" using qa(3) al_pos by linarith
  have RB_pos: "0 < \<bar>RB\<bar>" using qb(3) be_pos by linarith
  have ux: "\<bar>x - a0\<bar> \<le> \<bar>al\<bar>" using x unfolding al_def by linarith
  have al_lo: "1 / 2 ^ 202 \<le> \<bar>al\<bar>"
  proof -
    have "(1::real) / 2 ^ 202 \<le> 1 / 2 ^ 200" by (simp add: field_simps)
    then show ?thesis using A(1) unfolding al_def by linarith
  qed
  have al_hi: "\<bar>al\<bar> \<le> 2 ^ 203"
  proof -
    have "(2::real) ^ 201 \<le> 2 ^ 203" by simp
    then show ?thesis using A(2) unfolding al_def by linarith
  qed
  from linear_step_error [OF ux al_lo al_hi ra(3,4) rb(3,4) B(3)]
  obtain y where y: "js_add (Fin b0) (js_div (js_mul (Fin RB) (js_sub (Fin x) (Fin a0))) (Fin RA)) = Fin y"
    "\<bar>y - (b0 + RB * (x - a0) / RA)\<bar> \<le> (\<bar>b0\<bar> + 15 * (\<bar>RB\<bar> * \<bar>al\<bar> / \<bar>RA\<bar>)) / 2 ^ 53"
    by blast
  have "\<bar>al\<bar> / \<bar>RA\<bar> \<le> 9 / 8" using qa(3) RA_pos by (simp add: field_simps)
  then have "\<bar>RB\<bar> * (\<bar>al\<bar> / \<bar>RA\<bar>) \<le> 9 / 8 * \<bar>be\<bar> * (9 / 8)"
    using qb(4) al_pos RA_pos by (intro mult_mono) simp_all
  then have w: "\<bar>RB\<bar> * \<bar>al\<bar> / \<bar>RA\<bar> \<le> 4 / 3 * \<bar>be\<bar>" by simp
  have "(\<bar>b0\<bar> + 15 * (\<bar>RB\<bar> * \<bar>al\<bar> / \<bar>RA\<bar>)) / 2 ^ 53 \<le> (\<bar>b0\<bar> + 20 * \<bar>be\<bar>) / 2 ^ 53"
    using w by (intro divide_right_mono) simp_all
  then have "\<bar>y - Y\<bar> \<le> (\<bar>b0\<bar> + 20 * \<bar>b1 - b0\<bar>) / 2 ^ 53"
    using y(2) unfolding Y_def RA_def RB_def al_def be_def by linarith
  then show "\<exists>y. js_add (Fin b0) (js_div (js_mul (Fin (to_double (b1 - b0))) (js_sub (Fin x) (Fin a0)))
              (Fin (to_double (a1 - a0)))) = Fin y
          \<and> \<bar>y - Y\<bar> \<le> (\<bar>b0\<bar> + 20 * \<bar>b1 - b0\<bar>) / 2 ^ 53"
    using y(1) unfolding RA_def RB_def al_def be_def by blast
  define tt where "tt = \<bar>x - a0\<bar> / \<bar>RA\<bar>"
  have "0 \<le> (x - a0) * al" using x unfolding al_def
    by (cases "a0 \<le> a1") (simp_all add: mult_nonneg_nonneg mult_nonpos_nonpos)
  moreover have "0 \<le> RA * al" unfolding RA_def by (rule to_double_sign)
  ultimately have "0 \<le> ((x - a0) * al) * (RA * al)" by (rule mult_nonneg_nonneg)
  then have "0 \<le> ((x - a0) * RA) * (al * al)" by (simp add: mult_ac)
  moreover have "0 < al * al" using al_pos by (simp add: power2_eq_square [symmetric])
  ultimately have xs: "0 \<le> (x - a0) * RA" by (simp add: zero_le_mult_iff)
  have "(x - a0) / RA = (x - a0) * RA / (RA * RA)" using RA_pos by simp
  also have "\<dots> = \<bar>(x - a0) * RA\<bar> / (\<bar>RA\<bar> * \<bar>RA\<bar>)" using xs by simp
  also have "\<dots> = \<bar>x - a0\<bar> * \<bar>RA\<bar> / (\<bar>RA\<bar> * \<bar>RA\<bar>)" by (simp only: abs_mult)
  also have "\<dots> = tt" using RA_pos unfolding tt_def by (simp only: mult_divide_mult_cancel_right)
  finally have t: "(x - a0) / RA = tt" .
  have t0: "0 \<le> tt" by (simp add: tt_def)
  have "tt \<le> \<bar>al\<bar> / \<bar>RA\<bar>" unfolding tt_def using ux RA_pos by (intro divide_right_mono) simp_all
  also have "\<dots> \<le> \<bar>al\<bar> / (\<bar>al\<bar> * (1 - 1 / 2 ^ 53))"
    using qa(1) al_pos by (intro divide_left_mono mult_pos_pos) (simp_all add: RA_pos)
  also have "\<dots> = 1 / (1 - 1 / 2 ^ 53)" using al_pos by simp
  finally have t1: "tt \<le> 1 / (1 - 1 / 2 ^ 53)" .
  have Yt: "Y - b0 = RB * tt" unfolding Y_def t [symmetric] RA_def RB_def al_def be_def by simp
  have "\<bar>RB * tt\<bar> = \<bar>RB\<bar> * tt" using t0 by (simp add: abs_mult)
  also have "\<dots> \<le> \<bar>be\<bar> * (1 + 1 / 2 ^ 53) * (1 / (1 - 1 / 2 ^ 53))"
    using qb(2) t1 t0 by (intro mult_mono) simp_all
  also have "\<dots> = \<bar>be\<bar> * ((1 + 1 / 2 ^ 53) / (1 - 1 / 2 ^ 53))" by simp
  also have "\<dots> \<le> \<bar>be\<bar> * (1 + 4 / 2 ^ 53)" by (intro mult_left_mono) simp_all
  also have "\<dots> = \<bar>be\<bar> + 4 * \<bar>be\<bar> / 2 ^ 53" by (simp add: algebra_simps)
  finally have Yb: "\<bar>RB * tt\<bar> \<le> \<bar>be\<bar> + 4 * \<bar>be\<bar> / 2 ^ 53" .
  then show "\<bar>Y - b0\<bar> \<le> \<bar>b1 - b0\<bar> + 4 * \<bar>b1 - b0\<bar> / 2 ^ 53"
    unfolding Yt be_def .
  have "0 \<le> (RB * be) * tt" using t0 to_double_sign [of be] by (simp add: RB_def)
  then have sg: "0 \<le> (RB * tt) * be" by (simp add: mult_ac)
  define dl where "dl = 4 * \<bar>be\<bar> / 2 ^ 53"
  have Yd: "\<bar>Y - b0\<bar> \<le> \<bar>be\<bar> + dl" using Yb unfolding Yt dl_def .
  have dl0: "0 \<le> dl" by (simp add: dl_def)
  have "min b0 b1 - dl \<le> Y \<and> Y \<le> max b0 b1 + dl"
  proof (cases "0 < be")
    case True
    then have "0 \<le> Y - b0" using sg unfolding Yt by (simp add: zero_le_mult_iff)
    then show ?thesis using True Yd dl0 unfolding be_def by linarith
  next
    case False
    then have neg: "be < 0" using be_pos by linarith
    then have "Y - b0 \<le> 0" using sg unfolding Yt by (simp add: zero_le_mult_iff)
    then show ?thesis using neg Yd dl0 unfolding be_def by linarith
  qed
  then show "min b0 b1 - 4 * \<bar>b1 - b0\<bar> / 2 ^ 53 \<le> Y"
    and "Y \<le> max b0 b1 + 4 * \<bar>b1 - b0\<bar> / 2 ^ 53"
    unfolding dl_def be_def by simp_all
qed

text \<open>The way back. The second Scaler, exact, would send \<open>Y\<close> to \<open>x\<close>; it receives a
  number close to \<open>Y\<close>, magnifies the difference by the ratio of the widths and adds
  its own four roundings.\<close>

lemma linear_round_trip:
  fixes a0 a1 b0 b1 x :: real
  assumes lin: "Scaler_linear (Scaler_mapping (Fin a0, Fin a1) (Fin b0, Fin b1) clip1 type base)"
    and A: "\<bar>a0\<bar> \<le> 2 ^ 200" "\<bar>a1\<bar> \<le> 2 ^ 200" "1 / 2 ^ 200 \<le> \<bar>a1 - a0\<bar>"
    and B: "\<bar>b0\<bar> \<le> 2 ^ 200" "\<bar>b1\<bar> \<le> 2 ^ 200" "1 / 2 ^ 200 \<le> \<bar>b1 - b0\<bar>"
    and x: "min a0 a1 \<le> x" "x \<le> max a0 a1"
  shows "js_near
      (Scaler_process (Scaler_mapping (Fin b0, Fin b1) (Fin a0, Fin a1) clip2 type base)
         (Scaler_process (Scaler_mapping (Fin a0, Fin a1) (Fin b0, Fin b1) clip1 type base) (Fin x)))
      x ((\<bar>a0\<bar> + \<bar>a1 - a0\<bar> + \<bar>a1 - a0\<bar> * \<bar>b0\<bar> / \<bar>b1 - b0\<bar>) / 2 ^ 46)"
proof -
  define al where "al = a1 - a0"
  define be where "be = b1 - b0"
  define RA where "RA = to_double al"
  define RB where "RB = to_double be"
  have two: "(2::real) ^ 201 = 2 * 2 ^ 200" by simp
  have al_hi: "\<bar>a1 - a0\<bar> \<le> 2 ^ 201" unfolding two using A(1,2) by linarith
  have be_hi: "\<bar>b1 - b0\<bar> \<le> 2 ^ 201" unfolding two using B(1,2) by linarith
  note ra = range_round [OF A(3) al_hi, folded al_def, folded RA_def]
    and rb = range_round [OF B(3) be_hi, folded be_def, folded RB_def]
    and qa = range_round_ratio [OF A(3) al_hi, folded al_def, folded RA_def]
    and qb = range_round_ratio [OF B(3) be_hi, folded be_def, folded RB_def]
  have al_pos: "0 < \<bar>al\<bar>" using A(3) unfolding al_def
    by (smt (verit) divide_pos_pos zero_less_power)
  have be_pos: "0 < \<bar>be\<bar>" using B(3) unfolding be_def
    by (smt (verit) divide_pos_pos zero_less_power)
  have RA_pos: "0 < \<bar>RA\<bar>" using qa(3) al_pos by linarith
  have RB_pos: "0 < \<bar>RB\<bar>" using qb(3) be_pos by linarith
  have RA0: "RA \<noteq> 0" and RB0: "RB \<noteq> 0" using RA_pos RB_pos by simp_all
  define Y where "Y = b0 + RB * (x - a0) / RA"
  note th = linear_there [OF A(3) al_hi B(3) be_hi B(1) x, folded al_def be_def, folded RA_def RB_def,
      folded Y_def]
  from th(1) obtain y where
    y: "js_add (Fin b0) (js_div (js_mul (Fin RB) (js_sub (Fin x) (Fin a0))) (Fin RA)) = Fin y"
      "\<bar>y - Y\<bar> \<le> (\<bar>b0\<bar> + 20 * \<bar>be\<bar>) / 2 ^ 53" by blast
  have x1: "(if clip1 = Some True then max (min a0 a1) (min (max a0 a1) x) else x) = x"
    using x by simp
  have p1: "Scaler_process (Scaler_mapping (Fin a0, Fin a1) (Fin b0, Fin b1) clip1 type base) (Fin x) = Fin y"
    using Scaler_mapping_linear_process [OF lin ra(1) [unfolded al_def] RA0 rb(1) [unfolded be_def] RB0, of x]
    unfolding x1 y(1) .
  define y' where "y' = (if clip2 = Some True then max (min b0 b1) (min (max b0 b1) y) else y)"
  have lin2: "Scaler_linear (Scaler_mapping (Fin b0, Fin b1) (Fin a0, Fin a1) clip2 type base)"
    using lin by (simp only: Scaler_mapping_linear_swap [of _ _ clip2 _ _ clip1])
  have p2: "Scaler_process (Scaler_mapping (Fin b0, Fin b1) (Fin a0, Fin a1) clip2 type base) (Fin y)
      = js_add (Fin a0) (js_div (js_mul (Fin RA) (js_sub (Fin y') (Fin b0))) (Fin RB))"
    using Scaler_mapping_linear_process [OF lin2 rb(1) [unfolded be_def] RB0 ra(1) [unfolded al_def] RA0, of y]
    unfolding y'_def .
  define dl where "dl = 4 * \<bar>be\<bar> / 2 ^ 53"
  define F where "F = (\<bar>b0\<bar> + 24 * \<bar>be\<bar>) / 2 ^ 53"
  have dl0: "0 \<le> dl" by (simp add: dl_def)
  have F_eq: "F = (\<bar>b0\<bar> + 20 * \<bar>be\<bar>) / 2 ^ 53 + dl" by (simp add: F_def dl_def field_simps)
  have "\<bar>max (min b0 b1) (min (max b0 b1) y) - Y\<bar> \<le> \<bar>y - Y\<bar> + dl"
    using th(2,3) dl0 unfolding dl_def [symmetric] by (intro clamp_near) simp_all
  then have "\<bar>y' - Y\<bar> \<le> \<bar>y - Y\<bar> + dl" using dl0 by (simp add: y'_def)
  then have yY: "\<bar>y' - Y\<bar> \<le> F" using y(2) unfolding F_eq by linarith
  define Dm where "Dm = F + 2 * \<bar>be\<bar>"
  have F0: "0 \<le> F" by (simp add: F_def)
  have "dl \<le> \<bar>be\<bar>" by (simp add: dl_def field_simps)
  moreover have "\<bar>y' - b0\<bar> \<le> \<bar>y' - Y\<bar> + \<bar>Y - b0\<bar>" by linarith
  ultimately have ub: "\<bar>y' - b0\<bar> \<le> Dm"
    using yY th(4) unfolding dl_def [symmetric] Dm_def by linarith
  have "(1::real) / 2 ^ 202 \<le> 1 / 2 ^ 200" by (simp add: field_simps)
  also have "\<dots> \<le> \<bar>be\<bar>" using B(3) by (simp add: be_def)
  also have "\<dots> \<le> Dm" using F0 unfolding Dm_def by linarith
  finally have Dm_lo: "1 / 2 ^ 202 \<le> Dm" .
  have "F \<le> (2 ^ 200 + 24 * 2 ^ 201) / 2 ^ 53" unfolding F_def
    using B(1) be_hi unfolding be_def [symmetric] by (intro divide_right_mono add_mono mult_left_mono) simp_all
  also have "\<dots> \<le> 2 ^ 202" by simp
  finally have "F \<le> 2 ^ 202" .
  moreover have "2 * \<bar>be\<bar> \<le> 2 * 2 ^ 201" using be_hi unfolding be_def by simp
  moreover have "(2::real) ^ 203 = 2 ^ 202 + 2 * 2 ^ 201" by simp
  ultimately have Dm_hi: "Dm \<le> 2 ^ 203" unfolding Dm_def by linarith
  from linear_step_error [OF ub Dm_lo Dm_hi rb(3,4) ra(3,4) A(1)]
  obtain x' where x': "js_add (Fin a0) (js_div (js_mul (Fin RA) (js_sub (Fin y') (Fin b0))) (Fin RB)) = Fin x'"
    "\<bar>x' - (a0 + RA * (y' - b0) / RB)\<bar> \<le> (\<bar>a0\<bar> + 15 * (\<bar>RA\<bar> * Dm / \<bar>RB\<bar>)) / 2 ^ 53"
    by blast
  define r where "r = \<bar>al\<bar> / \<bar>be\<bar>"
  define Gt where "Gt = \<bar>al\<bar> * \<bar>b0\<bar> / \<bar>be\<bar>"
  have r0: "0 \<le> r" by (simp add: r_def)
  have Gt0: "0 \<le> Gt" by (simp add: Gt_def)
  have "\<bar>RA\<bar> / \<bar>RB\<bar> \<le> (9 / 8 * \<bar>al\<bar>) / (8 / 9 * \<bar>be\<bar>)"
    using qa(4) qb(3) be_pos by (intro frac_le) simp_all
  also have "\<dots> = 81 / 64 * r" by (simp add: r_def)
  also have "\<dots> \<le> 4 / 3 * r" using r0 by simp
  finally have ratio: "\<bar>RA\<bar> / \<bar>RB\<bar> \<le> 4 / 3 * r" .
  have rF: "r * F = (Gt + 24 * \<bar>al\<bar>) / 2 ^ 53"
    using be_pos by (simp add: r_def F_def Gt_def field_simps)
  have rD: "r * Dm = r * F + 2 * \<bar>al\<bar>"
    using be_pos by (simp add: r_def Dm_def field_simps)
  have Dm0: "0 \<le> Dm" using F0 unfolding Dm_def by linarith
  have "\<bar>RA\<bar> * Dm / \<bar>RB\<bar> = \<bar>RA\<bar> / \<bar>RB\<bar> * Dm" by simp
  also have "\<dots> \<le> 4 / 3 * r * Dm" using ratio Dm0 by (intro mult_right_mono)
  also have "\<dots> = 4 / 3 * (r * Dm)" by simp
  also have "\<dots> = 4 / 3 * (r * F + 2 * \<bar>al\<bar>)" by (simp only: rD)
  finally have W: "\<bar>RA\<bar> * Dm / \<bar>RB\<bar> \<le> 4 / 3 * (r * F + 2 * \<bar>al\<bar>)" .
  have X1: "\<bar>x' - (a0 + RA * (y' - b0) / RB)\<bar> \<le> (\<bar>a0\<bar> + 20 * (r * F + 2 * \<bar>al\<bar>)) / 2 ^ 53"
  proof -
    have "(\<bar>a0\<bar> + 15 * (\<bar>RA\<bar> * Dm / \<bar>RB\<bar>)) / 2 ^ 53 \<le> (\<bar>a0\<bar> + 20 * (r * F + 2 * \<bar>al\<bar>)) / 2 ^ 53"
      using W by (intro divide_right_mono) simp_all
    then show ?thesis using x'(2) by linarith
  qed
  have "a0 + RA * (y' - b0) / RB - x = RA * (y' - Y) / RB"
    using RA0 RB0 by (simp add: Y_def field_simps)
  then have "\<bar>a0 + RA * (y' - b0) / RB - x\<bar> = \<bar>RA\<bar> / \<bar>RB\<bar> * \<bar>y' - Y\<bar>"
    by (simp add: abs_mult)
  also have "\<dots> \<le> 4 / 3 * r * F"
    using ratio yY r0 by (intro mult_mono) simp_all
  finally have X2: "\<bar>a0 + RA * (y' - b0) / RB - x\<bar> \<le> 4 / 3 * (r * F)" by simp
  have "\<bar>x' - x\<bar> \<le> \<bar>x' - (a0 + RA * (y' - b0) / RB)\<bar> + \<bar>a0 + RA * (y' - b0) / RB - x\<bar>"
    by linarith
  also have "\<dots> \<le> (\<bar>a0\<bar> + 20 * (r * F + 2 * \<bar>al\<bar>)) / 2 ^ 53 + 4 / 3 * (r * F)"
    using X1 X2 by linarith
  also have "\<dots> \<le> (\<bar>a0\<bar> + \<bar>al\<bar> + Gt) / 2 ^ 46"
    unfolding rF using Gt0 by (simp add: field_simps)
  finally have "\<bar>x' - x\<bar> \<le> (\<bar>a0\<bar> + \<bar>a1 - a0\<bar> + \<bar>a1 - a0\<bar> * \<bar>b0\<bar> / \<bar>b1 - b0\<bar>) / 2 ^ 46"
    unfolding Gt_def al_def be_def .
  then show ?thesis unfolding p1 p2 x'(1) by simp
qed

text \<open>C5, refuted as stated. The spec says that, for two Scalers with the same formula
  type, one mapping the interval A to B and the other B to A, sending an input inside A
  through the first and the result through the second recovers the input within
  floating-point tolerance. Five round trips that lose the input: (1) B of zero
  width, A = [0, 1], B = [5, 5]: the input 1 comes back as 0; (2) both Scalers
  \<open>'exponential'\<close> with base 4, A = [0, 1], B = [0, 3]: the input 0.5 comes back as at
  most 0.375, since the exponential curve is applied twice; (3) an infinite end point,
  A = [0, Infinity], B = [0, 1]: the input 1 comes back as NaN; (4) both Scalers
  linear, A = [0, 1], B = [2^54, 2^54 + 4]: the input 0.25 is sent to 2^54 and comes
  back as 0, the sum with the output start having rounded the offset away; (5) an
  interval whose width overflows, A = [0, 1], B = [-2^1023, 2^1023]: the input 0.5
  comes back as NaN.\<close>

theorem Scaler_round_trip_fails:
  "Scaler_process (Scaler_mapping (Fin 5, Fin 5) (Fin 0, Fin 1) None None None)
     (Scaler_process (Scaler_mapping (Fin 0, Fin 1) (Fin 5, Fin 5) None None None) (Fin 1)) = Fin 0
   \<and> js_le (Scaler_process
        (Scaler_mapping (Fin 0, Fin 3) (Fin 0, Fin 1) None (Some ''exponential'') (Some (Fin 4)))
        (Scaler_process
           (Scaler_mapping (Fin 0, Fin 1) (Fin 0, Fin 3) None (Some ''exponential'') (Some (Fin 4)))
           (Fin (1/2)))) (Fin (3/8))
   \<and> Scaler_process (Scaler_mapping (Fin 0, Fin 1) (Fin 0, PosInf) None None None)
       (Scaler_process (Scaler_mapping (Fin 0, PosInf) (Fin 0, Fin 1) None None None) (Fin 1)) = NaN
   \<and> Scaler_process (Scaler_mapping (Fin (2 ^ 54), Fin (2 ^ 54 + 4)) (Fin 0, Fin 1) None None None)
       (Scaler_process (Scaler_mapping (Fin 0, Fin 1) (Fin (2 ^ 54), Fin (2 ^ 54 + 4)) None None None)
          (Fin (1/4))) = Fin 0
   \<and> Scaler_process (Scaler_mapping (Fin (- (2 ^ 1023)), Fin (2 ^ 1023)) (Fin 0, Fin 1) None None None)
       (Scaler_process (Scaler_mapping (Fin 0, Fin 1) (Fin (- (2 ^ 1023)), Fin (2 ^ 1023)) None None None)
          (Fin (1/2))) = NaN"
proof (intro conjI)
  show "Scaler_process (Scaler_mapping (Fin 5, Fin 5) (Fin 0, Fin 1) None None None)
     (Scaler_process (Scaler_mapping (Fin 0, Fin 1) (Fin 5, Fin 5) None None None) (Fin 1)) = Fin 0"
    by (simp add: Scaler_defs js_eq_def js_sub_Fin js_min_Fin js_max_Fin js_round_values)
  show "js_le (Scaler_process
        (Scaler_mapping (Fin 0, Fin 3) (Fin 0, Fin 1) None (Some ''exponential'') (Some (Fin 4)))
        (Scaler_process
           (Scaler_mapping (Fin 0, Fin 1) (Fin 0, Fin 3) None (Some ''exponential'') (Some (Fin 4)))
           (Fin (1/2)))) (Fin (3/8))"
    by (rule exponential_round_trip_low)
  show "Scaler_process (Scaler_mapping (Fin 0, Fin 1) (Fin 0, PosInf) None None None)
       (Scaler_process (Scaler_mapping (Fin 0, PosInf) (Fin 0, Fin 1) None None None) (Fin 1)) = NaN"
    by (simp add: Scaler_defs js_eq_def js_sub_def js_min_def js_max_def js_round_values)
  have r: "to_double (2 ^ 54 + 1) = 2 ^ 54"
    using to_double_evalI [of 54 "2 ^ 54 + 1" "2 ^ 52"] by simp
  have b: "js_round (2 ^ 54) = Fin (2 ^ 54)"
    using js_round_dyadic [of 1 54] by simp
  show "Scaler_process (Scaler_mapping (Fin (2 ^ 54), Fin (2 ^ 54 + 4)) (Fin 0, Fin 1) None None None)
       (Scaler_process (Scaler_mapping (Fin 0, Fin 1) (Fin (2 ^ 54), Fin (2 ^ 54 + 4)) None None None)
          (Fin (1/4))) = Fin 0"
    using js_round_evalI [OF r] b
    by (simp add: Scaler_defs js_eq_def js_sub_Fin js_min_Fin js_max_Fin js_round_values)
  have "to_double (2 ^ 1024) = 2 ^ 1024"
    using to_double_dyadic [of 1 1024] by simp
  then have w: "js_round (2 ^ 1023 + 2 ^ 1023) = PosInf"
    by (simp add: js_round_def)
  show "Scaler_process (Scaler_mapping (Fin (- (2 ^ 1023)), Fin (2 ^ 1023)) (Fin 0, Fin 1) None None None)
       (Scaler_process (Scaler_mapping (Fin 0, Fin 1) (Fin (- (2 ^ 1023)), Fin (2 ^ 1023)) None None None)
          (Fin (1/2))) = NaN"
    using w
    by (simp add: Scaler_defs js_eq_def js_sub_def js_min_Fin js_max_Fin js_round_values
        inf_of_sign_def)
qed

text \<open>C5, amended. (a) When the interval A has zero width, A = [a, a] with \<open>a\<close> finite,
  the round trip returns the input \<open>a\<close> exactly, whatever the interval B, the formula
  type, the base and the clipping of either Scaler. (b) When both Scalers take the
  linear formula (same type and base), the end points of A = [a0, a1] and B = [b0, b1]
  have magnitude at most 2^200 and both widths are at least 2^-200, every input \<open>x\<close>
  inside A comes back, through the first Scaler and then the second, as a finite number
  within \<open>(|a0| + |a1 - a0| + |a1 - a0| * |b0| / |b1 - b0|) / 2^46\<close> of \<open>x\<close>, with or
  without clipping in either Scaler. The tolerance is relative to the scale of A and
  grows with the ratio of the output start to the width of B.\<close>

theorem Scaler_round_trip:
  fixes a a0 a1 b0 b1 x :: real
  shows "Scaler_process (Scaler_mapping B (Fin a, Fin a) clip_d type_d base_d)
       (Scaler_process (Scaler_mapping (Fin a, Fin a) B clip_c type_c base_c) (Fin a)) = Fin a
    \<and> (Scaler_linear (Scaler_mapping (Fin a0, Fin a1) (Fin b0, Fin b1) clip_a type base)
        \<and> \<bar>a0\<bar> \<le> 2 ^ 200 \<and> \<bar>a1\<bar> \<le> 2 ^ 200 \<and> 1 / 2 ^ 200 \<le> \<bar>a1 - a0\<bar>
        \<and> \<bar>b0\<bar> \<le> 2 ^ 200 \<and> \<bar>b1\<bar> \<le> 2 ^ 200 \<and> 1 / 2 ^ 200 \<le> \<bar>b1 - b0\<bar>
        \<and> min a0 a1 \<le> x \<and> x \<le> max a0 a1
       \<longrightarrow> js_near
          (Scaler_process (Scaler_mapping (Fin b0, Fin b1) (Fin a0, Fin a1) clip_b type base)
             (Scaler_process (Scaler_mapping (Fin a0, Fin a1) (Fin b0, Fin b1) clip_a type base)
                (Fin x)))
          x ((\<bar>a0\<bar> + \<bar>a1 - a0\<bar> + \<bar>a1 - a0\<bar> * \<bar>b0\<bar> / \<bar>b1 - b0\<bar>) / 2 ^ 46))"
proof (intro conjI impI)
  show "Scaler_process (Scaler_mapping B (Fin a, Fin a) clip_d type_d base_d)
       (Scaler_process (Scaler_mapping (Fin a, Fin a) B clip_c type_c base_c) (Fin a)) = Fin a"
    by (simp add: Scaler_defs js_eq_def js_sub_Fin js_min_Fin js_max_Fin)
next
  assume h: "Scaler_linear (Scaler_mapping (Fin a0, Fin a1) (Fin b0, Fin b1) clip_a type base)
        \<and> \<bar>a0\<bar> \<le> 2 ^ 200 \<and> \<bar>a1\<bar> \<le> 2 ^ 200 \<and> 1 / 2 ^ 200 \<le> \<bar>a1 - a0\<bar>
        \<and> \<bar>b0\<bar> \<le> 2 ^ 200 \<and> \<bar>b1\<bar> \<le> 2 ^ 200 \<and> 1 / 2 ^ 200 \<le> \<bar>b1 - b0\<bar>
        \<and> min a0 a1 \<le> x \<and> x \<le> max a0 a1"
  show "js_near
          (Scaler_process (Scaler_mapping (Fin b0, Fin b1) (Fin a0, Fin a1) clip_b type base)
             (Scaler_process (Scaler_mapping (Fin a0, Fin a1) (Fin b0, Fin b1) clip_a type base)
                (Fin x)))
          x ((\<bar>a0\<bar> + \<bar>a1 - a0\<bar> + \<bar>a1 - a0\<bar> * \<bar>b0\<bar> / \<bar>b1 - b0\<bar>) / 2 ^ 46)"
    by (rule linear_round_trip) (use h in blast)+
qed

theorem Scaler_round_trip_witness:
  "Scaler_process (Scaler_mapping (Fin 0, Fin 1) (Fin 3, Fin 3) (Some True) (Some ''log'') (Some (Fin 2)))
       (Scaler_process (Scaler_mapping (Fin 3, Fin 3) (Fin 0, Fin 1) None None None) (Fin 3)) = Fin 3
   \<and> js_near
        (Scaler_process (Scaler_mapping (Fin 1, Fin 3) (Fin 0, Fin 1) (Some True) None None)
           (Scaler_process (Scaler_mapping (Fin 0, Fin 1) (Fin 1, Fin 3) None None None)
              (Fin (1/2))))
        (1/2) (3 / 2 / 2 ^ 46)"
proof -
  have lin: "Scaler_linear (Scaler_mapping (Fin 0, Fin 1) (Fin 1, Fin 3) None None None)"
    by (simp add: Scaler_defs js_eq_def js_sub_Fin js_min_Fin js_max_Fin js_round_values)
  show ?thesis
    using Scaler_round_trip [where a = 3 and B = "(Fin 0, Fin 1)" and clip_d = "Some True"
        and type_d = "Some ''log''" and base_d = "Some (Fin 2)" and clip_c = None
        and type_c = None and base_c = None
        and ?a0.0 = 0 and ?a1.0 = 1 and ?b0.0 = 1 and ?b1.0 = 3 and clip_a = None and clip_b = "Some True"
        and type = None and base = None and x = "1/2"] lin
    by simp
qed
end
